(* ===== verification/Prelude.thy ===== *)
theory Prelude
  imports Main "HOL-Library.Word"
begin

text \<open>
  Shared vocabulary of the development: the machine integers of the Rust code, the
  meaning of the SQL statements the code embeds (over a table kept as the list of its
  rows in rowid order), and the generic facts the components' proofs rest on.

  \<^item> A Rust \<open>u64\<close> is a \<^typ>\<open>64 word\<close>; an \<open>i64\<close> (every SQLite INTEGER column) is an
    \<^typ>\<open>int\<close>, and the casts between them are \<open>as_i64\<close> and \<open>as_u64\<close>.
  \<^item> \<open>UPDATE t SET .. WHERE p\<close> is \<open>update_where p f\<close>; its affected-row count is
    \<open>count_where p\<close>; \<open>SELECT .. WHERE p ORDER BY k LIMIT 1\<close> is \<open>first_min k (filter p t)\<close>
    (a tie goes to the smaller rowid, which is how SQLite scans the table).
  \<^item> A timestamp column holds ISO-8601 UTC text at second resolution. It is modelled by
    the number of seconds it denotes: the text is fixed-width, so comparing two of them
    is comparing the numbers.
\<close>

named_theorems row_simps \<open>projections of updated rows and tables\<close>
named_theorems op_defs \<open>definitions of the database operations, for unfolding together\<close>

type_synonym u64 = "64 word"
type_synonym u8 = "8 word"

subsection \<open>Casts between u64 and i64\<close>

definition as_i64 :: "u64 \<Rightarrow> int" where
  "as_i64 w = sint w"

definition as_u64 :: "int \<Rightarrow> u64" where
  "as_u64 i = word_of_int i"

lemma as_u64_as_i64 [simp]: "as_u64 (as_i64 w) = w"
  by (simp add: as_i64_def as_u64_def)

lemma as_i64_inj: "as_i64 a = as_i64 b \<longleftrightarrow> a = b"
  by (metis as_u64_as_i64)

lemma as_i64_lower: "- (2 ^ 63) \<le> as_i64 w"
  using sint_greater_eq [of w] by (simp add: as_i64_def)

lemma as_i64_upper: "as_i64 w < 2 ^ 63"
  using sint_lt [of w] by (simp add: as_i64_def)

lemma as_i64_nonneg: "uint w < 2 ^ 63 \<Longrightarrow> as_i64 w = uint w"
  using signed_take_bit_int_eq_self [of 63 "uint w"] uint_ge_0 [of w]
  by (simp add: as_i64_def sint_uint order_trans [OF _ uint_ge_0])

lemma as_i64_nonneg_conv: "0 \<le> as_i64 w \<Longrightarrow> as_i64 w = uint w"
proof -
  assume "0 \<le> as_i64 w"
  then have "uint (as_u64 (as_i64 w)) = as_i64 w"
    using as_i64_upper [of w] by (simp add: as_u64_def uint_word_of_int del: as_u64_as_i64)
  then show ?thesis by simp
qed

subsection \<open>Tables as lists of rows\<close>

definition update_where :: "('r \<Rightarrow> bool) \<Rightarrow> ('r \<Rightarrow> 'r) \<Rightarrow> 'r list \<Rightarrow> 'r list" where
  "update_where p f t = map (\<lambda>r. if p r then f r else r) t"

definition count_where :: "('r \<Rightarrow> bool) \<Rightarrow> 'r list \<Rightarrow> nat" where
  "count_where p t = length (filter p t)"

fun first_min :: "('r \<Rightarrow> int) \<Rightarrow> 'r list \<Rightarrow> 'r option" where
  "first_min k [] = None"
| "first_min k (x # xs) =
     (case first_min k xs of
        None \<Rightarrow> Some x
      | Some y \<Rightarrow> if k x \<le> k y then Some x else Some y)"

text \<open>A LIMIT clause; SQLite reads a negative limit as no limit.\<close>

definition sql_limit :: "int \<Rightarrow> 'r list \<Rightarrow> 'r list" where
  "sql_limit n t = (if n < 0 then t else take (nat n) t)"

text \<open>The rowid position of the first row satisfying a predicate.\<close>

fun position :: "('r \<Rightarrow> bool) \<Rightarrow> 'r list \<Rightarrow> nat option" where
  "position p [] = None"
| "position p (x # xs) = (if p x then Some 0 else map_option Suc (position p xs))"

lemma length_update_where [simp]: "length (update_where p f t) = length t"
  by (simp add: update_where_def)

lemma update_where_Nil [simp]: "update_where p f [] = []"
  by (simp add: update_where_def)

lemma update_where_Cons [simp]:
  "update_where p f (x # t) = (if p x then f x else x) # update_where p f t"
  by (simp add: update_where_def)

lemma update_where_append [simp]:
  "update_where p f (s @ t) = update_where p f s @ update_where p f t"
  by (simp add: update_where_def)

lemma set_update_where:
  "set (update_where p f t) = {r \<in> set t. \<not> p r} \<union> f ` {r \<in> set t. p r}"
  by (auto simp: update_where_def)

lemma map_update_where:
  assumes "\<And>r. key (f r) = key r"
  shows "map key (update_where p f t) = map key t"
  using assms by (simp add: update_where_def)

lemma update_where_id: "(\<And>r. r \<in> set t \<Longrightarrow> \<not> p r) \<Longrightarrow> update_where p f t = t"
  by (induction t) auto

lemma count_where_0: "count_where p t = 0 \<longleftrightarrow> (\<forall>r \<in> set t. \<not> p r)"
  by (simp add: count_where_def filter_empty_conv)

lemma count_where_pos: "0 < count_where p t \<longleftrightarrow> (\<exists>r \<in> set t. p r)"
  using count_where_0 [of p t] by auto

lemma update_where_nth:
  "i < length t \<Longrightarrow> update_where p f t ! i = (if p (t ! i) then f (t ! i) else t ! i)"
  by (simp add: update_where_def)

subsection \<open>Lookup by a key column\<close>

definition lookup_by :: "('r \<Rightarrow> 'k) \<Rightarrow> 'k \<Rightarrow> 'r list \<Rightarrow> 'r option" where
  "lookup_by key k t = find (\<lambda>r. key r = k) t"

lemma lookup_by_Nil [simp]: "lookup_by key k [] = None"
  by (simp add: lookup_by_def)

lemma lookup_by_Cons [simp]:
  "lookup_by key k (x # t) = (if key x = k then Some x else lookup_by key k t)"
  by (simp add: lookup_by_def)

lemma lookup_by_Some: "lookup_by key k t = Some r \<Longrightarrow> r \<in> set t \<and> key r = k"
  by (induction t) (auto split: if_splits)

lemma lookup_by_None: "lookup_by key k t = None \<longleftrightarrow> k \<notin> key ` set t"
  by (induction t) auto

lemma lookup_by_distinct:
  "distinct (map key t) \<Longrightarrow> r \<in> set t \<Longrightarrow> lookup_by key (key r) t = Some r"
  by (induction t) (auto simp: rev_image_eqI)

lemma lookup_by_unique:
  "distinct (map key t) \<Longrightarrow> r \<in> set t \<Longrightarrow> r' \<in> set t \<Longrightarrow> key r = key r' \<Longrightarrow> r = r'"
  by (metis lookup_by_distinct option.inject)

lemma lookup_by_append:
  "lookup_by key k (s @ t) =
     (case lookup_by key k s of None \<Rightarrow> lookup_by key k t | Some r \<Rightarrow> Some r)"
  by (induction s) auto

lemma lookup_by_update_where:
  assumes "\<And>r. key (f r) = key r"
  shows "lookup_by key k (update_where p f t) =
           map_option (\<lambda>r. if p r then f r else r) (lookup_by key k t)"
  using assms by (induction t) auto

lemma lookup_by_update_other:
  assumes "\<And>r. key (f r) = key r" and "\<And>r. key r = k \<Longrightarrow> \<not> p r"
  shows "lookup_by key k (update_where p f t) = lookup_by key k t"
  using assms by (induction t) auto

lemma update_where_keyed:
  assumes "distinct (map key t)" and "r \<in> set t"
  shows "set (update_where (\<lambda>x. key x = key r \<and> q x) f t) =
           (if q r then insert (f r) (set t - {r}) else set t)"
proof -
  have "x \<in> set t \<Longrightarrow> key x = key r \<longleftrightarrow> x = r" for x
    using lookup_by_unique [OF assms(1) _ assms(2)] by auto
  then show ?thesis using assms(2) by (auto simp: set_update_where)
qed

subsection \<open>The first minimal row\<close>

lemma first_min_None [simp]: "first_min k t = None \<longleftrightarrow> t = []"
  by (cases t) (auto split: option.splits if_splits)

lemma first_min_Some:
  "first_min k t = Some x \<Longrightarrow> x \<in> set t \<and> (\<forall>y \<in> set t. k x \<le> k y)"
proof (induction t arbitrary: x)
  case Nil
  then show ?case by simp
next
  case (Cons a t)
  show ?case
  proof (cases "first_min k t")
    case None
    with Cons.prems show ?thesis by simp
  next
    case (Some y)
    with Cons.IH [of y] Cons.prems show ?thesis by (auto split: if_splits)
  qed
qed

lemma first_min_exists: "t \<noteq> [] \<Longrightarrow> \<exists>x. first_min k t = Some x"
  using first_min_None [of k t] by blast

text \<open>Among the rows with the minimal key, the one with the smallest rowid is taken.\<close>

lemma first_min_earliest:
  "first_min k t = Some x \<Longrightarrow>
   \<exists>us vs. t = us @ x # vs \<and> (\<forall>u \<in> set us. k x < k u)"
proof (induction t arbitrary: x)
  case Nil
  then show ?case by simp
next
  case (Cons a t)
  show ?case
  proof (cases "first_min k t")
    case None
    with Cons.prems have "a # t = [] @ x # t" by simp
    then show ?thesis by fastforce
  next
    case (Some y)
    show ?thesis
    proof (cases "k a \<le> k y")
      case True
      with Some Cons.prems have "a # t = [] @ x # t" by simp
      then show ?thesis by fastforce
    next
      case False
      with Some Cons.prems have "x = y" by simp
      with Some Cons.IH obtain us vs where "t = us @ x # vs" "\<forall>u \<in> set us. k x < k u" by blast
      with False \<open>x = y\<close> have "a # t = (a # us) @ x # vs \<and> (\<forall>u \<in> set (a # us). k x < k u)"
        by simp
      then show ?thesis by blast
    qed
  qed
qed

lemma first_min_filter_Some:
  "first_min k (filter p t) = Some x \<Longrightarrow> x \<in> set t \<and> p x"
  using first_min_Some [of k "filter p t" x] by auto

lemma first_min_filter_None: "first_min k (filter p t) = None \<longleftrightarrow> (\<forall>r \<in> set t. \<not> p r)"
  by (simp add: filter_empty_conv)

subsection \<open>Positions\<close>

lemma position_Some: "position p t = Some i \<Longrightarrow> i < length t \<and> p (t ! i) \<and> (\<forall>j < i. \<not> p (t ! j))"
proof (induction t arbitrary: i)
  case Nil
  then show ?case by simp
next
  case (Cons x t)
  show ?case
  proof (cases "p x")
    case True
    with Cons.prems show ?thesis by simp
  next
    case False
    with Cons.prems obtain i' where i': "position p t = Some i'" "i = Suc i'" by auto
    from Cons.IH [OF i'(1)] False i'(2) show ?thesis by (auto simp: less_Suc_eq_0_disj)
  qed
qed

lemma position_None: "position p t = None \<longleftrightarrow> (\<forall>r \<in> set t. \<not> p r)"
  by (induction t) auto

subsection \<open>Results of fallible operations\<close>

text \<open>
  A \<open>Result<T, E>\<close> is a sum, with \<open>Inl\<close> for \<open>Err\<close>. The database errors the code can
  meet on its own account: \<open>fetch_one\<close> of no row, a violated PRIMARY KEY, UNIQUE, NOT
  NULL or FOREIGN KEY constraint, and SUM leaving the i64 range. Failures of the disk are
  not modelled.
\<close>

datatype sql_error = RowNotFound | ConstraintViolation | IntegerOverflow

type_synonym 'a sql_result = "sql_error + 'a"

text \<open>The \<open>?\<close> operator.\<close>

definition and_then :: "'e + 'a \<Rightarrow> ('a \<Rightarrow> 'e + 'b) \<Rightarrow> 'e + 'b" where
  "and_then r k = (case r of Inl e \<Rightarrow> Inl e | Inr v \<Rightarrow> k v)"

lemma and_then_Inr: "and_then r k = Inr v \<longleftrightarrow> (\<exists>x. r = Inr x \<and> k x = Inr v)"
  by (cases r) (simp_all add: and_then_def)

lemma and_then_simps [simp]: "and_then (Inl e) k = Inl e" "and_then (Inr v) k = k v"
  by (simp_all add: and_then_def)

lemma filter_key_unique:
  "distinct (map f xs) \<Longrightarrow> x \<in> set xs \<Longrightarrow> filter (\<lambda>y. f y = f x) xs = [x]"
proof (induction xs)
  case (Cons z xs)
  show ?case
  proof (cases "z = x")
    case True
    with Cons.prems(1) have "filter (\<lambda>y. f y = f x) xs = []" by (auto simp: filter_empty_conv image_iff eq_commute)
    with True show ?thesis by simp
  next
    case False
    with Cons.prems have "x \<in> set xs" "f z \<noteq> f x" by auto
    with Cons show ?thesis by simp
  qed
qed simp

end
