(* ===== verification/Text.thy ===== *)
theory Text
  imports Prelude
begin

text \<open>
  The \<open>str\<close> operations of the Rust standard library the code uses. A \<^typ>\<open>string\<close> stands
  for the UTF-8 bytes of a Rust \<open>str\<close>: \<open>len\<close> is \<^term>\<open>length\<close>, slicing, searching and
  splitting at ASCII patterns are the list operations, and the operations that look at
  characters (\<open>trim\<close>, \<open>split_whitespace\<close>, \<open>is_control\<close>, \<open>chars().take(n)\<close>) recognise the
  multi-byte encodings of Unicode's White\_Space and Control characters. Letter case is
  Unicode's table; \<open>to_lowercase\<close> is a parameter of the definitions that use it.
\<close>

named_theorems text_simps \<open>evaluation of string operations on literals\<close>

subsection \<open>Whitespace\<close>

definition ws1 :: "char \<Rightarrow> bool" where
  "ws1 c \<longleftrightarrow> c \<in> set [CHR 0x09, CHR 0x0A, CHR 0x0B, CHR 0x0C, CHR 0x0D, CHR 0x20]"

text \<open>U+0085 and U+00A0.\<close>

definition ws2 :: "char \<Rightarrow> char \<Rightarrow> bool" where
  "ws2 a b \<longleftrightarrow> a = CHR 0xC2 \<and> (b = CHR 0x85 \<or> b = CHR 0xA0)"

text \<open>U+1680, U+2000 to U+200A, U+2028, U+2029, U+202F, U+205F and U+3000.\<close>

definition ws3 :: "char \<Rightarrow> char \<Rightarrow> char \<Rightarrow> bool" where
  "ws3 a b c \<longleftrightarrow>
     (a = CHR 0xE1 \<and> b = CHR 0x9A \<and> c = CHR 0x80)
   \<or> (a = CHR 0xE2 \<and> b = CHR 0x80 \<and>
        c \<in> set [CHR 0x80, CHR 0x81, CHR 0x82, CHR 0x83, CHR 0x84, CHR 0x85, CHR 0x86, CHR 0x87,
                  CHR 0x88, CHR 0x89, CHR 0x8A, CHR 0xA8, CHR 0xA9, CHR 0xAF])
   \<or> (a = CHR 0xE2 \<and> b = CHR 0x81 \<and> c = CHR 0x9F)
   \<or> (a = CHR 0xE3 \<and> b = CHR 0x80 \<and> c = CHR 0x80)"

text \<open>The number of bytes of the whitespace character a string starts (ends) with, or 0.\<close>

fun ws_len :: "string \<Rightarrow> nat" where
  "ws_len [] = 0"
| "ws_len [a] = (if ws1 a then 1 else 0)"
| "ws_len [a, b] = (if ws1 a then 1 else if ws2 a b then 2 else 0)"
| "ws_len (a # b # c # s) = (if ws1 a then 1 else if ws2 a b then 2 else if ws3 a b c then 3 else 0)"

fun ws_len_rev :: "string \<Rightarrow> nat" where
  "ws_len_rev [] = 0"
| "ws_len_rev [c] = (if ws1 c then 1 else 0)"
| "ws_len_rev [c, b] = (if ws1 c then 1 else if ws2 b c then 2 else 0)"
| "ws_len_rev (c # b # a # s) = (if ws1 c then 1 else if ws2 b c then 2 else if ws3 a b c then 3 else 0)"

lemma ws_len_le: "ws_len s \<le> length s"
  by (cases s rule: ws_len.cases) auto

lemma ws_len_rev_le: "ws_len_rev s \<le> length s"
  by (cases s rule: ws_len_rev.cases) auto

function trim_start :: "string \<Rightarrow> string" where
  "trim_start s = (if ws_len s = 0 then s else trim_start (drop (ws_len s) s))"
  by pat_completeness auto
termination
proof (relation "measure length")
  fix s :: string
  assume "ws_len s \<noteq> 0"
  then show "(drop (ws_len s) s, s) \<in> measure length"
    using ws_len_le [of s] by simp
qed simp

function trim_rev :: "string \<Rightarrow> string" where
  "trim_rev s = (if ws_len_rev s = 0 then s else trim_rev (drop (ws_len_rev s) s))"
  by pat_completeness auto
termination
proof (relation "measure length")
  fix s :: string
  assume "ws_len_rev s \<noteq> 0"
  then show "(drop (ws_len_rev s) s, s) \<in> measure length"
    using ws_len_rev_le [of s] by simp
qed simp

declare trim_start.simps [simp del] trim_rev.simps [simp del]

definition trim_end :: "string \<Rightarrow> string" where
  "trim_end s = rev (trim_rev (rev s))"

definition trim :: "string \<Rightarrow> string" where
  "trim s = trim_end (trim_start s)"

lemma trim_start_id: "ws_len s = 0 \<Longrightarrow> trim_start s = s"
  by (subst trim_start.simps) simp

lemma trim_end_id: "ws_len_rev (rev s) = 0 \<Longrightarrow> trim_end s = s"
  unfolding trim_end_def by (subst trim_rev.simps) simp

lemma trim_id: "ws_len s = 0 \<Longrightarrow> ws_len_rev (rev s) = 0 \<Longrightarrow> trim s = s"
  by (simp add: trim_def trim_start_id trim_end_id)

lemma ws_len_trim_start: "ws_len (trim_start s) = 0"
proof (induction s rule: trim_start.induct)
  case (1 s)
  then show ?case by (cases "ws_len s = 0") (simp_all add: trim_start.simps [of s])
qed

lemma ws_len_rev_trim_rev: "ws_len_rev (trim_rev s) = 0"
proof (induction s rule: trim_rev.induct)
  case (1 s)
  then show ?case by (cases "ws_len_rev s = 0") (simp_all add: trim_rev.simps [of s])
qed

lemma trim_rev_suffix: "\<exists>p. s = p @ trim_rev s"
proof (induction s rule: trim_rev.induct)
  case (1 s)
  show ?case
  proof (cases "ws_len_rev s = 0")
    case True
    then have "s = [] @ trim_rev s" by (simp add: trim_rev.simps [of s])
    then show ?thesis by blast
  next
    case False
    with 1 obtain p where "drop (ws_len_rev s) s = p @ trim_rev (drop (ws_len_rev s) s)" by blast
    moreover have "trim_rev s = trim_rev (drop (ws_len_rev s) s)"
      using False by (simp add: trim_rev.simps [of s])
    ultimately have "drop (ws_len_rev s) s = p @ trim_rev s" by simp
    then have "s = (take (ws_len_rev s) s @ p) @ trim_rev s"
      by (metis append.assoc append_take_drop_id)
    then show ?thesis by blast
  qed
qed

lemma trim_end_prefix: "\<exists>p. s = trim_end s @ p"
proof -
  obtain p where "rev s = p @ trim_rev (rev s)" using trim_rev_suffix by blast
  then have "s = rev (trim_rev (rev s)) @ rev p" by (metis rev_append rev_rev_ident)
  then show ?thesis unfolding trim_end_def by blast
qed

lemma length_trim_end: "length (trim_end s) \<le> length s"
  using trim_end_prefix [of s] by (metis length_append le_add1)

lemma length_trim_start: "length (trim_start s) \<le> length s"
proof (induction s rule: trim_start.induct)
  case (1 s)
  then show ?case by (cases "ws_len s = 0") (simp_all add: trim_start.simps [of s])
qed

lemma length_trim: "length (trim s) \<le> length s"
  unfolding trim_def using length_trim_end length_trim_start order_trans by blast

lemma ws2_high: "ws2 a b \<Longrightarrow> 128 \<le> (of_char a :: nat) \<and> 128 \<le> (of_char b :: nat)"
  unfolding ws2_def by (elim conjE disjE) simp_all

lemma ws3_high: "ws3 a b c \<Longrightarrow> 128 \<le> (of_char a :: nat) \<and> 128 \<le> (of_char c :: nat)"
  unfolding ws3_def list.set insert_iff empty_iff
  by (elim conjE disjE) simp_all

lemma ws_len_ascii:
  assumes "of_char c < (128 :: nat)" "\<not> ws1 c"
  shows "ws_len (c # s) = 0" "ws_len_rev (c # s) = 0"
proof -
  have "\<not> ws2 c b" "\<not> ws2 b c" "\<not> ws3 c b a" "\<not> ws3 a b c" for a b
    using assms(1) ws2_high [of c b] ws2_high [of b c] ws3_high [of c b a] ws3_high [of a b c] by auto
  then show "ws_len (c # s) = 0" "ws_len_rev (c # s) = 0"
    using assms(2) by (cases s; cases "tl s"; simp)+
qed

lemma ws_len_rev_snoc:
  assumes "of_char c < (128 :: nat)" "\<not> ws1 c"
  shows "ws_len_rev (t @ [c]) = ws_len_rev t"
proof -
  have "\<not> ws2 c b" "\<not> ws3 c b a" for a b
    using assms(1) ws2_high [of c b] ws3_high [of c b a] by auto
  then show ?thesis using assms(2) by (cases t rule: ws_len_rev.cases) simp_all
qed

lemma trim_rev_snoc:
  assumes "of_char c < (128 :: nat)" "\<not> ws1 c"
  shows "trim_rev (t @ [c]) = trim_rev t @ [c]"
proof (induction t rule: trim_rev.induct)
  case (1 t)
  show ?case
  proof (cases "ws_len_rev t = 0")
    case True
    then show ?thesis
      using ws_len_rev_snoc [OF assms, of t] by (simp add: trim_rev.simps [of "t @ [c]"] trim_rev.simps [of t])
  next
    case False
    then have "trim_rev (t @ [c]) = trim_rev (drop (ws_len_rev t) t @ [c])"
      using ws_len_rev_snoc [OF assms, of t] ws_len_rev_le [of t] by (simp add: trim_rev.simps [of "t @ [c]"])
    also have "\<dots> = trim_rev t @ [c]" using 1 False by (simp add: trim_rev.simps [of t])
    finally show ?thesis .
  qed
qed

text \<open>A string that starts with a visible ASCII character keeps it.\<close>

lemma trim_end_Cons:
  "of_char c < (128 :: nat) \<Longrightarrow> \<not> ws1 c \<Longrightarrow> trim_end (c # s) = c # trim_end s"
  by (simp add: trim_end_def trim_rev_snoc)

lemma trim_Cons:
  "of_char c < (128 :: nat) \<Longrightarrow> \<not> ws1 c \<Longrightarrow> trim (c # s) = c # trim_end s"
  by (simp add: trim_def trim_start_id ws_len_ascii trim_end_Cons)

lemma trim_start_same: "length (trim_start s) = length s \<Longrightarrow> trim_start s = s"
  using length_trim_start [of "drop (ws_len s) s"] ws_len_le [of s]
  by (cases "ws_len s = 0") (simp_all add: trim_start.simps [of s])

lemma trim_fixed: "trim s = s \<Longrightarrow> trim_start s = s \<and> trim_end s = s"
  unfolding trim_def
  by (metis le_antisym length_trim_end length_trim_start trim_start_same)

lemma trim_end_last:
  assumes "trim_end s = s" "s \<noteq> []"
  shows "\<not> ws1 (last s)"
proof -
  obtain t c where "s = t @ [c]" using assms(2) by (metis rev_exhaust)
  moreover have "ws_len_rev (rev s) = 0" using assms(1) ws_len_rev_trim_rev [of "rev s"]
    by (metis rev_rev_ident trim_end_def)
  ultimately show ?thesis by (cases "rev t" rule: ws_len_rev.cases) (auto split: if_splits)
qed

lemma trim_solid:
  assumes "list_all (\<lambda>c. of_char c < (128 :: nat) \<and> \<not> ws1 c) k" "k \<noteq> []"
  shows "trim (k @ s) = k @ trim_end s"
proof -
  have "trim_end (u @ s) = u @ trim_end s"
    if "list_all (\<lambda>c. of_char c < (128 :: nat) \<and> \<not> ws1 c) u" for u
    using that by (induction u) (simp_all add: trim_end_Cons)
  with assms show ?thesis by (cases k) (simp_all add: trim_Cons)
qed

subsection \<open>Searching and splitting\<close>

definition starts_with :: "string \<Rightarrow> string \<Rightarrow> bool" where
  "starts_with pat s \<longleftrightarrow> take (length pat) s = pat"

lemma starts_with_append [simp]: "starts_with pat (pat @ s)"
  by (simp add: starts_with_def)

lemma starts_with_iff: "starts_with pat s \<longleftrightarrow> (\<exists>t. s = pat @ t)"
  by (auto simp: starts_with_def) (metis append_take_drop_id)

definition ends_with :: "string \<Rightarrow> string \<Rightarrow> bool" where
  "ends_with pat s \<longleftrightarrow> starts_with (rev pat) (rev s)"

lemma ends_with_iff: "ends_with pat s \<longleftrightarrow> (\<exists>t. s = t @ pat)"
  unfolding ends_with_def starts_with_iff by (metis rev_append rev_rev_ident)

text \<open>\<open>str::find\<close>: the byte offset of the first occurrence.\<close>

fun find_sub :: "string \<Rightarrow> string \<Rightarrow> nat option" where
  "find_sub pat [] = (if pat = [] then Some 0 else None)"
| "find_sub pat (c # s) =
     (if starts_with pat (c # s) then Some 0 else map_option Suc (find_sub pat s))"

lemma find_sub_Some:
  "find_sub pat s = Some i \<Longrightarrow>
     i \<le> length s \<and> starts_with pat (drop i s) \<and> (\<forall>j < i. \<not> starts_with pat (drop j s))"
proof (induction s arbitrary: i)
  case Nil
  then show ?case by (auto simp: starts_with_def split: if_splits)
next
  case (Cons c s)
  show ?case
  proof (cases "starts_with pat (c # s)")
    case True
    with Cons.prems show ?thesis by simp
  next
    case False
    with Cons.prems obtain k where k: "find_sub pat s = Some k" "i = Suc k" by auto
    from Cons.IH [OF k(1)] False k(2) show ?thesis
      by (auto simp: less_Suc_eq_0_disj)
  qed
qed

lemma find_sub_None: "find_sub pat s = None \<longleftrightarrow> (\<forall>j \<le> length s. \<not> starts_with pat (drop j s))"
proof (induction s)
  case Nil
  then show ?case by (auto simp: starts_with_def)
next
  case (Cons c s)
  have "(\<forall>j \<le> length (c # s). \<not> starts_with pat (drop j (c # s))) \<longleftrightarrow>
        \<not> starts_with pat (c # s) \<and> (\<forall>j \<le> length s. \<not> starts_with pat (drop j s))"
    by (metis (no_types, lifting) Suc_le_mono drop0 drop_Suc_Cons length_Cons not0_implies_Suc zero_le)
  with Cons.IH show ?case by simp
qed

lemma find_sub_skip:
  assumes "\<And>j. j < length u \<Longrightarrow> \<not> starts_with pat (drop j (u @ s))"
  shows "find_sub pat (u @ s) = map_option (\<lambda>i. length u + i) (find_sub pat s)"
  using assms
proof (induction u)
  case Nil
  then show ?case by (cases "find_sub pat s") auto
next
  case (Cons c u)
  from Cons.prems [of 0] have hd: "\<not> starts_with pat (c # u @ s)" by simp
  have "find_sub pat (u @ s) = map_option (\<lambda>i. length u + i) (find_sub pat s)"
  proof (rule Cons.IH)
    fix j assume "j < length u"
    with Cons.prems [of "Suc j"] show "\<not> starts_with pat (drop j (u @ s))" by simp
  qed
  with hd show ?case by (cases "find_sub pat s") auto
qed

lemma find_sub_char: "c \<notin> set k \<Longrightarrow> find_sub [c] (k @ c # s) = Some (length k)"
  by (induction k) (auto simp: starts_with_def)

definition contains :: "string \<Rightarrow> string \<Rightarrow> bool" where
  "contains pat s \<longleftrightarrow> find_sub pat s \<noteq> None"

text \<open>\<open>str::split\<close> at one ASCII character, and \<open>str::split_once\<close>.\<close>

fun split_on :: "char \<Rightarrow> string \<Rightarrow> string list" where
  "split_on d [] = [[]]"
| "split_on d (c # s) =
     (if c = d then [] # split_on d s
      else (case split_on d s of [] \<Rightarrow> [[c]] | w # ws \<Rightarrow> (c # w) # ws))"

definition split_once :: "string \<Rightarrow> string \<Rightarrow> (string \<times> string) option" where
  "split_once pat s =
     (case find_sub pat s of
        None \<Rightarrow> None
      | Some i \<Rightarrow> Some (take i s, drop (i + length pat) s))"

lemma split_on_nonempty: "split_on d s \<noteq> []"
  by (induction s) (auto split: list.splits)

lemma split_on_no_delim: "w \<in> set (split_on d s) \<Longrightarrow> d \<notin> set w"
proof (induction s arbitrary: w)
  case Nil
  then show ?case by simp
next
  case (Cons c s)
  show ?case
  proof (cases "c = d")
    case True
    with Cons show ?thesis by auto
  next
    case False
    obtain v vs where vs: "split_on d s = v # vs" using split_on_nonempty by (metis list.exhaust)
    with Cons.prems False have "w = c # v \<or> w \<in> set vs" by simp
    then show ?thesis using Cons.IH [of v] Cons.IH [of w] vs False by auto
  qed
qed

lemma split_on_free: "d \<notin> set w \<Longrightarrow> split_on d w = [w]"
  by (induction w) auto

lemma split_on_append: "d \<notin> set w \<Longrightarrow> split_on d (w @ d # s) = w # split_on d s"
  by (induction w) auto

definition trim_end_matches :: "char \<Rightarrow> string \<Rightarrow> string" where
  "trim_end_matches c s = rev (dropWhile (\<lambda>x. x = c) (rev s))"

lemma trim_end_matches_prefix: "\<exists>n. s = trim_end_matches c s @ replicate n c"
proof (induction s rule: rev_induct)
  case Nil
  then show ?case by (simp add: trim_end_matches_def)
next
  case (snoc x s)
  show ?case
  proof (cases "x = c")
    case True
    then have "trim_end_matches c (s @ [x]) = trim_end_matches c s"
      by (simp add: trim_end_matches_def)
    with snoc obtain n where "s @ [x] = (trim_end_matches c (s @ [x]) @ replicate n c) @ [c]"
      using True by auto
    then have "s @ [x] = trim_end_matches c (s @ [x]) @ replicate (Suc n) c"
      by (metis append.assoc replicate_append_same replicate_Suc)
    then show ?thesis by blast
  next
    case False
    then have "s @ [x] = trim_end_matches c (s @ [x]) @ replicate 0 c"
      by (simp add: trim_end_matches_def)
    then show ?thesis by blast
  qed
qed

lemma trim_end_matches_last: "trim_end_matches c s \<noteq> [] \<Longrightarrow> last (trim_end_matches c s) \<noteq> c"
  unfolding trim_end_matches_def
  by (metis (mono_tags, lifting) hd_dropWhile last_rev rev_is_Nil_conv)

definition join :: "string \<Rightarrow> string list \<Rightarrow> string" where
  "join sep ws = concat (case ws of [] \<Rightarrow> [] | w # rest \<Rightarrow> w # map (\<lambda>x. sep @ x) rest)"

lemma split_on_join:
  "ws \<noteq> [] \<Longrightarrow> (\<forall>w \<in> set ws. d \<notin> set w) \<Longrightarrow> split_on d (join [d] ws) = ws"
proof (induction ws)
  case Nil
  then show ?case by simp
next
  case (Cons w ws)
  show ?case
  proof (cases ws)
    case Nil
    with Cons.prems show ?thesis by (simp add: join_def split_on_free)
  next
    case (Cons v vs)
    then have "join [d] (w # ws) = w @ d # join [d] ws" by (simp add: join_def)
    with Cons Cons.prems Cons.IH show ?thesis by (simp add: split_on_append)
  qed
qed

subsection \<open>Numbers\<close>

definition digit_char :: "nat \<Rightarrow> char" where
  "digit_char d = char_of (48 + d)"

definition digit_val :: "char \<Rightarrow> nat option" where
  "digit_val c = (let n = of_char c in if 48 \<le> n \<and> n \<le> 57 then Some (n - 48) else None)"

lemma digit_val_char [simp]: "d < 10 \<Longrightarrow> digit_val (digit_char d) = Some d"
  by (simp add: digit_val_def digit_char_def Let_def)

lemma digit_char_inj: "a < 10 \<Longrightarrow> b < 10 \<Longrightarrow> digit_char a = digit_char b \<longleftrightarrow> a = b"
  by (metis digit_val_char option.inject)

text \<open>\<open>to_string\<close> of an unsigned integer.\<close>

fun show_nat :: "nat \<Rightarrow> string" where
  "show_nat n = (if n < 10 then [digit_char n] else show_nat (n div 10) @ [digit_char (n mod 10)])"

declare show_nat.simps [simp del]

text \<open>The value of a decimal digit string, most significant digit first.\<close>

fun digits_val :: "nat \<Rightarrow> string \<Rightarrow> nat option" where
  "digits_val acc [] = Some acc"
| "digits_val acc (c # s) =
     (case digit_val c of None \<Rightarrow> None | Some d \<Rightarrow> digits_val (10 * acc + d) s)"

lemma digits_val_append:
  "digits_val acc (s @ t) = (case digits_val acc s of None \<Rightarrow> None | Some v \<Rightarrow> digits_val v t)"
  by (induction s arbitrary: acc) (auto split: option.splits)

lemma digits_val_show_nat: "digits_val 0 (show_nat n) = Some n"
proof (induction n rule: show_nat.induct)
  case (1 n)
  show ?case
  proof (cases "n < 10")
    case True
    then show ?thesis by (subst show_nat.simps) simp
  next
    case False
    with 1 show ?thesis by (subst show_nat.simps) (simp add: digits_val_append)
  qed
qed

lemma show_nat_nonempty: "show_nat n \<noteq> []"
  by (subst show_nat.simps) simp

lemma show_nat_digits: "c \<in> set (show_nat n) \<Longrightarrow> \<exists>d < 10. c = digit_char d"
proof (induction n rule: show_nat.induct)
  case (1 n)
  show ?case
  proof (cases "n < 10")
    case True
    with "1.prems" show ?thesis by (subst (asm) show_nat.simps) auto
  next
    case False
    with "1.prems" have "c \<in> set (show_nat (n div 10)) \<or> c = digit_char (n mod 10)"
      by (subst (asm) show_nat.simps) auto
    with "1.IH" [OF False] show ?thesis by (metis mod_less_divisor zero_less_numeral)
  qed
qed

lemma show_nat_inj: "show_nat m = show_nat n \<longleftrightarrow> m = n"
  by (metis digits_val_show_nat option.inject)

text \<open>\<open>i64::from_str\<close> and \<open>u16::from_str\<close>: an optional sign, at least one digit, in range.\<close>

definition parse_unsigned :: "string \<Rightarrow> nat option" where
  "parse_unsigned s = (if s = [] then None else digits_val 0 s)"

definition parse_i64_str :: "string \<Rightarrow> int option" where
  "parse_i64_str s =
     (case s of
        [] \<Rightarrow> None
      | c # rest \<Rightarrow>
          (if c = CHR ''-'' then
             (case parse_unsigned rest of
                None \<Rightarrow> None
              | Some n \<Rightarrow> if int n \<le> 2 ^ 63 then Some (- int n) else None)
           else
             (case parse_unsigned (if c = CHR ''+'' then rest else s) of
                None \<Rightarrow> None
              | Some n \<Rightarrow> if int n < 2 ^ 63 then Some (int n) else None)))"

definition parse_u16_str :: "string \<Rightarrow> nat option" where
  "parse_u16_str s =
     (case parse_unsigned (case s of c # rest \<Rightarrow> (if c = CHR ''+'' then rest else s) | [] \<Rightarrow> []) of
        None \<Rightarrow> None
      | Some n \<Rightarrow> if n < 2 ^ 16 then Some n else None)"

lemma parse_i64_str_range: "parse_i64_str s = Some i \<Longrightarrow> - (2 ^ 63) \<le> i \<and> i < 2 ^ 63"
  by (auto simp: parse_i64_str_def split: list.splits if_splits option.splits)

text \<open>Two lowercase (or uppercase) hex digits of a byte.\<close>

definition hex_digit :: "nat \<Rightarrow> char" where
  "hex_digit d = (if d < 10 then char_of (48 + d) else char_of (87 + d))"

definition hex_digit_upper :: "nat \<Rightarrow> char" where
  "hex_digit_upper d = (if d < 10 then char_of (48 + d) else char_of (55 + d))"

definition hex_byte :: "u8 \<Rightarrow> string" where
  "hex_byte b = [hex_digit (unat b div 16), hex_digit (unat b mod 16)]"

text \<open>\<open>hex::encode\<close>.\<close>

definition hex_encode :: "u8 list \<Rightarrow> string" where
  "hex_encode bs = concat (map hex_byte bs)"

lemma length_hex_encode: "length (hex_encode bs) = 2 * length bs"
  by (induction bs) (simp_all add: hex_encode_def hex_byte_def)

definition hex_val :: "char \<Rightarrow> nat" where
  "hex_val c = (let n = of_char c in if n < 58 then n - 48 else n - 87)"

lemma hex_val_digit: "d < 16 \<Longrightarrow> hex_val (hex_digit d) = d"
  by (auto simp: hex_val_def hex_digit_def Let_def take_bit_eq_mod)

lemma hex_digit_inj: "a < 16 \<Longrightarrow> b < 16 \<Longrightarrow> hex_digit a = hex_digit b \<longleftrightarrow> a = b"
  by (metis hex_val_digit)

lemma hex_encode_inj: "hex_encode as = hex_encode bs \<Longrightarrow> as = bs"
proof (induction as arbitrary: bs)
  case Nil
  then show ?case by (cases bs) (auto simp: hex_encode_def hex_byte_def)
next
  case (Cons a as)
  then obtain b bs' where bs: "bs = b # bs'" by (cases bs) (auto simp: hex_encode_def hex_byte_def)
  have lt: "unat x div 16 < 16 \<and> unat x mod 16 < 16" for x :: u8
  proof -
    have "unat x < 2 ^ LENGTH(8)" by (rule unsigned_less)
    then show ?thesis by auto
  qed
  from Cons.prems bs have "hex_digit (unat a div 16) = hex_digit (unat b div 16)"
    and "hex_digit (unat a mod 16) = hex_digit (unat b mod 16)" and t: "hex_encode as = hex_encode bs'"
    by (simp_all add: hex_encode_def hex_byte_def)
  then have "unat a div 16 = unat b div 16" "unat a mod 16 = unat b mod 16"
    using hex_digit_inj lt by blast+
  then have "unat a = unat b" by (metis div_mult_mod_eq)
  then have "a = b" by (rule unsigned_word_eqI)
  then show ?case using Cons.IH [OF t] bs by simp
qed

end
