(* ===== verification/Derive.thy ===== *)
theory Derive
  imports Text
begin

text \<open>
  \<open>crates/gp-core/src/derive.rs\<close>: child identities of the server's Nostr secret.
  SHA-256 (\<open>sha\<close>), the test that 32 bytes are a valid secp256k1 scalar (\<open>valid\<close>) and the
  x-only public key (\<open>xonly\<close>) are arguments: they are the \<open>sha2\<close> and \<open>secp256k1\<close> crates.
\<close>

type_synonym bytes = "u8 list"

text \<open>\<open>as_bytes\<close> and \<open>to_be_bytes\<close>.\<close>

definition bytes_of :: "string \<Rightarrow> bytes" where
  "bytes_of s = map (\<lambda>c. word_of_nat (of_char c)) s"

fun be_bytes :: "nat \<Rightarrow> nat \<Rightarrow> bytes" where
  "be_bytes 0 v = []"
| "be_bytes (Suc n) v = be_bytes n (v div 256) @ [word_of_nat (v mod 256)]"

subsection \<open>The rejection-sampling loop\<close>

text \<open>
  \<open>for counter in 0u32..\<close>: the counter is appended from the second attempt on. \<open>None\<close> is
  the exhausted counter (the \<open>unreachable!\<close> of the source).
\<close>

function child_secret_from ::
  "(bytes \<Rightarrow> bytes) \<Rightarrow> (bytes \<Rightarrow> bool) \<Rightarrow> bytes \<Rightarrow> bytes list \<Rightarrow> nat \<Rightarrow> bytes option" where
  "child_secret_from sha valid master_sk context counter =
     (if 2 ^ 32 \<le> counter then None
      else
        let digest = sha (master_sk @ concat context @ (if 0 < counter then be_bytes 4 counter else []))
        in if valid digest then Some digest
           else child_secret_from sha valid master_sk context (Suc counter))"
  by pat_completeness auto
termination
  by (relation "measure (\<lambda>(_, _, _, _, c). 2 ^ 32 - c)") auto

declare child_secret_from.simps [simp del]

definition child_secret :: "(bytes \<Rightarrow> bytes) \<Rightarrow> (bytes \<Rightarrow> bool) \<Rightarrow> bytes \<Rightarrow> bytes list \<Rightarrow> bytes option" where
  "child_secret sha valid master_sk context = child_secret_from sha valid master_sk context 0"

definition child_pubkey_hex ::
  "(bytes \<Rightarrow> bytes) \<Rightarrow> (bytes \<Rightarrow> bool) \<Rightarrow> (bytes \<Rightarrow> bytes) \<Rightarrow> bytes \<Rightarrow> bytes list \<Rightarrow> string option" where
  "child_pubkey_hex sha valid xonly master_sk context =
     map_option (\<lambda>sk. hex_encode (xonly sk)) (child_secret sha valid master_sk context)"

subsection \<open>Contexts\<close>

definition invoice_context :: "string \<Rightarrow> bytes list" where
  "invoice_context invoice_id = [bytes_of invoice_id]"

definition endpub_context :: "string \<Rightarrow> int \<Rightarrow> bytes list" where
  "endpub_context uid ep = [bytes_of uid, be_bytes 8 (unat (as_u64 ep))]"

definition invoice_secret where
  "invoice_secret sha valid master_sk invoice_id = child_secret sha valid master_sk (invoice_context invoice_id)"

definition invoice_pubkey_hex where
  "invoice_pubkey_hex sha valid xonly master_sk invoice_id =
     child_pubkey_hex sha valid xonly master_sk (invoice_context invoice_id)"

definition endpub_secret where
  "endpub_secret sha valid master_sk uid ep = child_secret sha valid master_sk (endpub_context uid ep)"

definition endpub_pubkey_hex where
  "endpub_pubkey_hex sha valid xonly master_sk uid ep =
     child_pubkey_hex sha valid xonly master_sk (endpub_context uid ep)"

subsection \<open>Big-endian bytes are a fixed-width encoding\<close>

lemma length_be_bytes [simp]: "length (be_bytes n v) = n"
  by (induction n arbitrary: v) auto

lemma byte_of_nat_inj:
  assumes "a < 256" "b < 256" "(word_of_nat a :: u8) = word_of_nat b"
  shows "a = b"
proof -
  have small: "unat (word_of_nat n :: u8) = n" if "n < 256" for n
  proof -
    have "unat (word_of_nat n :: u8) = n mod 2 ^ LENGTH(8)" by (rule unat_of_nat)
    also have "\<dots> = n" using that by simp
    finally show ?thesis .
  qed
  from assms(3) have "unat (word_of_nat a :: u8) = unat (word_of_nat b :: u8)" by (rule arg_cong)
  with small assms(1,2) show ?thesis by metis
qed

lemma be_bytes_inj: "v < 256 ^ n \<Longrightarrow> w < 256 ^ n \<Longrightarrow> be_bytes n v = be_bytes n w \<Longrightarrow> v = w"
proof (induction n arbitrary: v w)
  case 0
  then show ?case by simp
next
  case (Suc n)
  from Suc.prems have "be_bytes n (v div 256) = be_bytes n (w div 256)"
    and "(word_of_nat (v mod 256) :: u8) = word_of_nat (w mod 256)" by simp_all
  moreover have "v div 256 < 256 ^ n" "w div 256 < 256 ^ n"
    using Suc.prems by (simp_all add: less_mult_imp_div_less mult.commute)
  ultimately have "v div 256 = w div 256" "v mod 256 = w mod 256"
    using Suc.IH byte_of_nat_inj [of "v mod 256" "w mod 256"] by auto
  then show ?case by (metis div_mult_mod_eq)
qed

lemma bytes_of_inj: "bytes_of s = bytes_of t \<longleftrightarrow> s = t"
proof -
  have "inj (\<lambda>c. word_of_nat (of_char c) :: u8)"
    by (rule injI) (metis byte_of_nat_inj of_char_eq_iff nat_of_char_less_256)
  then show ?thesis unfolding bytes_of_def by (simp add: inj_map_eq_map)
qed

lemma hd_be_bytes: "v < 256 ^ n \<Longrightarrow> hd (be_bytes (Suc n) v) = 0"
proof (induction n arbitrary: v)
  case 0
  then show ?case by simp
next
  case (Suc n)
  have "v div 256 < 256 ^ n" using Suc.prems by (simp add: less_mult_imp_div_less mult.commute)
  from Suc.IH [OF this] show ?case
    by (metis append_is_Nil_conv be_bytes.simps(2) hd_append list.distinct(1))
qed

lemma as_u64_inj:
  assumes "- (2 ^ 63) \<le> a" "a < 2 ^ 63" "- (2 ^ 63) \<le> b" "b < 2 ^ 63" "as_u64 a = as_u64 b"
  shows "a = b"
proof -
  have inv: "as_i64 (as_u64 x) = x" if "- (2 ^ 63) \<le> x" "x < 2 ^ 63" for x
    using that signed_take_bit_int_eq_self [of 63 x]
    by (simp add: as_i64_def as_u64_def sint_sbintrunc')
  from assms(5) have "as_i64 (as_u64 a) = as_i64 (as_u64 b)" by (rule arg_cong)
  with inv assms(1-4) show ?thesis by metis
qed

lemma endpub_context_inj:
  assumes "- (2 ^ 63) \<le> e" "e < 2 ^ 63" "- (2 ^ 63) \<le> e'" "e' < 2 ^ 63"
    and eq: "concat (endpub_context u e) = concat (endpub_context u' e')"
  shows "u = u' \<and> e = e'"
proof -
  let ?v = "unat (as_u64 e)" and ?w = "unat (as_u64 e')"
  have lt: "?v < 256 ^ 8" "?w < 256 ^ 8"
    using unsigned_less [of "as_u64 e"] unsigned_less [of "as_u64 e'"] by simp_all
  from eq have "bytes_of u @ be_bytes 8 ?v = bytes_of u' @ be_bytes 8 ?w"
    by (simp add: endpub_context_def)
  then have "bytes_of u = bytes_of u'" "be_bytes 8 ?v = be_bytes 8 ?w"
    by (simp_all add: append_eq_append_conv)
  then have "u = u'" "?v = ?w" using bytes_of_inj be_bytes_inj [OF lt] by simp_all
  then show ?thesis using as_u64_inj [OF assms(1-4)] by (metis unsigned_word_eqI)
qed

lemma invoice_context_inj: "concat (invoice_context a) = concat (invoice_context b) \<Longrightarrow> a = b"
  by (simp add: invoice_context_def bytes_of_inj)

text \<open>
  An invoice id is hex text, which has no NUL byte; the first byte of an epoch below
  \<open>2 ^ 56\<close> is NUL. So no invoice context is an endpub context.
\<close>

lemma eight_Suc: "be_bytes 8 v = be_bytes (Suc 7) v"
  by (simp only: eval_nat_numeral BitM.simps)

lemma invoice_endpub_disjoint:
  assumes nul: "CHR 0x00 \<notin> set iid" and "0 \<le> e" "e < 2 ^ 56"
  shows "concat (invoice_context iid) \<noteq> concat (endpub_context u e)"
proof
  assume eq: "concat (invoice_context iid) = concat (endpub_context u e)"
  have "unat (as_u64 e) = nat e"
    using assms(2,3) by (simp add: as_u64_def unat_eq_nat_uint uint_word_of_int)
  moreover have "nat e < 256 ^ 7"
  proof -
    have "(256 :: nat) ^ 7 = 2 ^ 56" by simp
    moreover have "nat e < 2 ^ 56" using assms(2,3) by (simp add: nat_less_iff)
    ultimately show ?thesis by simp
  qed
  ultimately have "hd (be_bytes 8 (unat (as_u64 e))) = 0"
    using hd_be_bytes [of "nat e" 7] by (simp only: eight_Suc)
  moreover have "be_bytes 8 (unat (as_u64 e)) \<noteq> []"
    by (metis length_be_bytes list.size(3) zero_neq_numeral)
  ultimately have "0 \<in> set (be_bytes 8 (unat (as_u64 e)))" by (metis hd_in_set)
  with eq have "(0 :: u8) \<in> set (bytes_of iid)"
    by (simp add: invoice_context_def endpub_context_def)
  then obtain c where c: "c \<in> set iid" "(word_of_nat (of_char c) :: u8) = word_of_nat 0"
    by (auto simp: bytes_of_def)
  then have "(of_char c :: nat) = 0" by (intro byte_of_nat_inj) auto
  moreover have "(of_char (CHR 0x00) :: nat) = 0" by simp
  ultimately have "c = CHR 0x00" by (metis of_char_eq_iff)
  with c(1) nul show False by simp
qed

subsection \<open>The loop's result\<close>

lemma child_secret_from_valid:
  "child_secret_from sha valid m ctx c = Some d \<Longrightarrow> valid d"
proof (induction sha valid m ctx c rule: child_secret_from.induct)
  case (1 sha valid m ctx c)
  then show ?case
    by (subst (asm) (2) child_secret_from.simps) (auto simp: Let_def split: if_splits)
qed

lemma child_secret_first:
  assumes "valid (sha (m @ concat ctx))"
  shows "child_secret sha valid m ctx = Some (sha (m @ concat ctx))"
  using assms by (simp add: child_secret_def child_secret_from.simps [of _ _ _ _ 0])

text \<open>The loop returns as soon as some attempt gives a valid scalar.\<close>

definition attempt :: "(bytes \<Rightarrow> bytes) \<Rightarrow> bytes \<Rightarrow> bytes list \<Rightarrow> nat \<Rightarrow> bytes" where
  "attempt sha m ctx c = sha (m @ concat ctx @ (if 0 < c then be_bytes 4 c else []))"

lemma child_secret_from_returns:
  "c \<le> k \<Longrightarrow> k < 2 ^ 32 \<Longrightarrow> valid (attempt sha m ctx k) \<Longrightarrow>
   \<exists>d. child_secret_from sha valid m ctx c = Some d"
proof (induction sha valid m ctx c rule: child_secret_from.induct)
  case (1 sha valid m ctx c)
  show ?case
  proof (cases "valid (attempt sha m ctx c)")
    case True
    with "1.prems" show ?thesis
      by (subst child_secret_from.simps) (auto simp: Let_def attempt_def)
  next
    case False
    with "1.prems" have "Suc c \<le> k" by (metis le_neq_implies_less Suc_leI)
    with False "1.prems" "1.IH" have "\<exists>d. child_secret_from sha valid m ctx (Suc c) = Some d"
      by (auto simp: attempt_def)
    with False "1.prems" show ?thesis
      by (subst child_secret_from.simps) (auto simp: Let_def attempt_def)
  qed
qed

end
