(* ===== verification/Db.thy ===== *)
theory Db
  imports Text
begin

text \<open>
  The SQLite schema (\<open>migrations/*.sql\<close>) as the program's state: one record per table
  row, with the Rust row structs' fields, and the five tables as lists in rowid order.
  A nullable column is an \<open>option\<close>, a timestamp is the second it denotes, and the
  constraints the schema declares (PRIMARY KEY, UNIQUE index on the checkout token) are
  checked by the insert operations.
\<close>

subsection \<open>Rows\<close>

text \<open>\<open>gp_core::invoice::Invoice\<close>.\<close>

record invoice =
  inv_id :: string
  order_ref :: "string option"
  expected_amount :: "int option"
  expiry :: "int option"
  inv_status :: string
  inv_created_at :: int
  token :: "string option"
  memo :: "string option"
  recipient_pubkey :: "string option"
  fiat_amount :: "string option"
  fiat_currency :: "string option"
  match_mode :: "string option"
  paid_payment_id :: "string option"
  paid_at :: "int option"
  quote_rate :: "string option"
  quote_source :: "string option"
  inv_confirmed_at :: "int option"
  rail :: "string option"
  inv_slate_id :: "string option"
  slatepack :: "string option"

text \<open>A row of the payment table.\<close>

record payment =
  pay_id :: string
  pay_amount :: int
  payer :: "string option"
  pay_slate_id :: "string option"
  kernel :: "string option"
  proof_blob :: "string option"
  pay_status :: string
  confirmed_height :: "int option"
  pay_created_at :: int
  s2_armor :: "string option"
  pay_confirmed_at :: "int option"
  pay_invoice_id :: "string option"
  pay_user_id :: "string option"
  recipient :: "string option"
  confirmations :: int

text \<open>\<open>gp_core::endpub::User\<close> and \<open>Endpub\<close>.\<close>

record user =
  user_id :: string
  rotate_interval :: "int option"
  epoch :: int
  last_rotated_at :: int
  user_created_at :: int

record endpub =
  ep_user :: string
  ep_epoch :: int
  ep_pubkey :: string
  ep_created_at :: int

text \<open>A row of the webhook delivery queue; \<open>'b\<close> is the signed body.\<close>

record 'b delivery =
  del_id :: string
  del_payment_id :: "string option"
  event_type :: string
  del_url :: string
  del_body :: 'b
  attempts :: int
  delivered :: int
  next_attempt_at :: int
  last_error :: "string option"
  del_created_at :: int
  del_updated_at :: int

subsection \<open>The database\<close>

record 'b db =
  invoices :: "invoice list"
  payments :: "payment list"
  users :: "user list"
  endpubs :: "endpub list"
  deliveries :: "'b delivery list"

definition empty_db :: "'b db" where
  "empty_db = \<lparr>invoices = [], payments = [], users = [], endpubs = [], deliveries = []\<rparr>"

text \<open>The key constraints the schema declares.\<close>

definition db_keys :: "'b db \<Rightarrow> bool" where
  "db_keys d \<longleftrightarrow>
     distinct (map inv_id (invoices d)) \<and>
     distinct (map token (filter (\<lambda>i. token i \<noteq> None) (invoices d))) \<and>
     distinct (map pay_id (payments d)) \<and>
     distinct (map user_id (users d)) \<and>
     distinct (map (\<lambda>e. (ep_user e, ep_epoch e)) (endpubs d)) \<and>
     distinct (map del_id (deliveries d))"

lemma db_keys_empty: "db_keys empty_db"
  by (simp add: db_keys_def empty_db_def)

lemma db_keys_invoices: "db_keys d \<Longrightarrow> distinct (map inv_id (invoices d))"
  by (simp add: db_keys_def)

lemma db_keys_payments: "db_keys d \<Longrightarrow> distinct (map pay_id (payments d))"
  by (simp add: db_keys_def)

lemma db_keys_other_tables [row_simps]:
  "db_keys (d\<lparr>payments := ps\<rparr>) \<longleftrightarrow>
     db_keys (d\<lparr>payments := []\<rparr>) \<and> distinct (map pay_id ps)"
  by (auto simp: db_keys_def)

end
