(* ===== verification/Invoice.thy ===== *)
theory Invoice
  imports Db
begin

text \<open>
  \<open>crates/gp-core/src/invoice.rs\<close>: the invoice lifecycle. Every operation of the module
  is here with the SQL statement it runs; \<open>now\<close> is SQLite's clock at the statement,
  \<open>shift\<close> is \<open>strftime(.., 'now', '+n seconds')\<close>, which is NULL when the date leaves
  SQLite's range. Random ids and the derivation of a child key are arguments.
\<close>

subsection \<open>Status and matching mode\<close>

datatype invoice_status = Open | Paid | Confirmed | Expired

definition status_str :: "invoice_status \<Rightarrow> string" where
  "status_str s = (case s of Open \<Rightarrow> ''open'' | Paid \<Rightarrow> ''paid'' | Confirmed \<Rightarrow> ''confirmed''
                   | Expired \<Rightarrow> ''expired'')"

definition parse_status :: "string \<Rightarrow> invoice_status" where
  "parse_status s =
     (if s = ''paid'' then Paid else if s = ''confirmed'' then Confirmed
      else if s = ''expired'' then Expired else Open)"

lemma parse_status_str: "parse_status (status_str s) = s"
  by (cases s) (simp_all add: parse_status_def status_str_def)

text \<open>
  The lifecycle order: \<open>Open\<close> comes before everything, \<open>Paid\<close> before \<open>Confirmed\<close>, and
  \<open>Expired\<close> is a dead end beside them.
\<close>

instantiation invoice_status :: order
begin

definition less_eq_invoice_status :: "invoice_status \<Rightarrow> invoice_status \<Rightarrow> bool" where
  "less_eq_invoice_status a b \<longleftrightarrow> a = b \<or> a = Open \<or> (a = Paid \<and> b = Confirmed)"

definition less_invoice_status :: "invoice_status \<Rightarrow> invoice_status \<Rightarrow> bool" where
  "less_invoice_status a b \<longleftrightarrow> a \<noteq> b \<and> (a = Open \<or> (a = Paid \<and> b = Confirmed))"

instance
  by standard (auto simp: less_eq_invoice_status_def less_invoice_status_def)

end

lemmas status_order_defs = less_eq_invoice_status_def less_invoice_status_def

datatype match_mode_t = MemoMode | DerivedMode | AmountMode

definition mode_str :: "match_mode_t \<Rightarrow> string" where
  "mode_str m = (case m of MemoMode \<Rightarrow> ''memo'' | DerivedMode \<Rightarrow> ''derived'' | AmountMode \<Rightarrow> ''amount'')"

lemma mode_str_inj: "mode_str a = mode_str b \<longleftrightarrow> a = b"
  by (cases a; cases b) (simp_all add: mode_str_def)

text \<open>\<open>Invoice::effective_mode\<close>: the row's override, else the caller's default.\<close>

definition effective_mode :: "invoice \<Rightarrow> match_mode_t \<Rightarrow> match_mode_t" where
  "effective_mode i dflt =
     (case match_mode i of
        Some m \<Rightarrow> (if m = ''memo'' then MemoMode else if m = ''derived'' then DerivedMode
                   else if m = ''amount'' then AmountMode else dflt)
      | None \<Rightarrow> dflt)"

definition status_of :: "invoice \<Rightarrow> invoice_status" where
  "status_of i = parse_status (inv_status i)"

definition RAIL_GRIN1 :: string where
  "RAIL_GRIN1 = ''grin1''"

definition is_grin1 :: "invoice \<Rightarrow> bool" where
  "is_grin1 i \<longleftrightarrow> rail i = Some RAIL_GRIN1"

subsection \<open>Creation parameters\<close>

datatype amount_spec =
    Grin u64
  | Fiat string string
  | FiatQuoted (fq_amount: string) (fq_currency: string) (fq_nanogrin: u64) (fq_rate: string) (fq_source: string)

record new_invoice =
  ni_order_ref :: "string option"
  ni_amount :: amount_spec
  ni_memo :: "string option"
  ni_match_mode :: "match_mode_t option"
  ni_expiry_secs :: "int option"

definition amount_columns ::
  "amount_spec \<Rightarrow> int option \<times> string option \<times> string option \<times> string option \<times> string option" where
  "amount_columns a =
     (case a of
        Grin nano \<Rightarrow> (Some (as_i64 nano), None, None, None, None)
      | Fiat amt cur \<Rightarrow> (None, Some amt, Some cur, None, None)
      | FiatQuoted amt cur nano rate source \<Rightarrow>
          (Some (as_i64 nano), Some amt, Some cur, Some rate, Some source))"

subsection \<open>Reading, with lazy expiry\<close>

text \<open>\<open>status = 'open' AND expiry IS NOT NULL AND expiry <= now\<close>.\<close>

definition due_at :: "int \<Rightarrow> invoice \<Rightarrow> bool" where
  "due_at now i \<longleftrightarrow> inv_status i = ''open'' \<and> (case expiry i of None \<Rightarrow> False | Some e \<Rightarrow> e \<le> now)"

definition set_expired :: "invoice \<Rightarrow> invoice" where
  "set_expired i = i\<lparr>inv_status := ''expired''\<rparr>"

definition expire_if_due_id :: "int \<Rightarrow> string \<Rightarrow> 'b db \<Rightarrow> 'b db" where
  "expire_if_due_id now iid d =
     d\<lparr>invoices := update_where (\<lambda>i. inv_id i = iid \<and> due_at now i) set_expired (invoices d)\<rparr>"

definition get :: "int \<Rightarrow> string \<Rightarrow> 'b db \<Rightarrow> invoice option \<times> 'b db" where
  "get now iid d =
     (let d' = expire_if_due_id now iid d in (lookup_by inv_id iid (invoices d'), d'))"

definition get_by_token :: "int \<Rightarrow> string \<Rightarrow> 'b db \<Rightarrow> invoice option \<times> 'b db" where
  "get_by_token now tok d =
     (let d' = d\<lparr>invoices := update_where (\<lambda>i. token i = Some tok \<and> due_at now i) set_expired
                              (invoices d)\<rparr>
      in (lookup_by token (Some tok) (invoices d'), d'))"

definition expire_due :: "int \<Rightarrow> 'b db \<Rightarrow> nat \<times> 'b db" where
  "expire_due now d =
     (count_where (due_at now) (invoices d),
      d\<lparr>invoices := update_where (due_at now) set_expired (invoices d)\<rparr>)"

text \<open>\<open>list\<close>: newest first (\<open>ORDER BY created_at DESC LIMIT n\<close>), after the sweep.\<close>

definition list_invoices :: "int \<Rightarrow> int \<Rightarrow> 'b db \<Rightarrow> invoice list \<times> 'b db" where
  "list_invoices now limit d =
     (let d' = snd (expire_due now d)
      in (sql_limit limit (sort_key (\<lambda>i. - inv_created_at i) (invoices d')), d'))"

definition get_by_slate_id :: "string \<Rightarrow> 'b db \<Rightarrow> invoice option" where
  "get_by_slate_id sid d = lookup_by inv_slate_id (Some sid) (invoices d)"

subsection \<open>Creation\<close>

text \<open>
  \<open>rid\<close> and \<open>tok\<close> are the freshly drawn id and checkout token, \<open>child_pub\<close> is
  \<open>derive::invoice_pubkey_hex master_sk\<close>. The insert runs at \<open>now\<close>, the read that returns
  the row at \<open>now'\<close>.
\<close>

definition effective_new_mode :: "new_invoice \<Rightarrow> match_mode_t \<Rightarrow> match_mode_t" where
  "effective_new_mode p dflt = (case ni_match_mode p of None \<Rightarrow> dflt | Some m \<Rightarrow> m)"

definition new_row ::
  "(int \<Rightarrow> int \<Rightarrow> int option) \<Rightarrow> (string \<Rightarrow> string) \<Rightarrow> string \<Rightarrow> string \<Rightarrow> int
   \<Rightarrow> new_invoice \<Rightarrow> string \<Rightarrow> match_mode_t \<Rightarrow> invoice" where
  "new_row shift child_pub rid tok now p master_pub dflt =
     (let recipient_pk = (if effective_new_mode p dflt = DerivedMode then child_pub rid else master_pub);
          (amt, famt, fcur, qrate, qsource) = amount_columns (ni_amount p)
      in \<lparr>inv_id = rid, order_ref = ni_order_ref p, expected_amount = amt,
          expiry = (case ni_expiry_secs p of None \<Rightarrow> None | Some s \<Rightarrow> shift now s),
          inv_status = ''open'', inv_created_at = now, token = Some tok, memo = ni_memo p,
          recipient_pubkey = Some recipient_pk, fiat_amount = famt, fiat_currency = fcur,
          match_mode = map_option mode_str (ni_match_mode p), paid_payment_id = None,
          paid_at = None, quote_rate = qrate, quote_source = qsource, inv_confirmed_at = None,
          rail = None, inv_slate_id = None, slatepack = None\<rparr>)"

definition create ::
  "(int \<Rightarrow> int \<Rightarrow> int option) \<Rightarrow> (string \<Rightarrow> string) \<Rightarrow> string \<Rightarrow> string \<Rightarrow> int \<Rightarrow> int
   \<Rightarrow> new_invoice \<Rightarrow> string \<Rightarrow> match_mode_t \<Rightarrow> 'b db \<Rightarrow> invoice sql_result \<times> 'b db" where
  "create shift child_pub rid tok now now' p master_pub dflt d =
     (if rid \<in> inv_id ` set (invoices d) \<or> Some tok \<in> token ` set (invoices d)
      then (Inl ConstraintViolation, d)
      else
        let d1 = d\<lparr>invoices := invoices d @ [new_row shift child_pub rid tok now p master_pub dflt]\<rparr>
        in (case get now' rid d1 of
              (None, d2) \<Rightarrow> (Inl RowNotFound, d2)
            | (Some i, d2) \<Rightarrow> (Inr i, d2)))"

subsection \<open>Transitions\<close>

definition mark_paid :: "int \<Rightarrow> string \<Rightarrow> string \<Rightarrow> 'b db \<Rightarrow> bool \<times> 'b db" where
  "mark_paid now iid payid d =
     (0 < count_where (\<lambda>i. inv_id i = iid \<and> inv_status i = ''open'') (invoices d),
      d\<lparr>invoices := update_where (\<lambda>i. inv_id i = iid \<and> inv_status i = ''open'')
          (\<lambda>i. i\<lparr>inv_status := ''paid'', paid_payment_id := Some payid, paid_at := Some now\<rparr>)
          (invoices d)\<rparr>)"

definition attach_grin1 :: "string \<Rightarrow> string \<Rightarrow> string \<Rightarrow> 'b db \<Rightarrow> 'b db" where
  "attach_grin1 iid sid pack d =
     d\<lparr>invoices := update_where (\<lambda>i. inv_id i = iid)
         (\<lambda>i. i\<lparr>rail := Some RAIL_GRIN1, inv_slate_id := Some sid, slatepack := Some pack\<rparr>)
         (invoices d)\<rparr>"

definition mark_confirmed :: "int \<Rightarrow> string \<Rightarrow> 'b db \<Rightarrow> bool \<times> 'b db" where
  "mark_confirmed now iid d =
     (0 < count_where (\<lambda>i. inv_id i = iid \<and> inv_status i = ''paid'') (invoices d),
      d\<lparr>invoices := update_where (\<lambda>i. inv_id i = iid \<and> inv_status i = ''paid'')
          (\<lambda>i. i\<lparr>inv_status := ''confirmed'', inv_confirmed_at := Some now\<rparr>) (invoices d)\<rparr>)"

definition mark_expired :: "string \<Rightarrow> 'b db \<Rightarrow> bool \<times> 'b db" where
  "mark_expired iid d =
     (0 < count_where (\<lambda>i. inv_id i = iid \<and> inv_status i = ''open'') (invoices d),
      d\<lparr>invoices := update_where (\<lambda>i. inv_id i = iid \<and> inv_status i = ''open'') set_expired (invoices d)\<rparr>)"

subsection \<open>Queries over several rows\<close>

text \<open>
  \<open>rowid < (SELECT rowid FROM invoice WHERE id = ?3)\<close> compares positions in the table; a
  missing row makes the comparison NULL, which counts nothing.
\<close>

definition plain_send_allowed :: "invoice \<Rightarrow> 'b db \<Rightarrow> bool" where
  "plain_send_allowed i d =
     (if \<not> is_grin1 i then False
      else (case expected_amount i of
              None \<Rightarrow> False
            | Some amount \<Rightarrow>
                if amount \<le> 0 then False
                else
                  let earlier = (case position (\<lambda>r. inv_id r = inv_id i) (invoices d) of
                                   None \<Rightarrow> 0
                                 | Some n \<Rightarrow> count_where
                                     (\<lambda>r. rail r = Some RAIL_GRIN1 \<and> inv_status r = ''open'' \<and>
                                          expected_amount r = Some amount \<and> inv_id r \<noteq> inv_id i)
                                     (take n (invoices d)))
                  in earlier = 0))"

text \<open>\<open>invoice i JOIN payment p ON p.slate_id = i.paid_payment_id WHERE i.id = ?1\<close>.\<close>

definition invoice_confirmations :: "string \<Rightarrow> 'b db \<Rightarrow> int" where
  "invoice_confirmations iid d =
     (case lookup_by inv_id iid (invoices d) of
        None \<Rightarrow> 0
      | Some i \<Rightarrow>
          (case paid_payment_id i of
             None \<Rightarrow> 0
           | Some s \<Rightarrow>
               (case lookup_by pay_slate_id (Some s) (payments d) of
                  None \<Rightarrow> 0
                | Some p \<Rightarrow> confirmations p)))"

definition due_grin1_slates :: "int \<Rightarrow> 'b db \<Rightarrow> (string \<times> string) list" where
  "due_grin1_slates now d =
     map (\<lambda>i. (inv_id i, the (inv_slate_id i)))
       (filter (\<lambda>i. rail i = Some RAIL_GRIN1 \<and> inv_slate_id i \<noteq> None \<and> due_at now i) (invoices d))"

lemmas invoice_defs [op_defs] =
  expire_if_due_id_def get_def get_by_token_def expire_due_def mark_paid_def attach_grin1_def
  mark_confirmed_def mark_expired_def

subsection \<open>Guarded transitions\<close>

text \<open>
  The contract \<open>mark_paid\<close>, \<open>mark_confirmed\<close> and \<open>mark_expired\<close> share: an UPDATE that
  only fires on the row with the given id in the source status, moves it out of that
  status, and reports whether it fired. What the callers rely on (a replay is a no-op, at
  most one of any number of competing calls wins) follows from the contract.
\<close>

text \<open>A run of calls of an operation, with the list of their reports.\<close>

fun calls :: "('a \<Rightarrow> string \<Rightarrow> 'b db \<Rightarrow> bool \<times> 'b db) \<Rightarrow> ('a \<times> string) list \<Rightarrow> 'b db \<Rightarrow> bool list \<times> 'b db" where
  "calls step [] d = ([], d)"
| "calls step ((a, iid) # cs) d =
     (let (b, d1) = step a iid d; (bs, d2) = calls step cs d1 in (b # bs, d2))"

text \<open>How many of the calls on one invoice reported that they fired.\<close>

definition wins :: "string \<Rightarrow> ('a \<times> string) list \<Rightarrow> bool list \<Rightarrow> nat" where
  "wins iid cs bs = length (filter (\<lambda>(c, b). snd c = iid \<and> b) (zip cs bs))"

lemma calls_length: "length (fst (calls step cs d)) = length cs"
  by (induction step cs d rule: calls.induct) (auto simp: Let_def split: prod.splits)

locale guarded_transition =
  fixes step :: "'a \<Rightarrow> string \<Rightarrow> 'b db \<Rightarrow> bool \<times> 'b db"
    and upd :: "'a \<Rightarrow> invoice \<Rightarrow> invoice"
    and source :: string
  assumes fires: "distinct (map inv_id (invoices d)) \<Longrightarrow> lookup_by inv_id iid (invoices d) = Some i \<Longrightarrow>
      inv_status i = source \<Longrightarrow>
      fst (step a iid d) \<and> lookup_by inv_id iid (invoices (snd (step a iid d))) = Some (upd a i)"
    and idle: "distinct (map inv_id (invoices d)) \<Longrightarrow>
      (\<And>i. lookup_by inv_id iid (invoices d) = Some i \<Longrightarrow> inv_status i \<noteq> source) \<Longrightarrow>
      step a iid d = (False, d)"
    and frame: "k \<noteq> iid \<Longrightarrow>
      lookup_by inv_id k (invoices (snd (step a iid d))) = lookup_by inv_id k (invoices d)"
    and keeps_ids: "map inv_id (invoices (snd (step a iid d))) = map inv_id (invoices d)"
    and leaves: "inv_status (upd a i) \<noteq> source"
begin

lemma fired_iff:
  assumes "distinct (map inv_id (invoices d))"
  shows "fst (step a iid d) \<longleftrightarrow>
           (\<exists>i. lookup_by inv_id iid (invoices d) = Some i \<and> inv_status i = source)"
  using fires [OF assms] idle [OF assms] by (metis fst_conv)

lemma replay_idle:
  assumes "distinct (map inv_id (invoices d))"
  shows "step b iid (snd (step a iid d)) = (False, snd (step a iid d))"
proof (rule idle)
  show "distinct (map inv_id (invoices (snd (step a iid d))))" using assms keeps_ids by simp
  fix i assume l: "lookup_by inv_id iid (invoices (snd (step a iid d))) = Some i"
  show "inv_status i \<noteq> source"
  proof (cases "\<exists>j. lookup_by inv_id iid (invoices d) = Some j \<and> inv_status j = source")
    case True
    then show ?thesis using l fires [OF assms] leaves by fastforce
  next
    case False
    then have "step a iid d = (False, d)" by (intro idle [OF assms]) auto
    with False l show ?thesis by auto
  qed
qed

lemma wins_Cons:
  "wins iid ((a, k) # cs) (fst (calls step ((a, k) # cs) d)) =
     (if k = iid \<and> fst (step a k d) then 1 else 0) + wins iid cs (fst (calls step cs (snd (step a k d))))"
  by (auto simp: wins_def Let_def split: prod.splits)

lemma settled_no_wins:
  "distinct (map inv_id (invoices d)) \<Longrightarrow>
   (\<And>i. lookup_by inv_id iid (invoices d) = Some i \<Longrightarrow> inv_status i \<noteq> source) \<Longrightarrow>
   wins iid cs (fst (calls step cs d)) = 0"
proof (induction cs arbitrary: d)
  case Nil
  then show ?case by (simp add: wins_def)
next
  case (Cons c cs)
  obtain a k where c: "c = (a, k)" by (cases c)
  let ?d1 = "snd (step a k d)"
  have keys: "distinct (map inv_id (invoices ?d1))" using Cons.prems(1) keeps_ids by simp
  have st: "inv_status i \<noteq> source" if "lookup_by inv_id iid (invoices ?d1) = Some i" for i
  proof (cases "k = iid")
    case True
    then have "step a k d = (False, d)" using Cons.prems by (intro idle) auto
    with that Cons.prems(2) show ?thesis by simp
  next
    case False
    with that Cons.prems(2) frame [of iid k a d] show ?thesis by simp
  qed
  have "\<not> (k = iid \<and> fst (step a k d))"
    using Cons.prems(2) fired_iff [OF Cons.prems(1), of a k] by blast
  with Cons.IH [OF keys st] show ?case unfolding c by (simp add: wins_Cons del: calls.simps)
qed

lemma at_most_one_win:
  "distinct (map inv_id (invoices d)) \<Longrightarrow> wins iid cs (fst (calls step cs d)) \<le> 1"
proof (induction cs arbitrary: d)
  case Nil
  then show ?case by (simp add: wins_def)
next
  case (Cons c cs)
  obtain a k where c: "c = (a, k)" by (cases c)
  let ?d1 = "snd (step a k d)"
  have keys: "distinct (map inv_id (invoices ?d1))" using Cons.prems(1) keeps_ids by simp
  show ?case
  proof (cases "k = iid \<and> fst (step a k d)")
    case True
    then have "inv_status i \<noteq> source" if "lookup_by inv_id iid (invoices ?d1) = Some i" for i
      using that replay_idle [OF Cons.prems, of a k a] fired_iff [OF keys, of a k] by auto
    then have "wins iid cs (fst (calls step cs ?d1)) = 0" by (intro settled_no_wins [OF keys])
    with True show ?thesis unfolding c by (simp add: wins_Cons del: calls.simps)
  next
    case False
    with Cons.IH [OF keys] show ?thesis unfolding c by (auto simp: wins_Cons simp del: calls.simps)
  qed
qed

end

text \<open>The generic UPDATE of that shape satisfies the contract.\<close>

lemma guarded_update:
  assumes "\<And>a i. inv_id (upd a i) = inv_id i" and "\<And>a i. inv_status (upd a i) \<noteq> source"
    and step: "\<And>a iid d. step a iid d =
      (0 < count_where (\<lambda>i. inv_id i = iid \<and> inv_status i = source) (invoices d),
       d\<lparr>invoices := update_where (\<lambda>i. inv_id i = iid \<and> inv_status i = source) (upd a) (invoices d)\<rparr>)"
  shows "guarded_transition step upd source"
proof
  fix d :: "'b db" and iid i a
  assume k: "distinct (map inv_id (invoices d))" and l: "lookup_by inv_id iid (invoices d) = Some i"
    and s: "inv_status i = source"
  from lookup_by_Some [OF l] s have "\<exists>r \<in> set (invoices d). inv_id r = iid \<and> inv_status r = source" by blast
  then show "fst (step a iid d) \<and> lookup_by inv_id iid (invoices (snd (step a iid d))) = Some (upd a i)"
    using l s lookup_by_Some [OF l] assms(1)
    by (simp add: step count_where_pos lookup_by_update_where)
next
  fix d :: "'b db" and iid a
  assume k: "distinct (map inv_id (invoices d))"
    and n: "\<And>i. lookup_by inv_id iid (invoices d) = Some i \<Longrightarrow> inv_status i \<noteq> source"
  have none: "\<not> (inv_id r = iid \<and> inv_status r = source)" if "r \<in> set (invoices d)" for r
    using n lookup_by_distinct [OF k that] by auto
  then show "step a iid d = (False, d)"
    using count_where_0 [of "\<lambda>i. inv_id i = iid \<and> inv_status i = source" "invoices d"]
    by (simp add: step update_where_id)
next
  fix k iid :: string and a and d :: "'b db"
  assume "k \<noteq> iid"
  then show "lookup_by inv_id k (invoices (snd (step a iid d))) = lookup_by inv_id k (invoices d)"
    using assms(1) by (simp add: step lookup_by_update_other)
next
  fix a iid and d :: "'b db"
  show "map inv_id (invoices (snd (step a iid d))) = map inv_id (invoices d)"
    using assms(1) by (simp add: step map_update_where)
next
  fix a i
  show "inv_status (upd a i) \<noteq> source" by (rule assms(2))
qed

definition paid_row :: "int \<times> string \<Rightarrow> invoice \<Rightarrow> invoice" where
  "paid_row a i = i\<lparr>inv_status := ''paid'', paid_payment_id := Some (snd a), paid_at := Some (fst a)\<rparr>"

definition confirmed_row :: "int \<Rightarrow> invoice \<Rightarrow> invoice" where
  "confirmed_row now i = i\<lparr>inv_status := ''confirmed'', inv_confirmed_at := Some now\<rparr>"

interpretation paying: guarded_transition "\<lambda>a iid d. mark_paid (fst a) iid (snd a) d" paid_row "''open''"
  by (rule guarded_update) (auto simp: paid_row_def [abs_def] mark_paid_def)

interpretation confirming: guarded_transition mark_confirmed confirmed_row "''paid''"
  by (rule guarded_update) (auto simp: confirmed_row_def [abs_def] mark_confirmed_def)

interpretation expiring: guarded_transition "\<lambda>_ :: unit. mark_expired" "\<lambda>_. set_expired" "''open''"
  by (rule guarded_update) (auto simp: set_expired_def mark_expired_def)

end
