(* ===== verification/Config.thy ===== *)
theory Config
  imports Invoice
begin

text \<open>
  \<open>crates/gp-core/src/config.rs\<close>: the runtime configuration, loaded from a key lookup and
  validated. \<open>env\<close> is the environment, \<open>read_file\<close> the file system (its error is the text of
  the I/O error), \<open>lower\<close> Unicode lowercasing, \<open>dbg\<close> Rust's debug text of a list of strings.
  A \<open>Secret\<close> is the string it wraps. Warnings that are only logged are not modelled.
\<close>

subsection \<open>Data\<close>

datatype tls_t = TlsOff | Rustls (tls_cert: string) (tls_key: string)
datatype chain_t = Mainnet | Testnet
datatype relay_mode_t = Bundled | External
datatype rate_source_t = CoinGecko

definition rate_source_str :: "rate_source_t \<Rightarrow> string" where
  "rate_source_str s = (case s of CoinGecko \<Rightarrow> ''coingecko'')"

record config =
  bind_addr :: string
  tls :: tls_t
  db_path :: string
  data_dir :: string
  node_url :: string
  chain :: chain_t
  relay_mode :: relay_mode_t
  relays :: "string list"
  bundled_relay_url :: string
  ingest :: bool
  checkout_nostr :: bool
  checkout_slatepack :: bool
  cfg_match_mode :: match_mode_t
  mnemonic :: "string option"
  wallet_password :: "string option"
  nsec :: "string option"
  ncryptsec :: "string option"
  public_url :: string
  api_token :: "string option"
  admin_token :: "string option"
  webhook_url :: "string option"
  webhook_secret :: "string option"
  cfg_qr_logo :: "string option"
  merchant_npub :: "string option"
  notify_merchant_dm :: bool
  notify_payer_receipt :: bool
  endpub_rotate_interval :: int
  endpub_overlap_epochs :: int
  rate_source :: rate_source_t
  rate_currencies :: "string list"
  rate_cache_ttl :: int
  quote_ttl :: int
  rate_stale_max :: int
  confirmations_required :: int
  grin1_rail :: bool
  grin1_foreign_port :: nat
  inline_secret_vars :: "string list"

definition DEFAULT_BIND :: string where "DEFAULT_BIND = ''127.0.0.1:8080''"
definition DEFAULT_DB_PATH :: string where "DEFAULT_DB_PATH = ''./goblinpay.db''"
definition DEFAULT_DATA_DIR :: string where "DEFAULT_DATA_DIR = ''./gp-data''"
definition DEFAULT_NODE_URL :: string where "DEFAULT_NODE_URL = ''https://main.gri.mw''"
definition DEFAULT_BUNDLED_RELAY :: string where "DEFAULT_BUNDLED_RELAY = ''ws://127.0.0.1:7777''"
definition DEFAULT_RATE_CURRENCY :: string where "DEFAULT_RATE_CURRENCY = ''usd''"
definition DEFAULT_RATE_CACHE_TTL :: int where "DEFAULT_RATE_CACHE_TTL = 60"
definition DEFAULT_QUOTE_TTL :: int where "DEFAULT_QUOTE_TTL = 900"
definition DEFAULT_CONFIRMATIONS :: int where "DEFAULT_CONFIRMATIONS = 10"
definition DEFAULT_GRIN1_FOREIGN_PORT :: nat where "DEFAULT_GRIN1_FOREIGN_PORT = 3416"
definition QR_LOGO_BUILTIN :: string where "QR_LOGO_BUILTIN = ''builtin''"

definition DEPRECATED_INLINE_SECRETS :: "string list" where
  "DEPRECATED_INLINE_SECRETS = [''GP_MNEMONIC'', ''GP_WALLET_PASSWORD'', ''GP_NSEC'']"

definition default_config :: config where
  "default_config =
     \<lparr>bind_addr = DEFAULT_BIND, tls = TlsOff, db_path = DEFAULT_DB_PATH, data_dir = DEFAULT_DATA_DIR,
      node_url = DEFAULT_NODE_URL, chain = Mainnet, relay_mode = Bundled, relays = [],
      bundled_relay_url = DEFAULT_BUNDLED_RELAY, ingest = True, checkout_nostr = True,
      checkout_slatepack = True, cfg_match_mode = MemoMode, mnemonic = None, wallet_password = None,
      nsec = None, ncryptsec = None, public_url = ''http://'' @ DEFAULT_BIND, api_token = None,
      admin_token = None, webhook_url = None, webhook_secret = None, cfg_qr_logo = None,
      merchant_npub = None, notify_merchant_dm = False, notify_payer_receipt = False,
      endpub_rotate_interval = 0, endpub_overlap_epochs = 1, rate_source = CoinGecko,
      rate_currencies = [DEFAULT_RATE_CURRENCY], rate_cache_ttl = DEFAULT_RATE_CACHE_TTL,
      quote_ttl = DEFAULT_QUOTE_TTL, rate_stale_max = 0, confirmations_required = DEFAULT_CONFIRMATIONS,
      grin1_rail = False, grin1_foreign_port = DEFAULT_GRIN1_FOREIGN_PORT, inline_secret_vars = []\<rparr>"

subsection \<open>Parsing one setting\<close>

type_synonym lookup = "string \<Rightarrow> string option"

definition or_default :: "string option \<Rightarrow> string \<Rightarrow> string" where
  "or_default v d = (case v of None \<Rightarrow> d | Some x \<Rightarrow> x)"

definition comma_list :: "string \<Rightarrow> string list" where
  "comma_list s = filter (\<lambda>w. w \<noteq> []) (map trim (split_on (CHR '','') s))"

definition parse_bool :: "lookup \<Rightarrow> string \<Rightarrow> bool \<Rightarrow> string + bool" where
  "parse_bool env key dflt =
     (case env key of
        None \<Rightarrow> Inr dflt
      | Some v \<Rightarrow>
          if v = ''on'' then Inr True else if v = ''off'' then Inr False
          else Inl (key @ '' must be `on` or `off` (got `'' @ v @ ''`)''))"

definition parse_i64 :: "lookup \<Rightarrow> string \<Rightarrow> int \<Rightarrow> string + int" where
  "parse_i64 env key dflt =
     (case env key of
        None \<Rightarrow> Inr dflt
      | Some v \<Rightarrow>
          (case parse_i64_str (trim v) of
             None \<Rightarrow> Inl (key @ '' must be an integer (got `'' @ v @ ''`)'')
           | Some i \<Rightarrow> Inr i))"

definition trim_newlines :: "string \<Rightarrow> string" where
  "trim_newlines s = rev (dropWhile (\<lambda>c. c = CHR 0x0A \<or> c = CHR 0x0D) (rev s))"

definition secret :: "(string \<Rightarrow> string + string) \<Rightarrow> lookup \<Rightarrow> string \<Rightarrow> string + string option" where
  "secret read_file env key =
     (let file_key = key @ ''_FILE'' in
      case (env key, env file_key) of
        (Some _, Some _) \<Rightarrow> Inl (''set only one of '' @ key @ '' and '' @ file_key)
      | (Some v, None) \<Rightarrow> Inr (Some v)
      | (None, Some path) \<Rightarrow>
          (case read_file path of
             Inl e \<Rightarrow> Inl (file_key @ '' `'' @ path @ ''` unreadable: '' @ e)
           | Inr text \<Rightarrow>
               let v = trim_newlines text in
               if v = [] then Inl (file_key @ '' `'' @ path @ ''` is empty'') else Inr (Some v))
      | (None, None) \<Rightarrow> Inr None)"

definition parse_checkout_methods :: "(string \<Rightarrow> string) \<Rightarrow> string option \<Rightarrow> bool \<times> bool" where
  "parse_checkout_methods lower raw =
     (case raw of
        None \<Rightarrow> (True, True)
      | Some s \<Rightarrow>
          let toks = map (\<lambda>t. lower (trim t)) (split_on (CHR '','') s);
              nostr = ''nostr'' \<in> set toks; slatepack = ''slatepack'' \<in> set toks
          in if \<not> nostr \<and> \<not> slatepack then (True, True) else (nostr, slatepack))"

definition parse_tls :: "lookup \<Rightarrow> string + tls_t" where
  "parse_tls env =
     (let v = or_default (env ''GP_TLS'') ''off'' in
      if v = ''off'' then Inr TlsOff
      else if v = ''rustls'' then
        (case env ''GP_TLS_CERT'' of
           None \<Rightarrow> Inl ''GP_TLS=rustls requires GP_TLS_CERT (PEM certificate chain path)''
         | Some c \<Rightarrow>
             (case env ''GP_TLS_KEY'' of
                None \<Rightarrow> Inl ''GP_TLS=rustls requires GP_TLS_KEY (PEM private key path)''
              | Some k \<Rightarrow> Inr (Rustls c k)))
      else Inl (''GP_TLS must be `off` or `rustls` (got `'' @ v @ ''`)''))"

definition parse_chain :: "lookup \<Rightarrow> string + chain_t" where
  "parse_chain env =
     (let v = or_default (env ''GP_CHAIN'') ''mainnet'' in
      if v = ''mainnet'' then Inr Mainnet else if v = ''testnet'' then Inr Testnet
      else Inl (''GP_CHAIN must be `mainnet` or `testnet` (got `'' @ v @ ''`)''))"

definition parse_relay_mode :: "lookup \<Rightarrow> string + relay_mode_t" where
  "parse_relay_mode env =
     (let v = or_default (env ''GP_RELAY_MODE'') ''bundled'' in
      if v = ''bundled'' then Inr Bundled else if v = ''external'' then Inr External
      else Inl (''GP_RELAY_MODE must be `bundled` or `external` (got `'' @ v @ ''`)''))"

definition parse_ingest :: "lookup \<Rightarrow> string + bool" where
  "parse_ingest env =
     (let v = or_default (env ''GP_INGEST'') ''on'' in
      if v = ''on'' then Inr True else if v = ''off'' then Inr False
      else Inl (''GP_INGEST must be `on` or `off` (got `'' @ v @ ''`)''))"

definition parse_match_mode :: "lookup \<Rightarrow> string + match_mode_t" where
  "parse_match_mode env =
     (let v = or_default (env ''GP_MATCH_MODE'') ''memo'' in
      if v = ''memo'' then Inr MemoMode else if v = ''derived'' then Inr DerivedMode
      else if v = ''amount'' then Inr AmountMode
      else Inl (''GP_MATCH_MODE must be `memo`, `derived`, or `amount` (got `'' @ v @ ''`)''))"

definition parse_rate_source :: "lookup \<Rightarrow> string + rate_source_t" where
  "parse_rate_source env =
     (let v = or_default (env ''GP_RATE_SOURCE'') ''coingecko'' in
      if v = ''coingecko'' then Inr CoinGecko
      else Inl (''GP_RATE_SOURCE must be `coingecko` (got `'' @ v @ ''`)''))"

definition parse_currencies :: "(string \<Rightarrow> string) \<Rightarrow> lookup \<Rightarrow> string + string list" where
  "parse_currencies lower env =
     (case env ''GP_RATE_CURRENCIES'' of
        None \<Rightarrow> Inr [DEFAULT_RATE_CURRENCY]
      | Some raw \<Rightarrow>
          let l = filter (\<lambda>w. w \<noteq> []) (map (\<lambda>t. lower (trim t)) (split_on (CHR '','') raw)) in
          if l = [] then Inl ''GP_RATE_CURRENCIES must list at least one currency'' else Inr l)"

definition parse_foreign_port :: "lookup \<Rightarrow> string + nat" where
  "parse_foreign_port env =
     (case env ''GP_GRIN1_FOREIGN_PORT'' of
        None \<Rightarrow> Inr DEFAULT_GRIN1_FOREIGN_PORT
      | Some v \<Rightarrow>
          (case parse_u16_str (trim v) of
             None \<Rightarrow> Inl (''GP_GRIN1_FOREIGN_PORT must be a port 1-65535 (got `'' @ v @ ''`)'')
           | Some p \<Rightarrow> Inr p))"

definition parse_qr_logo :: "lookup \<Rightarrow> string option" where
  "parse_qr_logo env =
     (case env ''GP_QR_LOGO'' of
        None \<Rightarrow> None
      | Some v \<Rightarrow>
          if v \<in> {''off'', ''none'', ''''} then None
          else if v = ''builtin'' \<or> v = ''goblin'' then Some QR_LOGO_BUILTIN else Some v)"

definition non_blank :: "string option \<Rightarrow> string option" where
  "non_blank v = (case v of None \<Rightarrow> None | Some s \<Rightarrow> if trim s = [] then None else Some s)"

definition parse_public_url :: "lookup \<Rightarrow> string \<Rightarrow> string" where
  "parse_public_url env bnd =
     (case map_option (trim_end_matches (CHR ''/'')) (env ''GP_PUBLIC_URL'') of
        Some u \<Rightarrow> (if u = [] then ''http://'' @ bnd else u)
      | None \<Rightarrow> ''http://'' @ bnd)"

definition parse_bundled_relay :: "lookup \<Rightarrow> string" where
  "parse_bundled_relay env =
     (case map_option trim (env ''GP_BUNDLED_RELAY_URL'') of
        Some u \<Rightarrow> (if u = [] then DEFAULT_BUNDLED_RELAY else u)
      | None \<Rightarrow> DEFAULT_BUNDLED_RELAY)"

subsection \<open>Validation\<close>

definition validate :: "config \<Rightarrow> string + unit" where
  "validate c =
     (if bind_addr c = [] then Inl ''GP_BIND must not be empty''
      else if db_path c = [] then Inl ''GP_DB_PATH must not be empty''
      else if data_dir c = [] then Inl ''GP_DATA_DIR must not be empty''
      else if \<not> starts_with ''http://'' (node_url c) \<and> \<not> starts_with ''https://'' (node_url c)
      then Inl (''GP_NODE_URL must start with http:// or https:// (got `'' @ node_url c @ ''`)'')
      else if relay_mode c = External \<and> relays c = [] then Inl ''GP_RELAY_MODE=external requires GP_RELAYS''
      else if relay_mode c = Bundled \<and> trim (bundled_relay_url c) = []
      then Inl ''GP_RELAY_MODE=bundled requires a non-empty GP_BUNDLED_RELAY_URL''
      else if nsec c \<noteq> None \<and> ncryptsec c \<noteq> None then Inl ''set only one of GP_NSEC and GP_NCRYPTSEC''
      else if webhook_url c \<noteq> None \<and> webhook_secret c = None
      then Inl ''GP_WEBHOOK_URL requires GP_WEBHOOK_SECRET (webhooks are HMAC-signed)''
      else if endpub_overlap_epochs c < 0 then Inl ''GP_ENDPUB_OVERLAP_EPOCHS must be >= 0''
      else if endpub_rotate_interval c < 0 then Inl ''GP_ENDPUB_ROTATE_INTERVAL must be >= 0 (0 = off)''
      else if rate_currencies c = [] then Inl ''GP_RATE_CURRENCIES must list at least one currency''
      else if quote_ttl c \<le> 0 then Inl ''GP_QUOTE_TTL must be > 0 (seconds)''
      else if rate_cache_ttl c < 0 then Inl ''GP_RATE_CACHE_TTL must be >= 0 (0 = always refetch)''
      else if rate_stale_max c < 0 then Inl ''GP_RATE_STALE_MAX must be >= 0 (0 = off)''
      else if confirmations_required c < 1 then Inl ''GP_CONFIRMATIONS must be >= 1''
      else Inr ())"

subsection \<open>Loading\<close>

definition from_lookup ::
  "(string \<Rightarrow> string) \<Rightarrow> (string \<Rightarrow> string + string) \<Rightarrow> lookup \<Rightarrow> string + config" where
  "from_lookup lower read_file env =
     (let bnd = or_default (env ''GP_BIND'') DEFAULT_BIND;
          methods = parse_checkout_methods lower (env ''GP_CHECKOUT_METHODS'') in
      and_then (parse_tls env) (\<lambda>v_tls.
      and_then (parse_chain env) (\<lambda>v_chain.
      and_then (parse_relay_mode env) (\<lambda>v_mode.
      and_then (parse_ingest env) (\<lambda>v_ingest.
      and_then (parse_match_mode env) (\<lambda>v_match.
      and_then (secret read_file env ''GP_MNEMONIC'') (\<lambda>v_mnemonic.
      and_then (secret read_file env ''GP_WALLET_PASSWORD'') (\<lambda>v_password.
      and_then (secret read_file env ''GP_NSEC'') (\<lambda>v_nsec.
      and_then (secret read_file env ''GP_NCRYPTSEC'') (\<lambda>v_ncryptsec.
      and_then (secret read_file env ''GP_API_TOKEN'') (\<lambda>v_api.
      and_then (secret read_file env ''GP_ADMIN_TOKEN'') (\<lambda>v_admin.
      and_then (secret read_file env ''GP_WEBHOOK_SECRET'') (\<lambda>v_whsecret.
      and_then (parse_bool env ''GP_NOTIFY_MERCHANT_DM'' False) (\<lambda>v_dm.
      and_then (parse_bool env ''GP_NOTIFY_PAYER_RECEIPT'' False) (\<lambda>v_receipt.
      and_then (parse_i64 env ''GP_ENDPUB_ROTATE_INTERVAL'' 0) (\<lambda>v_rotate.
      and_then (parse_i64 env ''GP_ENDPUB_OVERLAP_EPOCHS'' 1) (\<lambda>v_overlap.
      and_then (parse_rate_source env) (\<lambda>v_source.
      and_then (parse_currencies lower env) (\<lambda>v_currencies.
      and_then (parse_i64 env ''GP_RATE_CACHE_TTL'' DEFAULT_RATE_CACHE_TTL) (\<lambda>v_cache.
      and_then (parse_i64 env ''GP_QUOTE_TTL'' DEFAULT_QUOTE_TTL) (\<lambda>v_quote.
      and_then (parse_i64 env ''GP_RATE_STALE_MAX'' 0) (\<lambda>v_stale.
      and_then (parse_i64 env ''GP_CONFIRMATIONS'' DEFAULT_CONFIRMATIONS) (\<lambda>v_conf.
      and_then (parse_bool env ''GP_GRIN1_RAIL'' False) (\<lambda>v_rail.
      and_then (parse_foreign_port env) (\<lambda>v_port.
        let cfg =
          \<lparr>bind_addr = bnd, tls = v_tls, db_path = or_default (env ''GP_DB_PATH'') DEFAULT_DB_PATH,
           data_dir = or_default (env ''GP_DATA_DIR'') DEFAULT_DATA_DIR,
           node_url = or_default (env ''GP_NODE_URL'') DEFAULT_NODE_URL, chain = v_chain,
           relay_mode = v_mode, relays = comma_list (or_default (env ''GP_RELAYS'') []),
           bundled_relay_url = parse_bundled_relay env, ingest = v_ingest,
           checkout_nostr = fst methods, checkout_slatepack = snd methods, cfg_match_mode = v_match,
           mnemonic = v_mnemonic, wallet_password = v_password, nsec = v_nsec, ncryptsec = v_ncryptsec,
           public_url = parse_public_url env bnd, api_token = v_api, admin_token = v_admin,
           webhook_url = non_blank (env ''GP_WEBHOOK_URL''), webhook_secret = v_whsecret,
           cfg_qr_logo = parse_qr_logo env, merchant_npub = non_blank (env ''GP_MERCHANT_NPUB''),
           notify_merchant_dm = v_dm, notify_payer_receipt = v_receipt,
           endpub_rotate_interval = v_rotate, endpub_overlap_epochs = v_overlap, rate_source = v_source,
           rate_currencies = v_currencies, rate_cache_ttl = v_cache, quote_ttl = v_quote,
           rate_stale_max = v_stale, confirmations_required = v_conf, grin1_rail = v_rail,
           grin1_foreign_port = v_port,
           inline_secret_vars = filter (\<lambda>k. env k \<noteq> None) DEPRECATED_INLINE_SECRETS\<rparr>
        in and_then (validate cfg) (\<lambda>_. Inr cfg))))))))))))))))))))))))))"

subsection \<open>Reporting\<close>

definition inline_secret_warning :: "config \<Rightarrow> string option" where
  "inline_secret_warning c =
     (if inline_secret_vars c = [] then None
      else Some (''DEPRECATED: money secret(s) supplied inline as environment variables: '' @
             join '', '' (inline_secret_vars c) @
             ''. An inline env var is readable by the whole process and, via /proc, by root for the life of the service. Deliver them as files instead ('' @
             join '', '' (map (\<lambda>n. n @ ''_FILE'') (inline_secret_vars c)) @
             '') or via a systemd credential; see the shipped gp-server.service. The inline path still works but is deprecated and may be removed.''))"

datatype logo = NoLogo | Builtin | Href string

definition qr_logo :: "config \<Rightarrow> logo" where
  "qr_logo c =
     (case cfg_qr_logo c of
        None \<Rightarrow> NoLogo
      | Some h \<Rightarrow> if h = QR_LOGO_BUILTIN then Builtin else Href h)"

definition checkout_methods_str :: "config \<Rightarrow> string" where
  "checkout_methods_str c =
     join '','' ((if checkout_nostr c then [''nostr''] else []) @
                 (if checkout_slatepack c then [''slatepack''] else []))"

definition show_i64 :: "int \<Rightarrow> string" where
  "show_i64 i = (if i < 0 then ''-'' @ show_nat (nat (- i)) else show_nat (nat i))"

definition set_str :: "bool \<Rightarrow> string" where
  "set_str b = (if b then ''set'' else ''unset'')"

definition on_off :: "bool \<Rightarrow> string" where
  "on_off b = (if b then ''on'' else ''off'')"

definition summary :: "(string list \<Rightarrow> string) \<Rightarrow> config \<Rightarrow> string" where
  "summary dbg c = concat
     [''bind='', bind_addr c,
      '' tls='', (case tls c of TlsOff \<Rightarrow> ''off'' | Rustls cert key \<Rightarrow> ''rustls(cert='' @ cert @ '',key='' @ key @ '')''),
      '' db='', db_path c, '' data_dir='', data_dir c, '' node='', node_url c,
      '' chain='', (case chain c of Mainnet \<Rightarrow> ''Mainnet'' | Testnet \<Rightarrow> ''Testnet''),
      '' relay_mode='', (case relay_mode c of Bundled \<Rightarrow> ''Bundled'' | External \<Rightarrow> ''External''),
      '' relays='', dbg (relays c), '' bundled_relay='', bundled_relay_url c,
      '' ingest='', on_off (ingest c), '' checkout_methods='', checkout_methods_str c,
      '' match_mode='', (case cfg_match_mode c of MemoMode \<Rightarrow> ''Memo'' | DerivedMode \<Rightarrow> ''Derived'' | AmountMode \<Rightarrow> ''Amount''),
      '' mnemonic='', set_str (mnemonic c \<noteq> None), '' wallet_password='', set_str (wallet_password c \<noteq> None),
      '' nsec='', set_str (nsec c \<noteq> None), '' ncryptsec='', set_str (ncryptsec c \<noteq> None),
      '' public_url='', public_url c, '' api_token='', set_str (api_token c \<noteq> None),
      '' admin_token='', set_str (admin_token c \<noteq> None),
      '' webhook_url='', or_default (webhook_url c) ''unset'',
      '' webhook_secret='', set_str (webhook_secret c \<noteq> None),
      '' qr_logo='', or_default (cfg_qr_logo c) ''off'',
      '' merchant_npub='', or_default (merchant_npub c) ''unset'',
      '' notify_merchant_dm='', on_off (notify_merchant_dm c),
      '' notify_payer_receipt='', on_off (notify_payer_receipt c),
      '' endpub_rotate_interval='', show_i64 (endpub_rotate_interval c),
      '' endpub_overlap_epochs='', show_i64 (endpub_overlap_epochs c),
      '' rate_source='', rate_source_str (rate_source c), '' rate_currencies='', dbg (rate_currencies c),
      '' rate_cache_ttl='', show_i64 (rate_cache_ttl c), '' quote_ttl='', show_i64 (quote_ttl c),
      '' rate_stale_max='', show_i64 (rate_stale_max c),
      '' confirmations_required='', show_i64 (confirmations_required c),
      '' grin1_rail='', on_off (grin1_rail c), '' grin1_foreign_port='', show_nat (grin1_foreign_port c)]"

subsection \<open>An accepted configuration is consistent\<close>

lemma guard_Inr: "(if P then Inl e else r) = Inr u \<longleftrightarrow> \<not> P \<and> r = Inr u"
  by simp

lemma from_lookup_validated: "from_lookup lower read_file env = Inr c \<Longrightarrow> validate c = Inr ()"
  unfolding from_lookup_def Let_def by (simp only: and_then_Inr) auto


lemma trim_default_relay: "trim ''ws://127.0.0.1:7777'' = ''ws://127.0.0.1:7777''"
  by code_simp

lemma empty_environment: "from_lookup lower read_file (\<lambda>_. None) = Inr default_config"
  by (simp add: from_lookup_def default_config_def parse_tls_def parse_chain_def parse_relay_mode_def
      parse_ingest_def parse_match_mode_def secret_def parse_bool_def parse_i64_def parse_rate_source_def
      parse_currencies_def parse_foreign_port_def parse_checkout_methods_def or_default_def
      parse_bundled_relay_def parse_public_url_def non_blank_def parse_qr_logo_def comma_list_def
      validate_def DEFAULT_BIND_def DEFAULT_DB_PATH_def DEFAULT_DATA_DIR_def DEFAULT_NODE_URL_def
      DEFAULT_BUNDLED_RELAY_def DEFAULT_QUOTE_TTL_def DEFAULT_RATE_CACHE_TTL_def DEFAULT_CONFIRMATIONS_def
      DEPRECATED_INLINE_SECRETS_def starts_with_def trim_default_relay trim_id Let_def)


subsection \<open>Secrets stay out of the log\<close>

text \<open>The startup summary and the inline-secret warning do not depend on any secret's value:
  replacing the mnemonic, the wallet password, the identity keys, the tokens and the webhook
  secret by any other values leaves both texts the same; only being set or unset shows.\<close>

lemma summary_hides_secrets:
  "summary dbg (c\<lparr>mnemonic := map_option f (mnemonic c), wallet_password := map_option f (wallet_password c),
       nsec := map_option f (nsec c), ncryptsec := map_option f (ncryptsec c),
       api_token := map_option f (api_token c), admin_token := map_option f (admin_token c),
       webhook_secret := map_option f (webhook_secret c)\<rparr>) = summary dbg c \<and>
   inline_secret_warning (c\<lparr>mnemonic := map_option f (mnemonic c), wallet_password := map_option f (wallet_password c),
       nsec := map_option f (nsec c), ncryptsec := map_option f (ncryptsec c),
       api_token := map_option f (api_token c), admin_token := map_option f (admin_token c),
       webhook_secret := map_option f (webhook_secret c)\<rparr>) = inline_secret_warning c"
  by (simp add: summary_def inline_secret_warning_def checkout_methods_str_def)

subsection \<open>Two loose edges\<close>

text \<open>An empty inline secret counts as set, although an empty secret file is an error.\<close>

lemma empty_inline_secret:
  "secret read_file (\<lambda>k. if k = ''GP_WEBHOOK_SECRET'' then Some [] else None) ''GP_WEBHOOK_SECRET'' = Inr (Some [])"
  "secret (\<lambda>_. Inr []) (\<lambda>k. if k = ''GP_WEBHOOK_SECRET_FILE'' then Some ''f'' else None) ''GP_WEBHOOK_SECRET''
     = Inl ''GP_WEBHOOK_SECRET_FILE `f` is empty''"
  by (simp_all add: secret_def trim_newlines_def)

lemma webhook_with_empty_secret:
  "validate (default_config\<lparr>webhook_url := Some ''https://shop/hook'', webhook_secret := Some []\<rparr>) = Inr ()"
  by (simp add: validate_def default_config_def DEFAULT_BIND_def DEFAULT_DB_PATH_def DEFAULT_DATA_DIR_def
      DEFAULT_NODE_URL_def DEFAULT_BUNDLED_RELAY_def DEFAULT_QUOTE_TTL_def DEFAULT_RATE_CACHE_TTL_def
      DEFAULT_CONFIRMATIONS_def starts_with_def trim_default_relay)

text \<open>The port's error text promises 1-65535; port 0 is accepted.\<close>

lemma port_zero_accepted:
  "parse_foreign_port (\<lambda>k. if k = ''GP_GRIN1_FOREIGN_PORT'' then Some ''0'' else None) = Inr 0"
proof -
  have "trim ''0'' = ''0''" by code_simp
  then show ?thesis
    by (simp add: parse_foreign_port_def parse_u16_str_def parse_unsigned_def digit_val_def)
qed

end
