(* ===== verification/Protocol.thy ===== *)
theory Protocol
  imports Config
begin

text \<open>
  \<open>crates/gp-nostr/src/protocol.rs\<close> and \<open>relays.rs\<close>: the payment message (a preamble and one
  slatepack armor block), the payer's note, and the relay set. A rumor's tags are the lists of
  their parts.
\<close>

subsection \<open>Relays\<close>

definition MAX_DM_RELAYS :: nat where "MAX_DM_RELAYS = 3"

fun push_new :: "string list \<Rightarrow> string list \<Rightarrow> string list" where
  "push_new rs [] = rs"
| "push_new rs (x # xs) = push_new (if x \<in> set rs then rs else rs @ [x]) xs"

definition resolve_relays :: "relay_mode_t \<Rightarrow> string \<Rightarrow> string list \<Rightarrow> string list" where
  "resolve_relays mode bundled_url configured =
     (case mode of Bundled \<Rightarrow> push_new [bundled_url] configured | External \<Rightarrow> configured)"

lemma push_new_props:
  "distinct rs \<Longrightarrow> distinct (push_new rs xs) \<and> set (push_new rs xs) = set rs \<union> set xs \<and>
     (\<exists>ys. push_new rs xs = rs @ ys)"
proof (induction xs arbitrary: rs)
  case (Cons x xs)
  show ?case
  proof (cases "x \<in> set rs")
    case True
    with Cons show ?thesis by auto
  next
    case False
    with Cons.prems Cons.IH [of "rs @ [x]"] show ?thesis by auto
  qed
qed simp

subsection \<open>Characters of a UTF-8 string\<close>

text \<open>\<open>char::is_control\<close>: U+0000 to U+001F, U+007F, and U+0080 to U+009F (two bytes).\<close>

definition ctl1 :: "char \<Rightarrow> bool" where
  "ctl1 c \<longleftrightarrow> of_char c < (32 :: nat) \<or> c = CHR 0x7F"

definition ctl2 :: "char \<Rightarrow> char \<Rightarrow> bool" where
  "ctl2 a b \<longleftrightarrow> a = CHR 0xC2 \<and> 128 \<le> (of_char b :: nat) \<and> of_char b < (160 :: nat)"

fun blank_controls :: "string \<Rightarrow> string" where
  "blank_controls [] = []"
| "blank_controls [a] = [if ctl1 a then CHR '' '' else a]"
| "blank_controls (a # b # s) =
     (if ctl1 a then CHR '' '' # blank_controls (b # s)
      else if ctl2 a b then CHR '' '' # blank_controls s
      else a # blank_controls (b # s))"

text \<open>\<open>split_whitespace\<close>: the maximal runs of bytes between whitespace characters.\<close>

function split_ws :: "string \<Rightarrow> string \<Rightarrow> string list" where
  "split_ws acc s =
     (case s of
        [] \<Rightarrow> (if acc = [] then [] else [rev acc])
      | c # rest \<Rightarrow>
          if ws_len s = 0 then split_ws (c # acc) rest
          else (if acc = [] then [] else [rev acc]) @ split_ws [] (drop (ws_len s) s))"
  by pat_completeness auto
termination
proof (relation "measure (\<lambda>(_, s). length s)")
  fix acc :: string and s :: string and c rest
  assume "s = c # rest" "ws_len s \<noteq> 0"
  then show "(([], drop (ws_len s) s), acc, s) \<in> measure (\<lambda>(_, s). length s)"
    by (cases "ws_len (c # rest)") simp_all
qed simp_all

declare split_ws.simps [simp del]

definition split_whitespace :: "string \<Rightarrow> string list" where
  "split_whitespace s = split_ws [] s"

text \<open>\<open>chars().take(n)\<close>: a character is a byte that is no continuation byte, and those after it.\<close>

definition continuation :: "char \<Rightarrow> bool" where
  "continuation c \<longleftrightarrow> 128 \<le> (of_char c :: nat) \<and> of_char c < (192 :: nat)"

fun take_chars :: "nat \<Rightarrow> string \<Rightarrow> string" where
  "take_chars n [] = []"
| "take_chars n (c # s) =
     (if continuation c then c # take_chars n s
      else (case n of 0 \<Rightarrow> [] | Suc m \<Rightarrow> c # take_chars m s))"

definition char_count :: "string \<Rightarrow> nat" where
  "char_count s = length (filter (\<lambda>c. \<not> continuation c) s)"

subsection \<open>The message\<close>

definition MAX_WRAP_CONTENT :: nat where "MAX_WRAP_CONTENT = 64 * 1024"
definition MAX_RUMOR_CONTENT :: nat where "MAX_RUMOR_CONTENT = 32 * 1024"
definition MAX_SLATEPACK :: nat where "MAX_SLATEPACK = 30 * 1024"
definition MAX_NOTE_CHARS :: nat where "MAX_NOTE_CHARS = 256"
definition GOBLIN_TAG :: string where "GOBLIN_TAG = ''goblin''"
definition PROTOCOL_VERSION :: string where "PROTOCOL_VERSION = ''1''"

definition PREAMBLE :: string where
  "PREAMBLE = ''[Goblin] GRIN payment message '' @ [CHR 0xE2, CHR 0x80, CHR 0x94] @
     '' open in Goblin (https://goblin.st) to process.''"

definition ARMOR_BEGIN :: string where "ARMOR_BEGIN = ''BEGINSLATEPACK.''"
definition ARMOR_END :: string where "ARMOR_END = ''ENDSLATEPACK.''"

definition sanitize_note :: "string \<Rightarrow> string option" where
  "sanitize_note raw =
     (let trimmed = trim (join '' '' (split_whitespace (blank_controls raw)))
      in if trimmed = [] then None else Some (take_chars MAX_NOTE_CHARS trimmed))"

definition build_payment_content :: "string \<Rightarrow> string" where
  "build_payment_content pack = PREAMBLE @ [CHR 0x0A, CHR 0x0A] @ trim pack"

definition build_rumor_tags :: "string option \<Rightarrow> string list list" where
  "build_rumor_tags note =
     [GOBLIN_TAG, PROTOCOL_VERSION] #
     (case note of
        None \<Rightarrow> []
      | Some n \<Rightarrow> (case sanitize_note n of None \<Rightarrow> [] | Some v \<Rightarrow> [[''subject'', v]]))"

definition extract_slatepack :: "string \<Rightarrow> string option" where
  "extract_slatepack content =
     (if MAX_RUMOR_CONTENT < length content then None
      else (case find_sub ARMOR_BEGIN content of
              None \<Rightarrow> None
            | Some start \<Rightarrow>
                (case find_sub ARMOR_END (drop start content) of
                   None \<Rightarrow> None
                 | Some end_rel \<Rightarrow>
                     let fin = start + end_rel + length ARMOR_END;
                         rest = drop fin content;
                         armor = trim (take (fin - start) (drop start content))
                     in if (case find_sub ARMOR_BEGIN rest of
                              None \<Rightarrow> False
                            | Some next_start \<Rightarrow> contains ARMOR_END (drop next_start rest)) then None
                        else if MAX_SLATEPACK < length armor then None
                        else Some armor)))"

fun extract_subject :: "string list list \<Rightarrow> string option" where
  "extract_subject [] = None"
| "extract_subject (parts # tags) =
     (case parts of
        k # v # _ \<Rightarrow> (if k = ''subject'' then sanitize_note v else extract_subject tags)
      | _ \<Rightarrow> extract_subject tags)"

subsection \<open>Finding the block\<close>

lemma find_sub_le:
  assumes "starts_with pat (drop i s)" "i \<le> length s"
  shows "\<exists>k \<le> i. find_sub pat s = Some k"
proof (cases "find_sub pat s")
  case None
  with assms show ?thesis by (simp add: find_sub_None)
next
  case (Some k)
  from find_sub_Some [OF Some] assms(1) have "k \<le> i" by (meson not_le)
  with Some show ?thesis by blast
qed

lemma find_sub_head_free:
  assumes "pat = c # p" "c \<notin> set u"
  shows "find_sub pat (u @ s) = map_option (\<lambda>i. length u + i) (find_sub pat s)"
proof (rule find_sub_skip)
  fix j assume j: "j < length u"
  then have "drop j (u @ s) = u ! j # drop (Suc j) u @ s" by (simp add: Cons_nth_drop_Suc)
  moreover have "u ! j \<noteq> c" using assms(2) j nth_mem by metis
  ultimately show "\<not> starts_with pat (drop j (u @ s))" by (simp add: assms(1) starts_with_def)
qed

lemma starts_with_length: "starts_with pat s \<Longrightarrow> length pat \<le> length s"
  by (metis length_append le_add1 starts_with_iff)

text \<open>A string that begins and ends with a visible character is its own trimmed form.\<close>

lemma trim_block:
  assumes "starts_with (c # p) s" "ends_with (q @ [d]) s"
    and "of_char c < (128 :: nat)" "\<not> ws1 c" "of_char d < (128 :: nat)" "\<not> ws1 d"
  shows "trim s = s"
proof -
  obtain t where s: "s = c # t" using assms(1) by (auto simp: starts_with_iff)
  obtain u where u: "s = u @ [d]" using assms(2) by (auto simp: ends_with_iff)
  have "ws_len s = 0" unfolding s using ws_len_ascii(1) [OF assms(3,4)] .
  moreover have "ws_len_rev (rev s) = 0" unfolding u using ws_len_ascii(2) [OF assms(5,6)] by simp
  ultimately show ?thesis by (rule trim_id)
qed

definition is_block :: "string \<Rightarrow> bool" where
  "is_block a \<longleftrightarrow> starts_with ARMOR_BEGIN a \<and> find_sub ARMOR_END a = Some (length a - length ARMOR_END)"

lemma is_block_ends:
  assumes "is_block a"
  shows "ends_with ARMOR_END a"
proof -
  let ?i = "length a - length ARMOR_END"
  have "starts_with ARMOR_END (drop ?i a)" using assms find_sub_Some unfolding is_block_def by blast
  then obtain t where t: "drop ?i a = ARMOR_END @ t" by (auto simp: starts_with_iff)
  have "length (drop ?i a) \<le> length ARMOR_END" unfolding length_drop by linarith
  then have "t = []" unfolding t length_append by simp
  then have "a = take ?i a @ ARMOR_END" using t by (metis append_Nil2 append_take_drop_id)
  then show ?thesis unfolding ends_with_iff by blast
qed

lemma trim_is_block: "is_block a \<Longrightarrow> trim a = a"
  using trim_block [of "CHR ''B''" "''EGINSLATEPACK.''" a "''ENDSLATEPACK''" "CHR ''.''"] is_block_ends [of a]
  by (simp add: is_block_def ARMOR_BEGIN_def ARMOR_END_def ws1_def)

lemma starts_with_prefix: "starts_with pat s \<Longrightarrow> starts_with pat (s @ t)"
  by (auto simp: starts_with_iff)

lemma find_sub_prefix:
  assumes "find_sub pat (s @ t) = Some k" "k + length pat \<le> length s"
  shows "find_sub pat s = Some k"
proof -
  note k = find_sub_Some [OF assms(1)]
  have "starts_with pat (drop k s @ drop (k - length s) t)" using k by simp
  then have "starts_with pat (drop k s)" using assms(2) by (simp add: starts_with_def)
  then obtain k' where k': "k' \<le> k" "find_sub pat s = Some k'" using find_sub_le [of pat k s] assms(2) by auto
  have "starts_with pat (drop k' s @ drop (k' - length s) t)"
    using find_sub_Some [OF k'(2)] by (intro starts_with_prefix) simp
  then have "\<not> k' < k" using k by auto
  with k' show ?thesis by simp
qed

text \<open>The end mark cannot overlap the begin mark.\<close>

lemma find_end_after_begin:
  "find_sub ARMOR_END (ARMOR_BEGIN @ t) = map_option (\<lambda>k. length ARMOR_BEGIN + k) (find_sub ARMOR_END t)"
  by (cases "find_sub ARMOR_END t") (simp_all add: ARMOR_END_def ARMOR_BEGIN_def starts_with_def)

lemma first_block:
  assumes "starts_with ARMOR_BEGIN s" "find_sub ARMOR_END s = Some k"
  shows "is_block (take (k + length ARMOR_END) s)"
proof -
  let ?a = "take (k + length ARMOR_END) s"
  obtain t where t: "s = ARMOR_BEGIN @ t" using assms(1) by (auto simp: starts_with_iff)
  then have k: "length ARMOR_BEGIN \<le> k" using assms(2) find_end_after_begin [of t] by auto
  have len: "k + length ARMOR_END \<le> length s"
    using find_sub_Some [OF assms(2)] starts_with_length [of ARMOR_END "drop k s"] by auto
  have "find_sub ARMOR_END (?a @ drop (k + length ARMOR_END) s) = Some k" using assms(2) by simp
  then have "find_sub ARMOR_END ?a = Some k" by (rule find_sub_prefix) (use len in simp)
  moreover have "starts_with ARMOR_BEGIN ?a" using k t by (simp add: starts_with_def)
  ultimately show ?thesis using len by (simp add: is_block_def)
qed

lemma extract_shape:
  assumes "extract_slatepack content = Some a"
  shows "is_block a \<and> length a \<le> MAX_SLATEPACK \<and> (\<exists>u v. content = u @ a @ v)"
proof -
  obtain i where i: "find_sub ARMOR_BEGIN content = Some i"
    using assms by (auto simp: extract_slatepack_def split: if_splits option.splits)
  obtain k where k: "find_sub ARMOR_END (drop i content) = Some k"
    using assms i by (auto simp: extract_slatepack_def split: if_splits option.splits)
  let ?b = "take (k + length ARMOR_END) (drop i content)"
  have b: "is_block ?b" using first_block [OF _ k] find_sub_Some [OF i] by blast
  have "trim ?b = a \<and> length a \<le> MAX_SLATEPACK"
    using assms i k by (auto simp: extract_slatepack_def Let_def add.assoc split: if_splits option.splits)
  then have a: "a = ?b" "length a \<le> MAX_SLATEPACK" using trim_is_block [OF b] by auto
  have "content = take i content @ ?b @ drop (k + length ARMOR_END) (drop i content)"
    by (metis append_take_drop_id)
  with a b show ?thesis by blast
qed

text \<open>C28: what a payer's message hands to the wallet is exactly one slatepack: a contiguous part of the
  message from the first begin mark to the first end mark after it, of at most 30 KiB; a message
  that holds a second complete block is refused.\<close>

theorem extracted_block_unique:
  assumes "extract_slatepack content = Some a"
  shows "is_block a \<and> length a \<le> MAX_SLATEPACK \<and> (\<exists>u v. content = u @ a @ v) \<and>
    (\<nexists>i j k l. i + length ARMOR_BEGIN \<le> j \<and> j + length ARMOR_END \<le> k \<and> k + length ARMOR_BEGIN \<le> l \<and>
       l \<le> length content \<and>
       starts_with ARMOR_BEGIN (drop i content) \<and> starts_with ARMOR_END (drop j content) \<and>
       starts_with ARMOR_BEGIN (drop k content) \<and> starts_with ARMOR_END (drop l content))"
proof (intro conjI notI)
  show "is_block a" "length a \<le> MAX_SLATEPACK" "\<exists>u v. content = u @ a @ v"
    using extract_shape [OF assms] by blast+
next
  assume "\<exists>i j k l. i + length ARMOR_BEGIN \<le> j \<and> j + length ARMOR_END \<le> k \<and> k + length ARMOR_BEGIN \<le> l \<and>
       l \<le> length content \<and>
       starts_with ARMOR_BEGIN (drop i content) \<and> starts_with ARMOR_END (drop j content) \<and>
       starts_with ARMOR_BEGIN (drop k content) \<and> starts_with ARMOR_END (drop l content)"
  then obtain i j k l where le: "i \<le> j" "j + length ARMOR_END \<le> k" "k \<le> l" "l \<le> length content"
    and at: "starts_with ARMOR_BEGIN (drop i content)" "starts_with ARMOR_END (drop j content)"
      "starts_with ARMOR_BEGIN (drop k content)" "starts_with ARMOR_END (drop l content)"
    by (blast dest: add_leD1)
  obtain s where s: "s \<le> i" "find_sub ARMOR_BEGIN content = Some s"
    using find_sub_le [OF at(1)] le by auto
  obtain e where e: "e \<le> j - s" "find_sub ARMOR_END (drop s content) = Some e"
  proof -
    have "starts_with ARMOR_END (drop (j - s) (drop s content))" "j - s \<le> length (drop s content)"
      using at(2) le s(1) by simp_all
    then show ?thesis using find_sub_le that by blast
  qed
  let ?f = "s + e + length ARMOR_END"
  have f: "?f \<le> k" using e(1) s(1) le by linarith
  obtain n where n: "n \<le> k - ?f" "find_sub ARMOR_BEGIN (drop ?f content) = Some n"
  proof -
    have "starts_with ARMOR_BEGIN (drop (k - ?f) (drop ?f content))" "k - ?f \<le> length (drop ?f content)"
      using at(3) f le by simp_all
    then show ?thesis using find_sub_le that by blast
  qed
  have "starts_with ARMOR_END (drop (l - ?f - n) (drop n (drop ?f content)))"
    using at(4) n(1) f le by (simp add: add.commute add.left_commute)
  then have "contains ARMOR_END (drop n (drop ?f content))"
    unfolding contains_def find_sub_None using le f n(1) by (metis (no_types, lifting) diff_le_mono length_drop)
  then show False using assms s(2) e(2) n(2)
    by (simp add: extract_slatepack_def Let_def split: if_splits)
qed

theorem extracted_block_unique_witness:
  "is_block ''BEGINSLATEPACK. ab. ENDSLATEPACK.''"
proof -
  have "MAX_RUMOR_CONTENT = 32768" "MAX_SLATEPACK = 30720" by (simp_all add: MAX_RUMOR_CONTENT_def MAX_SLATEPACK_def)
  moreover have "find_sub ARMOR_BEGIN ''hi BEGINSLATEPACK. ab. ENDSLATEPACK. bye'' = Some 3"
    "find_sub ARMOR_END ''BEGINSLATEPACK. ab. ENDSLATEPACK. bye'' = Some 20"
    "find_sub ARMOR_BEGIN '' bye'' = None"
    "trim ''BEGINSLATEPACK. ab. ENDSLATEPACK.'' = ''BEGINSLATEPACK. ab. ENDSLATEPACK.''" by code_simp+
  ultimately have "extract_slatepack ''hi BEGINSLATEPACK. ab. ENDSLATEPACK. bye'' =
      Some ''BEGINSLATEPACK. ab. ENDSLATEPACK.''"
    by (simp add: extract_slatepack_def ARMOR_END_def [symmetric]) (simp add: ARMOR_END_def)
  from extracted_block_unique [OF this] show ?thesis by blast
qed

subsection \<open>Round trip\<close>

lemma preamble_free: "CHR ''B'' \<notin> set (PREAMBLE @ [CHR 0x0A, CHR 0x0A])"
  by code_simp

lemma preamble_length: "length (PREAMBLE @ [CHR 0x0A, CHR 0x0A]) \<le> 2048"
  by (simp add: PREAMBLE_def)

text \<open>Extracting from a built payment message gives back the slatepack, without the blanks around it.\<close>

lemma built_content_extracts:
  assumes "is_block a" "length a \<le> MAX_SLATEPACK" "trim p = a"
  shows "extract_slatepack (build_payment_content p) = Some a"
proof -
  let ?pre = "PREAMBLE @ [CHR 0x0A, CHR 0x0A]"
  have c: "build_payment_content p = ?pre @ a" using assms(3) by (simp add: build_payment_content_def)
  have "find_sub ARMOR_BEGIN a = Some 0" using assms(1) find_sub_le [of ARMOR_BEGIN 0 a] by (simp add: is_block_def)
  moreover have "find_sub ARMOR_BEGIN (?pre @ a) = map_option (\<lambda>i. length ?pre + i) (find_sub ARMOR_BEGIN a)"
    by (rule find_sub_head_free [OF _ preamble_free]) (simp add: ARMOR_BEGIN_def)
  ultimately have start: "find_sub ARMOR_BEGIN (?pre @ a) = Some (length ?pre)" by simp
  have len: "length ARMOR_END \<le> length a" using is_block_ends [OF assms(1)] by (auto simp: ends_with_iff)
  have fin: "find_sub ARMOR_END a = Some (length a - length ARMOR_END)" using assms(1) by (simp add: is_block_def)
  have small: "\<not> MAX_RUMOR_CONTENT < length (?pre @ a)"
    using assms(2) preamble_length unfolding MAX_RUMOR_CONTENT_def MAX_SLATEPACK_def length_append by linarith
  have "find_sub ARMOR_BEGIN [] = None" by (simp add: ARMOR_BEGIN_def)
  then show ?thesis
    unfolding c extract_slatepack_def using small start fin len assms(2) trim_is_block [OF assms(1)]
    by (simp add: Let_def)
qed

subsection \<open>Notes\<close>

lemma blank_controls_plain: "c \<in> set (blank_controls s) \<Longrightarrow> \<not> ctl1 c"
  by (induction s rule: blank_controls.induct) (auto simp: ctl1_def split: if_splits)

lemma split_ws_bytes: "w \<in> set (split_ws acc s) \<Longrightarrow> set w \<subseteq> set acc \<union> set s"
proof (induction acc s arbitrary: w rule: split_ws.induct)
  case (1 acc s)
  show ?case
  proof (cases s)
    case Nil
    with "1.prems" show ?thesis by (auto simp: split_ws.simps [of acc "[]"] split: if_splits)
  next
    case (Cons c rest)
    show ?thesis
    proof (cases "ws_len s = 0")
      case True
      with "1.prems" Cons have "w \<in> set (split_ws (c # acc) rest)" by (simp add: split_ws.simps [of acc "c # rest"])
      with "1.IH"(1) [OF Cons True] Cons show ?thesis by auto
    next
      case False
      with "1.prems" Cons have "w = rev acc \<or> w \<in> set (split_ws [] (drop (ws_len s) s))"
        by (auto simp: split_ws.simps [of acc "c # rest"] split: if_splits)
      with "1.IH"(2) [OF Cons False] show ?thesis by (auto dest: in_set_dropD)
    qed
  qed
qed

lemma take_chars_count: "char_count (take_chars n s) \<le> n"
  by (induction n s rule: take_chars.induct) (auto simp: char_count_def split: nat.splits)

lemma take_chars_bytes: "set (take_chars n s) \<subseteq> set s"
  by (induction n s rule: take_chars.induct) (auto split: nat.splits if_splits)

lemma trim_start_bytes: "set (trim_start s) \<subseteq> set s"
proof (induction s rule: trim_start.induct)
  case (1 s)
  then show ?case
    by (cases "ws_len s = 0") (auto simp: trim_start.simps [of s] dest: in_set_dropD)
qed

lemma trim_bytes: "set (trim s) \<subseteq> set s"
  using trim_end_prefix [of "trim_start s"] trim_start_bytes [of s]
  unfolding trim_def by (metis Un_iff set_append subset_iff)

lemma join_bytes: "set (join sep ws) \<subseteq> set sep \<union> \<Union> (set (map set ws))"
  by (cases ws) (auto simp: join_def)

text \<open>A payer's note can break neither the log nor the page: what is kept of it is not empty, has
  at most 256 characters and no ASCII control character.\<close>

lemma note_sanitized:
  assumes "sanitize_note raw = Some v"
  shows "v \<noteq> [] \<and> char_count v \<le> 256 \<and> (\<forall>c \<in> set v. 32 \<le> (of_char c :: nat) \<and> c \<noteq> CHR 0x7F)"
proof -
  let ?t = "trim (join '' '' (split_whitespace (blank_controls raw)))"
  have v: "?t \<noteq> []" "v = take_chars 256 ?t"
    using assms by (auto simp: sanitize_note_def Let_def MAX_NOTE_CHARS_def split: if_splits)
  have "v \<noteq> []" using v by (cases ?t) (auto simp: numeral_eq_Suc)
  moreover have "\<not> ctl1 c" if "c \<in> set v" for c
  proof -
    have "c \<in> set (join '' '' (split_whitespace (blank_controls raw)))"
      using that take_chars_bytes trim_bytes v(2) by blast
    then have "c = CHR '' '' \<or> c \<in> set (blank_controls raw)"
      using join_bytes [of "'' ''" "split_whitespace (blank_controls raw)"] split_ws_bytes [of _ "[]"]
      unfolding split_whitespace_def by fastforce
    then show ?thesis using blank_controls_plain by (auto simp: ctl1_def)
  qed
  ultimately show ?thesis using take_chars_count v(2) by (auto simp: ctl1_def not_less)
qed

end
