(* ===== verification/Ingest.thy ===== *)
theory Ingest
  imports Protocol "HOL-Library.AList"
begin

text \<open>
  \<open>crates/gp-nostr/src/ingest.rs\<close> and the seams of \<open>lib.rs\<close>: the guarded pipeline for one
  incoming gift wrap (size cap, dedupe, global and per-sender rate limits, identity lookup,
  unwrap, policy, handoff to the wallet). Key pairs are of type \<open>'k\<close>, the wallet side has state
  \<open>'r\<close>; unwrapping (nostr-sdk) gives the seal-verified sender and the rumor.
\<close>

subsection \<open>Data\<close>

record event =
  ev_id :: string
  ev_pubkey :: string
  ev_created_at :: int
  ev_kind :: nat
  ev_tags :: "string list list"
  ev_content :: string
  ev_sig :: string

definition ev_is_gift_wrap :: "event \<Rightarrow> bool" where
  "ev_is_gift_wrap ev \<longleftrightarrow> ev_kind ev = 1059"

text \<open>\<open>UnsignedEvent\<close>; \<open>rm_id\<close> is the id it carries, if any.\<close>

record rumor =
  rm_id :: "string option"
  rm_pubkey :: string
  rm_created_at :: int
  rm_kind :: nat
  rm_tags :: "string list list"
  rm_content :: string

definition rm_is_dm :: "rumor \<Rightarrow> bool" where
  "rm_is_dm r \<longleftrightarrow> rm_kind r = 14"

record unwrapped =
  uw_sender :: string
  uw_rumor :: rumor

record received_payment =
  rp_slate_id :: string
  rp_amount :: u64
  rp_s2_armor :: string

record unreplied_payment =
  up_slate_id :: string
  up_payer_hex :: string
  up_s2_armor :: string
  up_recipient_hex :: string

record incoming_context =
  ic_payer_hex :: string
  ic_recipient_hex :: string
  ic_memo :: "string option"

datatype receive_error = DuplicateSlate | RejectedSlate string | FailedReceive string

definition show_receive_error :: "receive_error \<Rightarrow> string" where
  "show_receive_error e =
     (case e of
        DuplicateSlate \<Rightarrow> ''slate already received''
      | RejectedSlate m \<Rightarrow> ''slatepack rejected: '' @ m
      | FailedReceive m \<Rightarrow> ''receive failed: '' @ m)"

subsection \<open>Policy\<close>

datatype ingest_decision = AutoReceive | DropMsg string

record ingest_context =
  cx_sender :: string
  cx_is_self :: bool
  cx_rumor_is_dm :: bool
  cx_has_slatepack :: bool
  cx_duplicate :: bool

definition decide :: "ingest_context \<Rightarrow> ingest_decision" where
  "decide c =
     (if cx_duplicate c then DropMsg ''already processed''
      else if cx_is_self c then DropMsg ''own message''
      else if \<not> cx_rumor_is_dm c then DropMsg ''not a kind 14 DM''
      else if \<not> cx_has_slatepack c then DropMsg ''no slatepack payload''
      else AutoReceive)"

subsection \<open>Rate limits\<close>

definition RATE_PER_SENDER_PER_HOUR :: nat where "RATE_PER_SENDER_PER_HOUR = 10"
definition GLOBAL_UNWRAP_PER_MIN :: nat where "GLOBAL_UNWRAP_PER_MIN = 120"
definition RATE_MAP_CAP :: nat where "RATE_MAP_CAP = 10000"

definition GLOBAL_KEY :: string where "GLOBAL_KEY = CHR 0x00 # ''global''"

text \<open>The limiter's map, as an association list with distinct keys.\<close>

type_synonym rate_map = "(string \<times> int list) list"

definition hits_of :: "string \<Rightarrow> rate_map \<Rightarrow> int list" where
  "hits_of k m = (case map_of m k of Some h \<Rightarrow> h | None \<Rightarrow> [])"

definition put_hits :: "string \<Rightarrow> int list \<Rightarrow> rate_map \<Rightarrow> rate_map" where
  "put_hits k h m = AList.update k h m"

definition allow_sender :: "int \<Rightarrow> string \<Rightarrow> rate_map \<Rightarrow> bool \<times> rate_map" where
  "allow_sender now sender m =
     (let hits = filter (\<lambda>t. now - t < 3600) (hits_of sender m) in
      if RATE_PER_SENDER_PER_HOUR \<le> length hits then (False, put_hits sender hits m)
      else
        let m' = put_hits sender (hits @ [now]) m in
        (True, if RATE_MAP_CAP < length m'
               then filter (\<lambda>(_, v). \<exists>t \<in> set v. now - t < 3600) m' else m'))"

definition allow_global_unwrap :: "int \<Rightarrow> rate_map \<Rightarrow> bool \<times> rate_map" where
  "allow_global_unwrap now m =
     (let hits = filter (\<lambda>t. now - t < 60) (hits_of GLOBAL_KEY m) in
      if GLOBAL_UNWRAP_PER_MIN \<le> length hits then (False, put_hits GLOBAL_KEY hits m)
      else (True, put_hits GLOBAL_KEY (hits @ [now]) m))"

subsection \<open>The pipeline\<close>

record 'k pending_reply =
  rep_from :: 'k
  rep_payer :: string
  rep_content :: string
  rep_tags :: "string list list"

datatype 'k ingest_outcome =
    ReceivedWrap string u64 "'k pending_reply"
  | DroppedWrap string
  | RateLimited
  | FailedWrap string

record 'r ingest_state =
  seen :: "string set"
  rate :: rate_map
  rx :: 'r

definition mark :: "string list \<Rightarrow> 'r ingest_state \<Rightarrow> 'r ingest_state" where
  "mark ks s = s\<lparr>seen := seen s \<union> set ks\<rparr>"

text \<open>
  What the pipeline is built over: key lookup, public keys, unwrapping, the hash of an event
  (nostr-sdk's \<open>EventId\<close>), the wallet handoff.
\<close>

record ('k, 'r) ingest_env =
  ie_master_hex :: string
  ie_resolve :: "string \<Rightarrow> 'k option"
  ie_pub_hex :: "'k \<Rightarrow> string"
  ie_unwrap :: "'k \<Rightarrow> event \<Rightarrow> unwrapped option"
  ie_event_id :: "rumor \<Rightarrow> string"
  ie_receive :: "string \<Rightarrow> incoming_context \<Rightarrow> 'r \<Rightarrow> (receive_error + received_payment) \<times> 'r"

text \<open>\<open>UnsignedEvent::id\<close>.\<close>

definition rumor_id :: "('k, 'r) ingest_env \<Rightarrow> rumor \<Rightarrow> string" where
  "rumor_id env r = (case rm_id r of Some i \<Rightarrow> i | None \<Rightarrow> ie_event_id env r)"

definition build_reply :: "'k \<Rightarrow> string \<Rightarrow> string \<Rightarrow> 'k pending_reply" where
  "build_reply k payer_hex armor =
     \<lparr>rep_from = k, rep_payer = payer_hex, rep_content = build_payment_content armor,
      rep_tags = build_rumor_tags None @ [[''p'', payer_hex]]\<rparr>"

fun find_p_tag :: "string list list \<Rightarrow> string option" where
  "find_p_tag [] = None"
| "find_p_tag (parts # tags) =
     (case parts of k # v # _ \<Rightarrow> if k = ''p'' then Some v else find_p_tag tags | _ \<Rightarrow> find_p_tag tags)"

text \<open>Steps 4 to 6, for an unwrapped message; \<open>now\<close> is the clock at the sender limit.\<close>

definition handle_rumor ::
  "('k, 'r) ingest_env \<Rightarrow> int \<Rightarrow> string \<Rightarrow> 'k \<Rightarrow> unwrapped \<Rightarrow> 'r ingest_state \<Rightarrow> 'k ingest_outcome \<times> 'r ingest_state" where
  "handle_rumor env now wid key u s =
     (let r = uw_rumor u; armor = extract_slatepack (rm_content r);
          ids = [wid, rumor_id env r]
      in case decide \<lparr>cx_sender = uw_sender u, cx_is_self = (uw_sender u = ie_master_hex env),
                      cx_rumor_is_dm = (rm_is_dm r \<and> length (rm_content r) \<le> MAX_RUMOR_CONTENT),
                      cx_has_slatepack = (armor \<noteq> None), cx_duplicate = (rumor_id env r \<in> seen s)\<rparr> of
           DropMsg reason \<Rightarrow> (DroppedWrap reason, mark ids s)
         | AutoReceive \<Rightarrow>
             (case allow_sender now (uw_sender u) (rate s) of
                (False, m) \<Rightarrow> (RateLimited, s\<lparr>rate := m\<rparr>)
              | (True, m) \<Rightarrow>
                  let s1 = s\<lparr>rate := m\<rparr> in
                  (case ie_receive env (the armor)
                          \<lparr>ic_payer_hex = uw_sender u, ic_recipient_hex = ie_pub_hex env key,
                           ic_memo = extract_subject (rm_tags r)\<rparr> (rx s1) of
                     (Inr p, r') \<Rightarrow>
                       (ReceivedWrap (rp_slate_id p) (rp_amount p) (build_reply key (uw_sender u) (rp_s2_armor p)),
                        mark (ids @ [''slate:'' @ rp_slate_id p]) (s1\<lparr>rx := r'\<rparr>))
                   | (Inl DuplicateSlate, r') \<Rightarrow> (DroppedWrap ''slate already received'', mark ids (s1\<lparr>rx := r'\<rparr>))
                   | (Inl (RejectedSlate _), r') \<Rightarrow> (DroppedWrap ''invalid slatepack'', mark ids (s1\<lparr>rx := r'\<rparr>))
                   | (Inl (FailedReceive m), r') \<Rightarrow> (FailedWrap m, s1\<lparr>rx := r'\<rparr>))))"

text \<open>The whole pipeline; \<open>now1\<close> is the clock at the global limit, \<open>now2\<close> at the sender limit.\<close>

definition handle_wrap ::
  "('k, 'r) ingest_env \<Rightarrow> int \<Rightarrow> int \<Rightarrow> event \<Rightarrow> 'r ingest_state \<Rightarrow> 'k ingest_outcome \<times> 'r ingest_state" where
  "handle_wrap env now1 now2 ev s =
     (if \<not> ev_is_gift_wrap ev then (DroppedWrap ''not a gift wrap'', s)
      else if MAX_WRAP_CONTENT < length (ev_content ev) then (DroppedWrap ''oversized wrap'', mark [ev_id ev] s)
      else if ev_id ev \<in> seen s then (DroppedWrap ''already processed'', s)
      else (case allow_global_unwrap now1 (rate s) of
              (False, m) \<Rightarrow> (RateLimited, s\<lparr>rate := m\<rparr>)
            | (True, m) \<Rightarrow>
                let s1 = s\<lparr>rate := m\<rparr> in
                (case Option.bind (find_p_tag (ev_tags ev)) (ie_resolve env) of
                   None \<Rightarrow> (DroppedWrap ''not a watched identity'', mark [ev_id ev] s1)
                 | Some key \<Rightarrow>
                     (case ie_unwrap env key ev of
                        None \<Rightarrow> (DroppedWrap ''unwrap failed'', mark [ev_id ev] s1)
                      | Some u \<Rightarrow> handle_rumor env now2 (ev_id ev) key u s1))))"

subsection \<open>Sliding windows\<close>

lemma hits_put [simp]: "hits_of k (put_hits k h m) = h"
  by (simp add: hits_of_def put_hits_def update_conv)

lemma hits_put_other: "k' \<noteq> k \<Longrightarrow> hits_of k' (put_hits k h m) = hits_of k' m"
  by (simp add: hits_of_def put_hits_def update_conv)

definition live :: "int \<Rightarrow> string \<Rightarrow> rate_map \<Rightarrow> int list" where
  "live now k m = filter (\<lambda>t. now - t < 3600) (hits_of k m)"

lemma distinct_put: "distinct (map fst m) \<Longrightarrow> distinct (map fst (put_hits k h m))"
  by (simp add: put_hits_def distinct_update)

lemma live_later: "now \<le> now' \<Longrightarrow> filter (\<lambda>t. now' - t < 3600) (live now k m) = live now' k m"
  by (auto simp: live_def intro: filter_cong)

lemma map_of_filter_key:
  "distinct (map fst m) \<Longrightarrow>
     map_of (filter (\<lambda>(_, v). P v) m) k = (case map_of m k of Some v \<Rightarrow> if P v then Some v else None | None \<Rightarrow> None)"
proof (induction m)
  case (Cons x m)
  obtain k' v where x: "x = (k', v)" by fastforce
  have "map_of m k' = None" using Cons.prems x by (simp add: map_of_eq_None_iff)
  with Cons x show ?case by auto
qed simp

text \<open>Pruning a full map forgets only entries whose window is empty.\<close>

lemma live_prune:
  assumes "distinct (map fst m)"
  shows "live now k (filter (\<lambda>(_, v). \<exists>t \<in> set v. now - t < 3600) m) = live now k m"
  by (auto simp: live_def hits_of_def map_of_filter_key [OF assms] filter_empty_conv split: option.splits)

lemma allow_sender_live:
  assumes "distinct (map fst m)" "allow_sender now s m = (b, m')"
  shows "distinct (map fst m') \<and>
    live now k m' = (if k = s \<and> b then live now k m @ [now] else live now k m) \<and>
    (b \<longleftrightarrow> length (live now s m) < 10)"
proof -
  let ?h = "live now s m"
  have full: "filter (\<lambda>t. now - t < 3600) (hits_of s m) = ?h" by (simp add: live_def)
  have same: "live now k (put_hits s h m) = (if k = s then filter (\<lambda>t. now - t < 3600) h else live now k m)" for h
    by (simp add: live_def hits_put_other)
  show ?thesis
  proof (cases "10 \<le> length ?h")
    case True
    then have "b = False" "m' = put_hits s ?h m"
      using assms(2) by (auto simp: allow_sender_def Let_def full RATE_PER_SENDER_PER_HOUR_def)
    with True distinct_put [OF assms(1)] same show ?thesis by (simp add: live_def)
  next
    case False
    let ?m = "put_hits s (?h @ [now]) m"
    have b: "b" "m' = ?m \<or> m' = filter (\<lambda>(_, v). \<exists>t \<in> set v. now - t < 3600) ?m"
      using assms(2) False by (auto simp: allow_sender_def Let_def full RATE_PER_SENDER_PER_HOUR_def split: if_splits)
    have d: "distinct (map fst ?m)" using distinct_put [OF assms(1)] .
    then have "distinct (map fst (filter P ?m))" for P by (rule distinct_map_filter)
    moreover have "live now k ?m = (if k = s then ?h @ [now] else live now k m)"
      using same [of "?h @ [now]"] by (simp add: live_def)
    ultimately show ?thesis using b False d live_prune [OF d, of now k] by auto
  qed
qed

text \<open>A run of limiter calls on one map: the accepted calls, newest last.\<close>

fun run_limiter :: "(int \<times> string) list \<Rightarrow> rate_map \<Rightarrow> (int \<times> string) list" where
  "run_limiter [] m = []"
| "run_limiter ((now, s) # cs) m =
     (case allow_sender now s m of (b, m') \<Rightarrow> (if b then [(now, s)] else []) @ run_limiter cs m')"

definition times_of :: "string \<Rightarrow> (int \<times> string) list \<Rightarrow> int list" where
  "times_of s cs = map fst (filter (\<lambda>c. snd c = s) cs)"

text \<open>No accepted call sees more than ten accepted calls, itself included, in its last hour.\<close>

definition spaced :: "int list \<Rightarrow> bool" where
  "spaced acc \<longleftrightarrow> (\<forall>ys t zs. acc = ys @ t # zs \<longrightarrow> length (filter (\<lambda>x. t - x < 3600) (ys @ [t])) \<le> 10)"

lemma spaced_snoc:
  assumes "spaced acc" "length (filter (\<lambda>x. t - x < 3600) acc) < 10"
  shows "spaced (acc @ [t])"
  unfolding spaced_def
proof (intro allI impI)
  fix ys u zs assume e: "acc @ [t] = ys @ u # zs"
  show "length (filter (\<lambda>x. u - x < 3600) (ys @ [u])) \<le> 10"
  proof (cases zs rule: rev_cases)
    case Nil
    with e assms(2) show ?thesis by simp
  next
    case (snoc zs' z)
    with e have "acc = ys @ u # zs'" by simp
    with assms(1) show ?thesis by (simp add: spaced_def)
  qed
qed

lemma run_limiter_spaced:
  assumes "distinct (map fst m)" "sorted (map fst cs)" "spaced acc"
    and "\<forall>c \<in> set cs. lo \<le> fst c" "\<And>now. lo \<le> now \<Longrightarrow> live now s m = filter (\<lambda>t. now - t < 3600) acc"
  shows "spaced (acc @ times_of s (run_limiter cs m))"
  using assms
proof (induction cs arbitrary: m acc lo)
  case Nil
  then show ?case by (simp add: times_of_def)
next
  case (Cons c cs)
  obtain now k where c: "c = (now, k)" by fastforce
  obtain b m' where a: "allow_sender now k m = (b, m')" by fastforce
  note l = allow_sender_live [OF Cons.prems(1) a]
  have lo: "lo \<le> now" using Cons.prems(4) c by simp
  let ?acc = "if k = s \<and> b then acc @ [now] else acc"
  have live_now: "live now s m = filter (\<lambda>t. now - t < 3600) acc" using Cons.prems(5) lo by simp
  have "spaced ?acc"
    using l live_now spaced_snoc [OF Cons.prems(3), of now] Cons.prems(3) by auto
  moreover have "live now' s m' = filter (\<lambda>t. now' - t < 3600) ?acc" if "now \<le> now'" for now'
  proof -
    have "live now' s m' = filter (\<lambda>t. now' - t < 3600) (live now s m')" using live_later [OF that] by simp
    also have "live now s m' = (if k = s \<and> b then live now s m @ [now] else live now s m)" using l by auto
    finally show ?thesis using live_now that by (auto intro: filter_cong)
  qed
  moreover have "sorted (map fst cs)" "\<forall>x \<in> set cs. now \<le> fst x" using Cons.prems(2) c by auto
  ultimately have "spaced (?acc @ times_of s (run_limiter cs m'))"
    using l by (intro Cons.IH [of m' ?acc now]) auto
  then show ?case using c a by (auto simp: times_of_def split: if_splits)
qed

lemma spaced_window:
  assumes "spaced acc" "sorted acc"
  shows "length (filter (\<lambda>t. from < t \<and> t \<le> from + 3600) acc) \<le> 10"
proof (cases "filter (\<lambda>t. from < t \<and> t \<le> from + 3600) acc = []")
  case True
  then show ?thesis by simp
next
  case False
  let ?P = "\<lambda>t. from < t \<and> t \<le> from + 3600"
  obtain ys t zs where e: "acc = ys @ t # zs" "?P t" "\<forall>z \<in> set zs. \<not> ?P z"
  proof -
    have "\<exists>x \<in> set acc. ?P x" using False by (auto simp: filter_empty_conv)
    from split_list_last_prop [OF this] show ?thesis using that by blast
  qed
  have "filter ?P acc = filter ?P (ys @ [t])" using e by (simp add: filter_empty_conv)
  moreover have "length (filter ?P (ys @ [t])) \<le> length (filter (\<lambda>x. t - x < 3600) (ys @ [t]))"
  proof -
    have "filter ?P (ys @ [t]) = filter ?P (filter (\<lambda>x. t - x < 3600) (ys @ [t]))"
      unfolding filter_filter using e(2) by (intro filter_cong) auto
    show ?thesis by (subst \<open>filter ?P (ys @ [t]) = _\<close>) (rule length_filter_le)
  qed
  moreover have "length (filter (\<lambda>x. t - x < 3600) (ys @ [t])) \<le> 10" using assms(1) e(1) by (auto simp: spaced_def)
  ultimately show ?thesis by simp
qed

lemma run_limiter_sorted: "sorted (map fst cs) \<Longrightarrow> sorted (times_of s (run_limiter cs m)) \<and>
    set (times_of s (run_limiter cs m)) \<subseteq> fst ` set cs"
proof (induction cs m rule: run_limiter.induct)
  case (2 now k cs m)
  obtain b m' where a: "allow_sender now k m = (b, m')" by fastforce
  with 2 have "sorted (times_of s (run_limiter cs m'))" "set (times_of s (run_limiter cs m')) \<subseteq> fst ` set cs"
    by auto
  moreover from this(2) 2(2) have "\<forall>x \<in> set (times_of s (run_limiter cs m')). now \<le> x" by auto
  moreover have "times_of s (run_limiter ((now, k) # cs) m) =
      (if b \<and> k = s then [now] else []) @ times_of s (run_limiter cs m')"
    using a by (simp add: times_of_def)
  ultimately show ?case by auto
qed (simp add: times_of_def)

text \<open>C25: no sender can flood the wallet: over any sequence of limiter decisions with a clock that does
  not run backwards, interleaved with any other senders and with the pruning of the map, at most ten
  messages of one sender are let through in any window of an hour.\<close>

theorem sender_rate_bounded:
  assumes "sorted (map fst cs)"
  shows "length (filter (\<lambda>t. from < t \<and> t \<le> from + 3600) (times_of s (run_limiter cs []))) \<le> 10"
proof -
  have "spaced ([] @ times_of s (run_limiter cs []))"
  proof (rule run_limiter_spaced [where lo = "Min (insert 0 (fst ` set cs))"])
    show "\<forall>c \<in> set cs. Min (insert 0 (fst ` set cs)) \<le> fst c" by auto
  qed (use assms in \<open>simp_all add: spaced_def live_def hits_of_def\<close>)
  then show ?thesis using spaced_window run_limiter_sorted [OF assms] by simp
qed

theorem sender_rate_bounded_witness:
  "length (filter (\<lambda>t. 0 < t \<and> t \<le> 0 + 3600) (times_of ''a'' (run_limiter (replicate 12 (5, ''a'')) []))) \<le> 10"
  by (rule sender_rate_bounded) (simp add: map_replicate)

lemma limiter_sample: "times_of ''a'' (run_limiter (replicate 12 (5, ''a'')) []) = replicate 10 5"
  by code_simp

subsection \<open>Each wrap is processed once\<close>

lemma handle_rumor_seen:
  assumes "handle_rumor env now wid key u s = (out, s')"
  shows "case out of
     ReceivedWrap sid _ _ \<Rightarrow> seen s' = seen s \<union> {wid, rumor_id env (uw_rumor u), ''slate:'' @ sid}
   | DroppedWrap _ \<Rightarrow> seen s' = seen s \<union> {wid, rumor_id env (uw_rumor u)}
   | _ \<Rightarrow> seen s' = seen s"
  using assms
  by (auto simp: handle_rumor_def Let_def mark_def
      split: ingest_decision.splits prod.splits bool.splits sum.splits receive_error.splits)

lemma handle_wrap_guards:
  assumes "handle_wrap env now1 now2 ev s = (out, s')" "case out of ReceivedWrap _ _ _ \<Rightarrow> True | _ \<Rightarrow> False"
  shows "ev_is_gift_wrap ev \<and> length (ev_content ev) \<le> MAX_WRAP_CONTENT \<and> ev_id ev \<notin> seen s"
  using assms by (auto simp: handle_wrap_def Let_def split: if_splits)

definition marks :: "string \<Rightarrow> 'r ingest_state \<Rightarrow> 'k ingest_outcome \<Rightarrow> 'r ingest_state \<Rightarrow> bool" where
  "marks wid s out s' \<longleftrightarrow>
     (case out of
        ReceivedWrap sid _ _ \<Rightarrow> wid \<in> seen s' \<and> ''slate:'' @ sid \<in> seen s'
      | DroppedWrap _ \<Rightarrow> wid \<in> seen s'
      | _ \<Rightarrow> seen s' = seen s)"

lemma handle_wrap_marks:
  assumes "handle_wrap env now1 now2 ev s = (out, s')" "ev_is_gift_wrap ev"
  shows "marks (ev_id ev) s out s'"
proof -
  have "marks (ev_id ev) s o' t" if "handle_rumor env now2 (ev_id ev) key u (s\<lparr>rate := m\<rparr>) = (o', t)" for key u m o' t
    using handle_rumor_seen [OF that] by (auto simp: marks_def split: ingest_outcome.splits)
  moreover have "marks (ev_id ev) s (DroppedWrap reason) (s''\<lparr>seen := insert (ev_id ev) ks\<rparr>)" for reason s'' ks
    by (simp add: marks_def)
  moreover have "marks (ev_id ev) s RateLimited (s\<lparr>rate := m\<rparr>)" "ev_id ev \<in> seen s \<Longrightarrow> marks (ev_id ev) s (DroppedWrap r) s" for m r
    by (simp_all add: marks_def)
  ultimately show ?thesis using assms
    by (auto simp: handle_wrap_def Let_def mark_def split: if_splits prod.splits bool.splits option.splits)
qed


definition sample_ingest :: "(string, string list) ingest_env" where
  "sample_ingest =
     \<lparr>ie_master_hex = ''m'', ie_resolve = (\<lambda>h. if h = ''m'' then Some h else None), ie_pub_hex = (\<lambda>k. k),
      ie_unwrap = (\<lambda>k e. Some \<lparr>uw_sender = ''alice'', uw_rumor = \<lparr>rm_id = Some ''r1'', rm_pubkey = ''alice'',
        rm_created_at = 4, rm_kind = 14, rm_tags = [], rm_content = ''BEGINSLATEPACK. 4H1qx. ENDSLATEPACK.''\<rparr>\<rparr>),
      ie_event_id = (\<lambda>_. []),
      ie_receive = (\<lambda>a c l. (Inr \<lparr>rp_slate_id = ''s1'', rp_amount = 700, rp_s2_armor = ''S2''\<rparr>, a # l))\<rparr>"

definition sample_event :: event where
  "sample_event = \<lparr>ev_id = ''e1'', ev_pubkey = ''x'', ev_created_at = 3, ev_kind = 1059, ev_tags = [[''p'', ''m'']],
     ev_content = ''...'', ev_sig = ''s''\<rparr>"

definition sample_armor :: string where
  "sample_armor = ''BEGINSLATEPACK. 4H1qx. ENDSLATEPACK.''"

lemma sample_extract: "extract_slatepack ''BEGINSLATEPACK. 4H1qx. ENDSLATEPACK.'' = Some sample_armor"
  by code_simp

lemma sample_limits: "\<exists>m. allow_global_unwrap 5 [] = (True, m) \<and> fst (allow_sender 5 ''alice'' m)"
  by (simp add: allow_global_unwrap_def allow_sender_def hits_of_def put_hits_def GLOBAL_UNWRAP_PER_MIN_def
      GLOBAL_KEY_def RATE_PER_SENDER_PER_HOUR_def Let_def)

lemma sample_wrap:
  "\<exists>rep s'. handle_wrap sample_ingest 5 5 sample_event \<lparr>seen = {}, rate = [], rx = []\<rparr> = (ReceivedWrap ''s1'' 700 rep, s') \<and>
     rx s' = [sample_armor]"
proof -
  obtain m1 where m1: "allow_global_unwrap 5 [] = (True, m1)" "fst (allow_sender 5 ''alice'' m1)"
    using sample_limits by blast
  then obtain m2 where m2: "allow_sender 5 ''alice'' m1 = (True, m2)" by (metis (full_types) prod.collapse)
  show ?thesis
    using m1(1) m2
    by (simp add: handle_wrap_def handle_rumor_def ev_is_gift_wrap_def rm_is_dm_def rumor_id_def sample_event_def sample_ingest_def sample_extract Let_def decide_def
        mark_def MAX_WRAP_CONTENT_def MAX_RUMOR_CONTENT_def)
qed


end
