(* ===== verification/InvoiceBook.thy ===== *)
theory InvoiceBook
  imports Invoice
begin

text \<open>
  What the invoice table promises. \<open>row_wf\<close> is the shape of a row in each state,
  \<open>evolves\<close> is how a row may change over time (the identifying and pricing columns never,
  the status only up the lifecycle order, the payment linkage never once made), and
  \<open>abs_book\<close> forgets everything but the phase of each invoice: the operations of
  \<open>Invoice\<close> implement the four operations of that abstract book.
\<close>

subsection \<open>Well-formed rows\<close>

definition row_wf :: "invoice \<Rightarrow> bool" where
  "row_wf i \<longleftrightarrow>
     inv_status i = status_str (status_of i) \<and>
     (paid_payment_id i \<noteq> None \<longleftrightarrow> status_of i = Paid \<or> status_of i = Confirmed) \<and>
     (paid_at i \<noteq> None \<longleftrightarrow> paid_payment_id i \<noteq> None) \<and>
     (inv_confirmed_at i \<noteq> None \<longleftrightarrow> status_of i = Confirmed) \<and>
     (rail i \<noteq> None \<longleftrightarrow> inv_slate_id i \<noteq> None)"

definition book_wf :: "invoice list \<Rightarrow> bool" where
  "book_wf is \<longleftrightarrow>
     distinct (map inv_id is) \<and> distinct (map token (filter (\<lambda>i. token i \<noteq> None) is)) \<and>
     (\<forall>i \<in> set is. row_wf i)"

lemma status_of_cases:
  assumes "row_wf i"
  obtains "inv_status i = ''open''" "status_of i = Open"
    | "inv_status i = ''paid''" "status_of i = Paid"
    | "inv_status i = ''confirmed''" "status_of i = Confirmed"
    | "inv_status i = ''expired''" "status_of i = Expired"
  using assms by (cases "status_of i") (auto simp: row_wf_def status_str_def)

lemma status_of_simps [row_simps]:
  "inv_status i = ''open'' \<Longrightarrow> status_of i = Open"
  "inv_status i = ''paid'' \<Longrightarrow> status_of i = Paid"
  "inv_status i = ''confirmed'' \<Longrightarrow> status_of i = Confirmed"
  "inv_status i = ''expired'' \<Longrightarrow> status_of i = Expired"
  by (simp_all add: status_of_def parse_status_def)

lemma row_wf_open: "row_wf i \<Longrightarrow> inv_status i = ''open'' \<Longrightarrow> row_wf (paid_row a i) \<and> row_wf (set_expired i)"
  by (auto simp: row_wf_def paid_row_def set_expired_def status_of_def parse_status_def status_str_def)

lemma row_wf_paid: "row_wf i \<Longrightarrow> inv_status i = ''paid'' \<Longrightarrow> row_wf (confirmed_row now i)"
  by (auto simp: row_wf_def confirmed_row_def status_of_def parse_status_def status_str_def)

lemma row_wf_attach:
  "row_wf i \<Longrightarrow> row_wf (i\<lparr>rail := Some r, inv_slate_id := Some s, slatepack := Some p\<rparr>)"
  by (simp add: row_wf_def status_of_def)

lemma row_wf_new: "row_wf (new_row shift cp rid tok now p mp dflt)"
  by (simp add: row_wf_def new_row_def status_of_def parse_status_def status_str_def Let_def
      split: prod.splits)

lemma book_wf_update:
  assumes "book_wf is"
    and "\<And>i. inv_id (f i) = inv_id i" "\<And>i. token (f i) = token i"
    and "\<And>i. i \<in> set is \<Longrightarrow> p i \<Longrightarrow> row_wf i \<Longrightarrow> row_wf (f i)"
  shows "book_wf (update_where p f is)"
proof -
  have "map token (filter (\<lambda>i. token i \<noteq> None) (update_where p f is)) =
        map token (filter (\<lambda>i. token i \<noteq> None) is)"
    using assms(3) by (induction "is") auto
  then show ?thesis
    using assms by (auto simp: book_wf_def map_update_where set_update_where)
qed

lemma book_wf_snoc:
  assumes "book_wf is" "row_wf r" "inv_id r \<notin> inv_id ` set is" "token r \<notin> token ` set is"
  shows "book_wf (is @ [r])"
  using assms by (auto simp: book_wf_def)

subsection \<open>Evolution of rows\<close>

definition fixed_columns :: "invoice \<Rightarrow> _" where
  "fixed_columns i =
     (inv_id i, order_ref i, expected_amount i, expiry i, inv_created_at i, token i, memo i,
      recipient_pubkey i, fiat_amount i, fiat_currency i, match_mode i, quote_rate i, quote_source i)"

definition evolves :: "invoice \<Rightarrow> invoice \<Rightarrow> bool" where
  "evolves i j \<longleftrightarrow>
     fixed_columns i = fixed_columns j \<and> status_of i \<le> status_of j \<and>
     (status_of i \<noteq> Open \<longrightarrow> paid_payment_id j = paid_payment_id i \<and> paid_at j = paid_at i) \<and>
     (status_of i = Confirmed \<longrightarrow> inv_confirmed_at j = inv_confirmed_at i)"

lemma evolves_refl [simp]: "evolves i i"
  by (simp add: evolves_def)

lemma evolves_trans: "evolves i j \<Longrightarrow> evolves j k \<Longrightarrow> evolves i k"
  unfolding evolves_def by (auto simp: status_order_defs)

text \<open>A table evolves row by row; rows are only ever appended.\<close>

definition book_evolves :: "invoice list \<Rightarrow> invoice list \<Rightarrow> bool" where
  "book_evolves is js \<longleftrightarrow> length is \<le> length js \<and> (\<forall>k < length is. evolves (is ! k) (js ! k))"

lemma book_evolves_refl [simp]: "book_evolves is is"
  by (simp add: book_evolves_def)

lemma book_evolves_trans: "book_evolves is js \<Longrightarrow> book_evolves js ks \<Longrightarrow> book_evolves is ks"
  unfolding book_evolves_def by (meson evolves_trans le_trans less_le_trans)

lemma book_evolves_update:
  assumes "\<And>i. i \<in> set is \<Longrightarrow> p i \<Longrightarrow> evolves i (f i)"
  shows "book_evolves is (update_where p f is)"
  using assms by (auto simp: book_evolves_def update_where_nth)

lemma book_evolves_snoc: "book_evolves is (is @ [r])"
  by (simp add: book_evolves_def nth_append)

lemma book_evolves_lookup:
  assumes "book_evolves is js" "distinct (map inv_id js)" "lookup_by inv_id iid is = Some i"
  shows "\<exists>j. lookup_by inv_id iid js = Some j \<and> evolves i j"
proof -
  from lookup_by_Some [OF assms(3)] obtain k where k: "k < length is" "is ! k = i" and id: "inv_id i = iid"
    by (metis in_set_conv_nth)
  with assms(1) have j: "evolves i (js ! k)" "k < length js" by (auto simp: book_evolves_def)
  then have "inv_id (js ! k) = iid" using id by (auto simp: evolves_def fixed_columns_def)
  then have "lookup_by inv_id iid js = Some (js ! k)"
    using lookup_by_distinct [OF assms(2), of "js ! k"] j(2) by auto
  with j(1) show ?thesis by blast
qed

lemma evolves_ops:
  "inv_status i = ''open'' \<Longrightarrow> evolves i (paid_row a i)"
  "inv_status i = ''open'' \<Longrightarrow> evolves i (set_expired i)"
  "inv_status i = ''paid'' \<Longrightarrow> evolves i (confirmed_row now i)"
  "evolves i (i\<lparr>rail := r, inv_slate_id := s, slatepack := p\<rparr>)"
  by (auto simp: evolves_def fixed_columns_def paid_row_def set_expired_def confirmed_row_def
      status_of_def parse_status_def status_order_defs)

subsection \<open>Every operation keeps the table well-formed and lets it evolve\<close>

definition good_step :: "'b db \<Rightarrow> 'b db \<Rightarrow> bool" where
  "good_step d d' \<longleftrightarrow> book_wf (invoices d) \<longrightarrow>
     book_wf (invoices d') \<and> book_evolves (invoices d) (invoices d')"

lemma good_step_refl [simp, intro]: "good_step d d"
  by (simp add: good_step_def)

lemma good_step_trans: "good_step d d' \<Longrightarrow> good_step d' d'' \<Longrightarrow> good_step d d''"
  unfolding good_step_def by (blast intro: book_evolves_trans)

lemma good_step_same: "invoices d' = invoices d \<Longrightarrow> good_step d d'"
  by (simp add: good_step_def)

lemma good_step_update:
  assumes "\<And>i. inv_id (f i) = inv_id i" "\<And>i. token (f i) = token i"
    and "\<And>i. p i \<Longrightarrow> row_wf i \<Longrightarrow> row_wf (f i)" "\<And>i. p i \<Longrightarrow> evolves i (f i)"
  shows "good_step d (d\<lparr>invoices := update_where p f (invoices d)\<rparr>)"
  unfolding good_step_def using assms by (simp add: book_wf_update book_evolves_update)

lemma good_step_expire:
  assumes "\<And>i. p i \<Longrightarrow> inv_status i = ''open''"
  shows "good_step d (d\<lparr>invoices := update_where p set_expired (invoices d)\<rparr>)"
  by (rule good_step_update)
     (auto simp: set_expired_def [of "_ :: invoice"] dest: assms
       intro: row_wf_open [THEN conjunct2, unfolded set_expired_def] evolves_ops(2) [unfolded set_expired_def])

lemma good_step_expire_if_due: "good_step d (expire_if_due_id now iid d)"
  unfolding expire_if_due_id_def by (rule good_step_expire) (simp add: due_at_def)

lemma good_step_get: "good_step d (snd (get now iid d))"
  by (simp add: get_def Let_def good_step_expire_if_due)

lemma good_step_get_by_token: "good_step d (snd (get_by_token now tok d))"
  unfolding get_by_token_def Let_def snd_conv by (rule good_step_expire) (simp add: due_at_def)

lemma good_step_expire_due: "good_step d (snd (expire_due now d))"
  unfolding expire_due_def snd_conv by (rule good_step_expire) (simp add: due_at_def)

lemma good_step_list: "good_step d (snd (list_invoices now limit d))"
  by (simp add: list_invoices_def Let_def good_step_expire_due)

lemma good_step_mark_paid: "good_step d (snd (mark_paid now iid payid d))"
  unfolding mark_paid_def snd_conv
  by (rule good_step_update)
     (auto intro: row_wf_open [THEN conjunct1, of _ "(now, payid)", unfolded paid_row_def, simplified]
       evolves_ops(1) [of _ "(now, payid)", unfolded paid_row_def, simplified])

lemma good_step_mark_confirmed: "good_step d (snd (mark_confirmed now iid d))"
  unfolding mark_confirmed_def snd_conv
  by (rule good_step_update)
     (auto intro: row_wf_paid [unfolded confirmed_row_def] evolves_ops(3) [unfolded confirmed_row_def])

lemma good_step_mark_expired: "good_step d (snd (mark_expired iid d))"
  unfolding mark_expired_def snd_conv by (rule good_step_expire) simp

lemma good_step_attach: "good_step d (attach_grin1 iid sid pack d)"
  unfolding attach_grin1_def
  by (rule good_step_update) (auto intro: row_wf_attach evolves_ops(4))

lemma good_step_create: "good_step d (snd (create shift cp rid tok now now' p mp dflt d))"
proof (cases "rid \<in> inv_id ` set (invoices d) \<or> Some tok \<in> token ` set (invoices d)")
  case True
  then show ?thesis by (simp add: create_def)
next
  case False
  let ?r = "new_row shift cp rid tok now p mp dflt"
  let ?d1 = "d\<lparr>invoices := invoices d @ [?r]\<rparr>"
  have ids: "inv_id ?r = rid" "token ?r = Some tok"
    by (simp_all add: new_row_def Let_def split: prod.splits)
  with False have "good_step d ?d1"
    by (simp add: good_step_def book_wf_snoc row_wf_new book_evolves_snoc)
  moreover have "good_step ?d1 (snd (get now' rid ?d1))" by (rule good_step_get)
  ultimately have "good_step d (snd (get now' rid ?d1))" by (rule good_step_trans)
  moreover have "snd (create shift cp rid tok now now' p mp dflt d) = snd (get now' rid ?d1)"
    using False by (simp add: create_def Let_def split: prod.splits option.splits)
  ultimately show ?thesis by simp
qed

lemmas good_steps =
  good_step_get good_step_get_by_token good_step_expire_due good_step_list good_step_mark_paid
  good_step_mark_confirmed good_step_mark_expired good_step_attach good_step_create

subsection \<open>The abstract invoice book\<close>

datatype phase = Awaiting | PaidBy string | SettledBy string | Lapsed

type_synonym book = "string \<rightharpoonup> phase"

definition abs_phase :: "invoice \<Rightarrow> phase" where
  "abs_phase i =
     (case status_of i of
        Open \<Rightarrow> Awaiting
      | Paid \<Rightarrow> PaidBy (the (paid_payment_id i))
      | Confirmed \<Rightarrow> SettledBy (the (paid_payment_id i))
      | Expired \<Rightarrow> Lapsed)"

definition abs_book :: "'b db \<Rightarrow> book" where
  "abs_book d = (\<lambda>iid. map_option abs_phase (lookup_by inv_id iid (invoices d)))"

definition book_pay :: "string \<Rightarrow> string \<Rightarrow> book \<Rightarrow> bool \<times> book" where
  "book_pay iid payid b = (if b iid = Some Awaiting then (True, b(iid \<mapsto> PaidBy payid)) else (False, b))"

definition book_settle :: "string \<Rightarrow> book \<Rightarrow> bool \<times> book" where
  "book_settle iid b =
     (case b iid of Some (PaidBy p) \<Rightarrow> (True, b(iid \<mapsto> SettledBy p)) | _ \<Rightarrow> (False, b))"

definition book_lapse :: "string \<Rightarrow> book \<Rightarrow> bool \<times> book" where
  "book_lapse iid b = (if b iid = Some Awaiting then (True, b(iid \<mapsto> Lapsed)) else (False, b))"

lemma abs_phase_paid_row: "abs_phase (paid_row a i) = PaidBy (snd a)"
  by (simp add: abs_phase_def paid_row_def status_of_def parse_status_def)

lemma abs_phase_confirmed_row: "abs_phase (confirmed_row now i) = SettledBy (the (paid_payment_id i))"
  by (simp add: abs_phase_def confirmed_row_def status_of_def parse_status_def)

lemma abs_phase_expired: "abs_phase (set_expired i) = Lapsed"
  by (simp add: abs_phase_def set_expired_def status_of_def parse_status_def)

lemma abs_phase_iff:
  assumes "row_wf i"
  shows "abs_phase i = Awaiting \<longleftrightarrow> inv_status i = ''open''"
    and "abs_phase i = PaidBy p \<longleftrightarrow> inv_status i = ''paid'' \<and> the (paid_payment_id i) = p"
  using assms by (auto simp: abs_phase_def elim: status_of_cases)

text \<open>An operation that satisfies the guarded contract, seen on the abstract book.\<close>

lemma abs_guarded:
  assumes g: "guarded_transition step upd source" and wf: "book_wf (invoices d)"
  shows "abs_book (snd (step a iid d)) =
           (if fst (step a iid d)
            then (abs_book d)(iid \<mapsto> abs_phase (upd a (the (lookup_by inv_id iid (invoices d)))))
            else abs_book d)"
    and "fst (step a iid d) \<longleftrightarrow>
           (\<exists>i. lookup_by inv_id iid (invoices d) = Some i \<and> inv_status i = source)"
proof -
  have dist: "distinct (map inv_id (invoices d))" using wf by (simp add: book_wf_def)
  show fired: "fst (step a iid d) \<longleftrightarrow>
       (\<exists>i. lookup_by inv_id iid (invoices d) = Some i \<and> inv_status i = source)"
    by (rule guarded_transition.fired_iff [OF g dist])
  show "abs_book (snd (step a iid d)) =
           (if fst (step a iid d)
            then (abs_book d)(iid \<mapsto> abs_phase (upd a (the (lookup_by inv_id iid (invoices d)))))
            else abs_book d)"
  proof (cases "fst (step a iid d)")
    case True
    with fired obtain i where i: "lookup_by inv_id iid (invoices d) = Some i" "inv_status i = source"
      by blast
    have "abs_book (snd (step a iid d)) k =
        ((abs_book d)(iid \<mapsto> abs_phase (upd a (the (lookup_by inv_id iid (invoices d)))))) k" for k
      using i guarded_transition.fires [OF g dist i, of a]
        guarded_transition.frame [OF g, of k iid a d]
      by (cases "k = iid") (simp_all add: abs_book_def)
    with True show ?thesis by auto
  next
    case False
    then have "step a iid d = (False, d)"
      using fired by (intro guarded_transition.idle [OF g dist]) auto
    then show ?thesis by simp
  qed
qed

lemma book_lookup:
  "book_wf (invoices d) \<Longrightarrow> lookup_by inv_id iid (invoices d) = Some i \<Longrightarrow>
   row_wf i \<and> abs_book d iid = Some (abs_phase i)"
  by (auto simp: abs_book_def book_wf_def dest: lookup_by_Some)

lemma abs_book_None: "lookup_by inv_id iid (invoices d) = None \<Longrightarrow> abs_book d iid = None"
  by (simp add: abs_book_def)

lemma mark_paid_refines:
  assumes "book_wf (invoices d)"
  shows "(fst (mark_paid now iid p d), abs_book (snd (mark_paid now iid p d))) = book_pay iid p (abs_book d)"
proof (cases "lookup_by inv_id iid (invoices d)")
  case None
  then show ?thesis
    using abs_guarded [OF paying.guarded_transition_axioms assms, of "(now, p)" iid]
    by (simp add: book_pay_def abs_book_None)
next
  case (Some i)
  then show ?thesis
    using abs_guarded [OF paying.guarded_transition_axioms assms, of "(now, p)" iid]
      book_lookup [OF assms Some] abs_phase_iff(1) [of i]
    by (simp add: book_pay_def abs_phase_paid_row)
qed

lemma mark_confirmed_refines:
  assumes "book_wf (invoices d)"
  shows "(fst (mark_confirmed now iid d), abs_book (snd (mark_confirmed now iid d))) = book_settle iid (abs_book d)"
proof (cases "lookup_by inv_id iid (invoices d)")
  case None
  then show ?thesis
    using abs_guarded [OF confirming.guarded_transition_axioms assms, of now iid]
    by (simp add: book_settle_def abs_book_None)
next
  case (Some i)
  note wf = book_lookup [OF assms Some]
  note step = abs_guarded [OF confirming.guarded_transition_axioms assms, of now iid]
  show ?thesis
  proof (cases "inv_status i = ''paid''")
    case True
    then have "abs_phase i = PaidBy (the (paid_payment_id i))" using wf abs_phase_iff(2) by blast
    with True Some wf step show ?thesis by (simp add: book_settle_def abs_phase_confirmed_row)
  next
    case False
    then have "abs_phase i \<noteq> PaidBy p" for p using wf abs_phase_iff(2) by blast
    then have "book_settle iid (abs_book d) = (False, abs_book d)"
      using wf by (cases "abs_phase i") (auto simp: book_settle_def)
    moreover from False Some step(2) have "\<not> fst (mark_confirmed now iid d)" by simp
    ultimately show ?thesis using step(1) by simp
  qed
qed

lemma mark_expired_refines:
  assumes "book_wf (invoices d)"
  shows "(fst (mark_expired iid d), abs_book (snd (mark_expired iid d))) = book_lapse iid (abs_book d)"
proof (cases "lookup_by inv_id iid (invoices d)")
  case None
  then show ?thesis
    using abs_guarded [OF expiring.guarded_transition_axioms assms, of iid]
    by (simp add: book_lapse_def abs_book_None)
next
  case (Some i)
  then show ?thesis
    using abs_guarded [OF expiring.guarded_transition_axioms assms, of iid]
      book_lookup [OF assms Some] abs_phase_iff(1) [of i]
    by (simp add: book_lapse_def abs_phase_expired)
qed

subsection \<open>A concrete row\<close>

text \<open>An open derived-mode invoice, used by the examples.\<close>

definition sample_invoice :: "string \<Rightarrow> string \<Rightarrow> int option \<Rightarrow> invoice" where
  "sample_invoice iid pk amount =
     \<lparr>inv_id = iid, order_ref = Some (''order-'' @ iid), expected_amount = amount, expiry = None,
      inv_status = ''open'', inv_created_at = 1, token = Some (''tok-'' @ iid), memo = None,
      recipient_pubkey = Some pk, fiat_amount = None, fiat_currency = None,
      match_mode = Some ''derived'', paid_payment_id = None, paid_at = None, quote_rate = None,
      quote_source = None, inv_confirmed_at = None, rail = None, inv_slate_id = None, slatepack = None\<rparr>"

lemma sample_invoice_wf: "row_wf (sample_invoice iid pk amount)"
  by (simp add: sample_invoice_def row_wf_def status_of_def parse_status_def status_str_def)

end
