(* ===== verification/Endpub.thy ===== *)
theory Endpub
  imports Db "HOL-Library.List_Lexorder" "HOL-Library.Char_ord" "HOL-Library.Product_Lexorder"
begin

text \<open>
  \<open>crates/gp-core/src/endpub.rs\<close>: one receiving identity per tenant user and epoch, with
  rolling rotation. \<open>epub uid e\<close> is \<open>derive::endpub_pubkey_hex master_sk uid e\<close>; only the
  assignments and the rotation clock are stored. Timestamps of one operation are read at
  \<open>now\<close> (and \<open>now'\<close> for its second statement). Sorting by \<open>user_id\<close> is SQLite's BINARY
  collation, the lexicographic order of the bytes.
\<close>

subsection \<open>Operations\<close>

definition get_user :: "string \<Rightarrow> 'b db \<Rightarrow> user option" where
  "get_user uid d = lookup_by user_id uid (users d)"

definition ep_key :: "endpub \<Rightarrow> string \<times> int" where
  "ep_key e = (ep_user e, ep_epoch e)"

definition new_endpub :: "(string \<Rightarrow> int \<Rightarrow> string) \<Rightarrow> int \<Rightarrow> string \<Rightarrow> int \<Rightarrow> endpub" where
  "new_endpub epub now uid ep =
     \<lparr>ep_user = uid, ep_epoch = ep, ep_pubkey = epub uid ep, ep_created_at = now\<rparr>"

text \<open>
  \<open>INSERT OR IGNORE\<close> skips an existing \<open>(user_id, epoch)\<close>; the foreign key to \<open>user\<close> is
  still enforced.
\<close>

definition assign :: "(string \<Rightarrow> int \<Rightarrow> string) \<Rightarrow> int \<Rightarrow> string \<Rightarrow> int \<Rightarrow> 'b db \<Rightarrow> endpub sql_result \<times> 'b db" where
  "assign epub now uid ep d =
     (if lookup_by ep_key (uid, ep) (endpubs d) = None \<and> get_user uid d = None
      then (Inl ConstraintViolation, d)
      else
        let d' = (if lookup_by ep_key (uid, ep) (endpubs d) = None
                  then d\<lparr>endpubs := endpubs d @ [new_endpub epub now uid ep]\<rparr> else d)
        in (case lookup_by ep_key (uid, ep) (endpubs d') of
              None \<Rightarrow> (Inl RowNotFound, d')
            | Some e \<Rightarrow> (Inr e, d')))"

definition create_user ::
  "(string \<Rightarrow> int \<Rightarrow> string) \<Rightarrow> string \<Rightarrow> int \<Rightarrow> int \<Rightarrow> string option \<Rightarrow> int option \<Rightarrow> 'b db
   \<Rightarrow> (user \<times> endpub) sql_result \<times> 'b db" where
  "create_user epub rnd now now' ido interval d =
     (let uid = (case ido of Some i \<Rightarrow> i | None \<Rightarrow> rnd) in
      if get_user uid d \<noteq> None then (Inl ConstraintViolation, d)
      else
        let row = \<lparr>user_id = uid, rotate_interval = interval, epoch = 0, last_rotated_at = now,
                   user_created_at = now\<rparr>;
            d1 = d\<lparr>users := users d @ [row]\<rparr>
        in (case assign epub now' uid 0 d1 of
              (Inl e, d2) \<Rightarrow> (Inl e, d2)
            | (Inr ep, d2) \<Rightarrow>
                (case get_user uid d2 of
                   None \<Rightarrow> (Inl RowNotFound, d2)
                 | Some u \<Rightarrow> (Inr (u, ep), d2))))"

definition current_endpub :: "string \<Rightarrow> 'b db \<Rightarrow> endpub option" where
  "current_endpub uid d = first_min (\<lambda>e. - ep_epoch e) (filter (\<lambda>e. ep_user e = uid) (endpubs d))"

definition set_rotate_interval :: "string \<Rightarrow> int option \<Rightarrow> 'b db \<Rightarrow> bool \<times> 'b db" where
  "set_rotate_interval uid interval d =
     (0 < count_where (\<lambda>u. user_id u = uid) (users d),
      d\<lparr>users := update_where (\<lambda>u. user_id u = uid) (\<lambda>u. u\<lparr>rotate_interval := interval\<rparr>) (users d)\<rparr>)"

definition rotate :: "(string \<Rightarrow> int \<Rightarrow> string) \<Rightarrow> int \<Rightarrow> int \<Rightarrow> string \<Rightarrow> 'b db \<Rightarrow> endpub sql_result \<times> 'b db" where
  "rotate epub now now' uid d =
     (case get_user uid d of
        None \<Rightarrow> (Inl RowNotFound, d)
      | Some u \<Rightarrow>
          let nxt = epoch u + 1;
              d1 = d\<lparr>users := update_where (\<lambda>u. user_id u = uid)
                                (\<lambda>u. u\<lparr>epoch := nxt, last_rotated_at := now\<rparr>) (users d)\<rparr>
          in assign epub now' uid nxt d1)"

text \<open>The rotation tick: a snapshot of the users, then one pass over it.\<close>

fun rotate_each ::
  "(string \<Rightarrow> int \<Rightarrow> string) \<Rightarrow> int \<Rightarrow> int \<Rightarrow> user list \<Rightarrow> nat \<Rightarrow> 'b db \<Rightarrow> nat sql_result \<times> 'b db" where
  "rotate_each epub now global_interval [] rotated d = (Inr rotated, d)"
| "rotate_each epub now global_interval (u # us) rotated d =
     (let interval = (case rotate_interval u of Some i \<Rightarrow> i | None \<Rightarrow> global_interval) in
      if interval \<le> 0 then rotate_each epub now global_interval us rotated d
      else if interval \<le> now - last_rotated_at u then
        (case rotate epub now now (user_id u) d of
           (Inl e, d') \<Rightarrow> (Inl e, d')
         | (Inr _, d') \<Rightarrow> rotate_each epub now global_interval us (rotated + 1) d')
      else rotate_each epub now global_interval us rotated d)"

definition rotate_due :: "(string \<Rightarrow> int \<Rightarrow> string) \<Rightarrow> int \<Rightarrow> int \<Rightarrow> 'b db \<Rightarrow> nat sql_result \<times> 'b db" where
  "rotate_due epub now global_interval d = rotate_each epub now global_interval (users d) 0 d"

definition watched_pubkeys :: "int \<Rightarrow> 'b db \<Rightarrow> endpub list" where
  "watched_pubkeys overlap d =
     sort_key ep_key
       (filter (\<lambda>a. \<exists>u \<in> set (users d). user_id u = ep_user a \<and> epoch u - max 0 overlap \<le> ep_epoch a)
         (endpubs d))"

definition user_for_pubkey :: "string \<Rightarrow> 'b db \<Rightarrow> (string \<times> int) option" where
  "user_for_pubkey pk d = map_option ep_key (lookup_by ep_pubkey pk (endpubs d))"

text \<open>\<open>SUM\<close> fails when a partial sum leaves the i64 range.\<close>

fun sql_sum :: "int \<Rightarrow> int list \<Rightarrow> int option" where
  "sql_sum acc [] = Some acc"
| "sql_sum acc (x # xs) =
     (if - (2 ^ 63) \<le> acc + x \<and> acc + x < 2 ^ 63 then sql_sum (acc + x) xs else None)"

record user_balance =
  ub_user :: string
  ub_epoch :: int
  ub_endpub :: string
  ub_balance :: int

fun balances :: "'b db \<Rightarrow> user list \<Rightarrow> user_balance list sql_result" where
  "balances d [] = Inr []"
| "balances d (u # us) =
     (let ep = (case current_endpub (user_id u) d of None \<Rightarrow> [] | Some e \<Rightarrow> ep_pubkey e) in
      case sql_sum 0 (map pay_amount (filter (\<lambda>p. pay_user_id p = Some (user_id u)) (payments d))) of
        None \<Rightarrow> Inl IntegerOverflow
      | Some b \<Rightarrow>
          (case balances d us of
             Inl e \<Rightarrow> Inl e
           | Inr rest \<Rightarrow>
               Inr (\<lparr>ub_user = user_id u, ub_epoch = epoch u, ub_endpub = ep, ub_balance = b\<rparr> # rest)))"

definition list_with_balances :: "'b db \<Rightarrow> user_balance list sql_result" where
  "list_with_balances d = balances d (sort_key (\<lambda>u. - user_created_at u) (users d))"

subsection \<open>The invariant\<close>

text \<open>
  A user of epoch \<open>e\<close> has exactly the assignments \<open>0..e\<close>, each holding the derived key of
  its \<open>(user, epoch)\<close>, and every assignment belongs to a user.
\<close>

definition tenants_wf :: "(string \<Rightarrow> int \<Rightarrow> string) \<Rightarrow> 'b db \<Rightarrow> bool" where
  "tenants_wf epub d \<longleftrightarrow>
     distinct (map user_id (users d)) \<and> distinct (map ep_key (endpubs d)) \<and>
     (\<forall>e \<in> set (endpubs d). ep_pubkey e = epub (ep_user e) (ep_epoch e)) \<and>
     (\<forall>e \<in> set (endpubs d). get_user (ep_user e) d \<noteq> None) \<and>
     (\<forall>u \<in> set (users d). 0 \<le> epoch u \<and>
        (\<forall>k. (user_id u, k) \<in> ep_key ` set (endpubs d) \<longleftrightarrow> 0 \<le> k \<and> k \<le> epoch u))"

lemma tenants_wf_empty: "tenants_wf epub empty_db"
  by (simp add: tenants_wf_def empty_db_def)

lemma assign_fresh:
  assumes "lookup_by ep_key (uid, ep) (endpubs d) = None" "get_user uid d \<noteq> None"
  shows "assign epub now uid ep d =
    (Inr (new_endpub epub now uid ep), d\<lparr>endpubs := endpubs d @ [new_endpub epub now uid ep]\<rparr>)"
  using assms by (simp add: assign_def Let_def lookup_by_append ep_key_def new_endpub_def)

lemma new_endpub_simps [simp]:
  "ep_user (new_endpub epub now uid ep) = uid" "ep_epoch (new_endpub epub now uid ep) = ep"
  "ep_pubkey (new_endpub epub now uid ep) = epub uid ep"
  "ep_key (new_endpub epub now uid ep) = (uid, ep)"
  by (simp_all add: new_endpub_def ep_key_def)

lemma tenants_wf_epochs:
  "tenants_wf epub d \<Longrightarrow> u \<in> set (users d) \<Longrightarrow>
   (user_id u, k) \<in> ep_key ` set (endpubs d) \<longleftrightarrow> 0 \<le> k \<and> k \<le> epoch u"
  by (simp add: tenants_wf_def)

lemma no_next_epoch:
  assumes "tenants_wf epub d" "get_user uid d = Some u"
  shows "lookup_by ep_key (uid, epoch u + 1) (endpubs d) = None"
proof -
  from lookup_by_Some [OF assms(2) [unfolded get_user_def]] have "u \<in> set (users d)" "user_id u = uid" by auto
  with tenants_wf_epochs [OF assms(1), of u "epoch u + 1"]
  have "(uid, epoch u + 1) \<notin> ep_key ` set (endpubs d)" by simp
  then show ?thesis by (simp add: lookup_by_None)
qed

lemma no_endpub_without_user:
  assumes "tenants_wf epub d" "get_user uid d = None"
  shows "lookup_by ep_key (uid, k) (endpubs d) = None"
  using assms by (auto simp: lookup_by_None tenants_wf_def ep_key_def)

text \<open>What the two mutating operations do from a well-formed state.\<close>

definition bump_user :: "string \<Rightarrow> int \<Rightarrow> int \<Rightarrow> 'b db \<Rightarrow> 'b db" where
  "bump_user uid nxt now d =
     d\<lparr>users := update_where (\<lambda>u. user_id u = uid)
          (\<lambda>u. u\<lparr>epoch := nxt, last_rotated_at := now\<rparr>) (users d)\<rparr>"

lemma get_user_bump:
  "get_user k (bump_user uid nxt now d) =
     map_option (\<lambda>u. if user_id u = uid then u\<lparr>epoch := nxt, last_rotated_at := now\<rparr> else u) (get_user k d)"
  by (simp add: get_user_def bump_user_def lookup_by_update_where)

lemma rotate_result:
  assumes wf: "tenants_wf epub d" and u: "get_user uid d = Some u"
  shows "rotate epub now now' uid d =
           (Inr (new_endpub epub now' uid (epoch u + 1)),
            (bump_user uid (epoch u + 1) now d)
              \<lparr>endpubs := endpubs d @ [new_endpub epub now' uid (epoch u + 1)]\<rparr>)"
proof -
  let ?row = "new_endpub epub now' uid (epoch u + 1)"
  let ?d1 = "bump_user uid (epoch u + 1) now d"
  have e: "endpubs ?d1 = endpubs d" by (simp add: bump_user_def)
  have "get_user uid ?d1 \<noteq> None" using u by (simp add: get_user_bump)
  moreover have "lookup_by ep_key (uid, epoch u + 1) (endpubs ?d1) = None"
    using no_next_epoch [OF wf u] e by simp
  ultimately have "assign epub now' uid (epoch u + 1) ?d1 = (Inr ?row, ?d1\<lparr>endpubs := endpubs ?d1 @ [?row]\<rparr>)"
    using assign_fresh [of uid "epoch u + 1" ?d1 epub now'] by simp
  then show ?thesis using u e by (simp add: rotate_def Let_def bump_user_def)
qed

lemma rotate_wf:
  assumes wf: "tenants_wf epub d" and u: "get_user uid d = Some u"
  shows "tenants_wf epub (snd (rotate epub now now' uid d))"
proof -
  let ?row = "new_endpub epub now' uid (epoch u + 1)"
  let ?d = "(bump_user uid (epoch u + 1) now d)\<lparr>endpubs := endpubs d @ [?row]\<rparr>"
  have uin: "u \<in> set (users d)" "user_id u = uid" using lookup_by_Some [OF u [unfolded get_user_def]] by auto
  have dist: "distinct (map user_id (users d))" using wf by (simp add: tenants_wf_def)
  have gu: "get_user k ?d \<noteq> None \<longleftrightarrow> get_user k d \<noteq> None" for k
    using get_user_bump [of k uid "epoch u + 1" now d] by (simp add: get_user_def)
  have users: "v \<in> set (users ?d) \<Longrightarrow>
      (v \<in> set (users d) \<and> user_id v \<noteq> uid) \<or> (user_id v = uid \<and> epoch v = epoch u + 1)" for v
    by (auto simp: bump_user_def set_update_where)
  have fresh: "(uid, epoch u + 1) \<notin> ep_key ` set (endpubs d)"
    using no_next_epoch [OF wf u] by (simp add: lookup_by_None)
  have "tenants_wf epub ?d"
    unfolding tenants_wf_def
  proof (intro conjI ballI allI)
    show "distinct (map user_id (users ?d))" using dist by (simp add: bump_user_def map_update_where)
    show "distinct (map ep_key (endpubs ?d))" using wf fresh by (auto simp: tenants_wf_def ep_key_def)
  next
    fix e assume "e \<in> set (endpubs ?d)"
    then show "ep_pubkey e = epub (ep_user e) (ep_epoch e)" "get_user (ep_user e) ?d \<noteq> None"
      using wf u gu by (auto simp: tenants_wf_def)
  next
    fix v assume v: "v \<in> set (users ?d)"
    have u0: "0 \<le> epoch u" using wf uin by (auto simp: tenants_wf_def)
    show "0 \<le> epoch v" using users [OF v] u0 wf by (auto simp: tenants_wf_def)
    fix k
    show "(user_id v, k) \<in> ep_key ` set (endpubs ?d) \<longleftrightarrow> 0 \<le> k \<and> k \<le> epoch v"
      using users [OF v]
    proof
      assume "v \<in> set (users d) \<and> user_id v \<noteq> uid"
      then show ?thesis using tenants_wf_epochs [OF wf, of v k] by auto
    next
      assume a: "user_id v = uid \<and> epoch v = epoch u + 1"
      have "(uid, k) \<in> ep_key ` set (endpubs d) \<longleftrightarrow> 0 \<le> k \<and> k \<le> epoch u"
        using tenants_wf_epochs [OF wf uin(1), of k] uin(2) by simp
      then show ?thesis using a u0 by (auto simp: ep_key_def)
    qed
  qed
  then show ?thesis using rotate_result [OF wf u] by simp
qed

lemma create_user_wf:
  assumes wf: "tenants_wf epub d"
  shows "tenants_wf epub (snd (create_user epub rnd now now' ido interval d))"
proof -
  define uid where "uid = (case ido of Some i \<Rightarrow> i | None \<Rightarrow> rnd)"
  show ?thesis
  proof (cases "get_user uid d")
    case (Some u)
    then show ?thesis using wf by (simp add: create_user_def uid_def [symmetric] Let_def)
  next
    case None
    let ?u = "\<lparr>user_id = uid, rotate_interval = interval, epoch = 0, last_rotated_at = now, user_created_at = now\<rparr>"
    let ?e = "new_endpub epub now' uid 0"
    let ?d1 = "d\<lparr>users := users d @ [?u]\<rparr>"
    let ?d2 = "?d1\<lparr>endpubs := endpubs d @ [?e]\<rparr>"
    have gu: "get_user k ?d1 = (if k = uid then Some ?u else get_user k d)" for k
      using None by (auto simp: get_user_def lookup_by_append split: option.splits)
    have "assign epub now' uid 0 ?d1 = (Inr ?e, ?d2)"
      using assign_fresh [of uid 0 ?d1 epub now'] no_endpub_without_user [OF wf None] gu [of uid] by simp
    then have res: "snd (create_user epub rnd now now' ido interval d) = ?d2"
      using None gu [of uid] by (simp add: create_user_def uid_def [symmetric] Let_def get_user_def)
    have nouser: "v \<in> set (users d) \<Longrightarrow> user_id v \<noteq> uid" for v
      using None by (auto simp: get_user_def lookup_by_None)
    have noep: "(uid, k) \<notin> ep_key ` set (endpubs d)" for k
      using no_endpub_without_user [OF wf None, of k] by (simp add: lookup_by_None)
    have "get_user k ?d2 = get_user k ?d1" for k by (simp add: get_user_def)
    then have "tenants_wf epub ?d2"
      using wf nouser noep gu by (auto simp: tenants_wf_def ep_key_def image_iff)
    then show ?thesis using res by simp
  qed
qed

lemma set_rotate_interval_wf:
  assumes "tenants_wf epub d"
  shows "tenants_wf epub (snd (set_rotate_interval uid i d))" (is "tenants_wf epub ?d")
proof -
  have eps: "endpubs ?d = endpubs d" by (simp add: set_rotate_interval_def)
  have ids: "map user_id (users ?d) = map user_id (users d)"
    by (simp add: set_rotate_interval_def map_update_where)
  have users: "\<exists>w \<in> set (users d). user_id v = user_id w \<and> epoch v = epoch w" if "v \<in> set (users ?d)" for v
    using that by (auto simp: set_rotate_interval_def set_update_where)
  have gu: "get_user k ?d \<noteq> None \<longleftrightarrow> get_user k d \<noteq> None" for k
    by (simp add: get_user_def set_rotate_interval_def lookup_by_update_where)
  show ?thesis
    unfolding tenants_wf_def eps ids
  proof (intro conjI ballI)
    fix v assume "v \<in> set (users ?d)"
    then obtain w where w: "w \<in> set (users d)" "user_id v = user_id w" "epoch v = epoch w"
      using users by blast
    then show "0 \<le> epoch v" "\<forall>k. (user_id v, k) \<in> ep_key ` set (endpubs d) \<longleftrightarrow> 0 \<le> k \<and> k \<le> epoch v"
      using assms by (simp_all only: tenants_wf_def) simp_all
  qed (use assms gu in \<open>simp_all add: tenants_wf_def\<close>)
qed

subsection \<open>The tick rotates exactly the users whose clock elapsed\<close>

definition rotation_due :: "int \<Rightarrow> int \<Rightarrow> user \<Rightarrow> bool" where
  "rotation_due now global_interval u \<longleftrightarrow>
     (let interval = (case rotate_interval u of Some i \<Rightarrow> i | None \<Rightarrow> global_interval)
      in 0 < interval \<and> interval \<le> now - last_rotated_at u)"

lemma get_user_rotate:
  assumes "tenants_wf epub d" "get_user uid d = Some u"
  shows "get_user k (snd (rotate epub now now' uid d)) =
           (if k = uid then Some (u\<lparr>epoch := epoch u + 1, last_rotated_at := now\<rparr>) else get_user k d)"
proof -
  have "get_user k (snd (rotate epub now now' uid d)) = get_user k (bump_user uid (epoch u + 1) now d)"
    using rotate_result [OF assms, of now now'] by (simp add: get_user_def)
  moreover have "user_id v = k" if "get_user k d = Some v" for v
    using that lookup_by_Some [of user_id k "users d" v] by (simp add: get_user_def)
  ultimately show ?thesis
    using assms(2) by (cases "get_user k d") (auto simp: get_user_bump)
qed

lemma rotate_each_result:
  assumes "tenants_wf epub d" "distinct (map user_id us)"
    and "\<And>u. u \<in> set us \<Longrightarrow> get_user (user_id u) d = Some u"
  shows "\<exists>d'. rotate_each epub now gi us r d = (Inr (r + count_where (rotation_due now gi) us), d') \<and>
     tenants_wf epub d' \<and>
     (\<forall>k. get_user k d' =
        (case lookup_by user_id k us of
           Some u \<Rightarrow> Some (if rotation_due now gi u
                           then u\<lparr>epoch := epoch u + 1, last_rotated_at := now\<rparr> else u)
         | None \<Rightarrow> get_user k d))"
  using assms
proof (induction us arbitrary: r d)
  case Nil
  then show ?case by (simp add: count_where_def)
next
  case (Cons u us)
  have gu: "get_user (user_id u) d = Some u" using Cons.prems(3) by simp
  have notin: "lookup_by user_id (user_id u) us = None" using Cons.prems(2) by (auto simp: lookup_by_None)
  show ?case
  proof (cases "rotation_due now gi u")
    case True
    let ?d1 = "snd (rotate epub now now (user_id u) d)"
    have wf1: "tenants_wf epub ?d1" by (rule rotate_wf [OF Cons.prems(1) gu])
    have gu1: "get_user (user_id v) ?d1 = Some v" if "v \<in> set us" for v
    proof -
      have "user_id u \<notin> user_id ` set us" using Cons.prems(2) by simp
      then have "user_id v \<noteq> user_id u" using that by (metis image_eqI)
      moreover have "get_user (user_id v) d = Some v" using that Cons.prems(3) by simp
      ultimately show ?thesis using get_user_rotate [OF Cons.prems(1) gu, of "user_id v"] by simp
    qed
    have unf: "rotate_each epub now gi (u # us) r d = rotate_each epub now gi us (r + 1) ?d1"
      using True rotate_result [OF Cons.prems(1) gu, of now now]
      by (auto simp: rotation_due_def Let_def)
    from Cons.IH [OF wf1 _ gu1, of "r + 1"] Cons.prems(2) obtain d' where
      d': "rotate_each epub now gi us (r + 1) ?d1 = (Inr (r + 1 + count_where (rotation_due now gi) us), d')"
        "tenants_wf epub d'"
        "\<And>k. get_user k d' = (case lookup_by user_id k us of
           Some u \<Rightarrow> Some (if rotation_due now gi u then u\<lparr>epoch := epoch u + 1, last_rotated_at := now\<rparr> else u)
         | None \<Rightarrow> get_user k ?d1)" by auto
    have "get_user k d' = (case lookup_by user_id k (u # us) of
           Some u \<Rightarrow> Some (if rotation_due now gi u then u\<lparr>epoch := epoch u + 1, last_rotated_at := now\<rparr> else u)
         | None \<Rightarrow> get_user k d)" for k
      using d'(3) [of k] True notin get_user_rotate [OF Cons.prems(1) gu, of k now now]
      by (cases "k = user_id u") (auto split: option.splits)
    with d'(1,2) unf True show ?thesis by (intro exI [of _ d']) (simp add: count_where_def)
  next
    case False
    have unf: "rotate_each epub now gi (u # us) r d = rotate_each epub now gi us r d"
      using False by (auto simp: rotation_due_def Let_def)
    from Cons.IH [OF Cons.prems(1), of r] Cons.prems(2,3) obtain d' where
      d': "rotate_each epub now gi us r d = (Inr (r + count_where (rotation_due now gi) us), d')"
        "tenants_wf epub d'"
        "\<And>k. get_user k d' = (case lookup_by user_id k us of
           Some u \<Rightarrow> Some (if rotation_due now gi u then u\<lparr>epoch := epoch u + 1, last_rotated_at := now\<rparr> else u)
         | None \<Rightarrow> get_user k d)" by auto
    have "get_user k d' = (case lookup_by user_id k (u # us) of
           Some u \<Rightarrow> Some (if rotation_due now gi u then u\<lparr>epoch := epoch u + 1, last_rotated_at := now\<rparr> else u)
         | None \<Rightarrow> get_user k d)" for k
      using d'(3) [of k] False notin gu by (cases "k = user_id u") auto
    with d'(1,2) unf False show ?thesis by (intro exI [of _ d']) (simp add: count_where_def)
  qed
qed

subsection \<open>Reading the assignments\<close>

lemma current_endpub_epoch:
  assumes wf: "tenants_wf epub d" and u: "get_user uid d = Some u"
  shows "\<exists>e. current_endpub uid d = Some e \<and> ep_key e = (uid, epoch u) \<and> ep_pubkey e = epub uid (epoch u)"
proof -
  have uin: "u \<in> set (users d)" "user_id u = uid" using lookup_by_Some [OF u [unfolded get_user_def]] by auto
  have eps: "(uid, k) \<in> ep_key ` set (endpubs d) \<longleftrightarrow> 0 \<le> k \<and> k \<le> epoch u" for k
    using tenants_wf_epochs [OF wf uin(1)] uin(2) by simp
  have "0 \<le> epoch u" using wf uin by (auto simp: tenants_wf_def)
  then obtain e0 where e0: "e0 \<in> set (endpubs d)" "ep_key e0 = (uid, epoch u)" using eps [of "epoch u"] by auto
  then have "filter (\<lambda>e. ep_user e = uid) (endpubs d) \<noteq> []"
    by (auto simp: filter_empty_conv ep_key_def)
  then obtain e where e: "current_endpub uid d = Some e"
    unfolding current_endpub_def using first_min_exists by blast
  from first_min_Some [OF e [unfolded current_endpub_def]]
  have m: "e \<in> set (endpubs d)" "ep_user e = uid"
    and le: "\<And>x. x \<in> set (endpubs d) \<Longrightarrow> ep_user x = uid \<Longrightarrow> ep_epoch x \<le> ep_epoch e" by auto
  have "(uid, ep_epoch e) \<in> ep_key ` set (endpubs d)" using m by (force simp: ep_key_def)
  then have "ep_epoch e \<le> epoch u" using eps by simp
  moreover have "epoch u \<le> ep_epoch e" using le [OF e0(1)] e0(2) by (simp add: ep_key_def)
  ultimately have "ep_epoch e = epoch u" by simp
  moreover have "ep_pubkey e = epub (ep_user e) (ep_epoch e)" using wf m(1) by (simp add: tenants_wf_def)
  ultimately show ?thesis using e m by (simp add: ep_key_def)
qed

lemma user_for_assigned:
  assumes wf: "tenants_wf epub d" and inj: "\<And>a i b j. epub a i = epub b j \<Longrightarrow> a = b \<and> i = j"
    and u: "get_user uid d = Some u" "0 \<le> k" "k \<le> epoch u"
  shows "user_for_pubkey (epub uid k) d = Some (uid, k)"
proof -
  have uin: "u \<in> set (users d)" "user_id u = uid" using lookup_by_Some [OF u(1) [unfolded get_user_def]] by auto
  have "(uid, k) \<in> ep_key ` set (endpubs d)"
    using tenants_wf_epochs [OF wf uin(1), of k] uin(2) u by simp
  then obtain e where e: "e \<in> set (endpubs d)" "ep_key e = (uid, k)" by auto
  have "ep_pubkey e = epub uid k" using wf e by (auto simp: tenants_wf_def ep_key_def)
  then obtain e' where e': "lookup_by ep_pubkey (epub uid k) (endpubs d) = Some e'"
    using e(1) by (metis image_eqI lookup_by_None not_None_eq)
  from lookup_by_Some [OF e'] wf have "epub (ep_user e') (ep_epoch e') = epub uid k" by (auto simp: tenants_wf_def)
  with inj have "ep_user e' = uid \<and> ep_epoch e' = k" by blast
  with e' show ?thesis by (simp add: user_for_pubkey_def ep_key_def)
qed

lemma set_watched:
  "set (watched_pubkeys overlap d) =
     {a \<in> set (endpubs d). \<exists>u \<in> set (users d). user_id u = ep_user a \<and> epoch u - max 0 overlap \<le> ep_epoch a}"
  by (simp add: watched_pubkeys_def)

end
