(* ===== verification/Matching.thy ===== *)
theory Matching
  imports InvoiceBook Endpub
begin

text \<open>
  \<open>crates/gp-core/src/matching.rs\<close>: one received payment is mapped to an open invoice and
  to a tenant user. The three resolvers are scoped by \<open>COALESCE(match_mode, default)\<close>; the
  resolved invoice binds its exact expected amount before anything is written. All the
  statements of one call read the clock at \<open>now\<close>.
\<close>

subsection \<open>Data\<close>

record incoming_payment =
  inc_slate_id :: string
  inc_amount :: u64
  inc_recipient :: string
  inc_memo :: "string option"

record amount_mismatch =
  am_expected :: u64
  am_received :: u64

record match_result =
  mr_invoice_id :: "string option"
  mr_user_id :: "string option"
  mr_amount_mismatch :: "amount_mismatch option"

subsection \<open>Resolution\<close>

text \<open>\<open>COALESCE(match_mode, ?2) = m\<close>.\<close>

definition scoped :: "match_mode_t \<Rightarrow> match_mode_t \<Rightarrow> invoice \<Rightarrow> bool" where
  "scoped dflt m i \<longleftrightarrow> (case match_mode i of None \<Rightarrow> mode_str dflt | Some s \<Rightarrow> s) = mode_str m"

definition derived_candidate :: "match_mode_t \<Rightarrow> string \<Rightarrow> invoice \<Rightarrow> bool" where
  "derived_candidate dflt rcpt i \<longleftrightarrow>
     recipient_pubkey i = Some rcpt \<and> inv_status i = ''open'' \<and> scoped dflt DerivedMode i"

definition memo_candidate :: "match_mode_t \<Rightarrow> string \<Rightarrow> invoice \<Rightarrow> bool" where
  "memo_candidate dflt m i \<longleftrightarrow>
     order_ref i = Some m \<and> inv_status i = ''open'' \<and> scoped dflt MemoMode i"

definition amount_candidate :: "int \<Rightarrow> match_mode_t \<Rightarrow> u64 \<Rightarrow> invoice \<Rightarrow> bool" where
  "amount_candidate now dflt amount i \<longleftrightarrow>
     expected_amount i = Some (as_i64 amount) \<and> inv_status i = ''open'' \<and> scoped dflt AmountMode i \<and>
     (case expiry i of None \<Rightarrow> True | Some e \<Rightarrow> now < e)"

definition oldest :: "(invoice \<Rightarrow> bool) \<Rightarrow> 'b db \<Rightarrow> string option" where
  "oldest p d = map_option inv_id (first_min inv_created_at (filter p (invoices d)))"

definition resolve_derived :: "match_mode_t \<Rightarrow> string \<Rightarrow> 'b db \<Rightarrow> string option" where
  "resolve_derived dflt rcpt d = oldest (derived_candidate dflt rcpt) d"

definition resolve_memo :: "match_mode_t \<Rightarrow> string \<Rightarrow> 'b db \<Rightarrow> string option" where
  "resolve_memo dflt m d = oldest (memo_candidate dflt m) d"

definition resolve_amount :: "int \<Rightarrow> match_mode_t \<Rightarrow> u64 \<Rightarrow> 'b db \<Rightarrow> string option" where
  "resolve_amount now dflt amount d = oldest (amount_candidate now dflt amount) d"

definition resolve :: "int \<Rightarrow> match_mode_t \<Rightarrow> incoming_payment \<Rightarrow> 'b db \<Rightarrow> string option" where
  "resolve now dflt inc d =
     (case resolve_derived dflt (inc_recipient inc) d of
        Some iid \<Rightarrow> Some iid
      | None \<Rightarrow>
          (case (case inc_memo inc of Some m \<Rightarrow> resolve_memo dflt m d | None \<Rightarrow> None) of
             Some iid \<Rightarrow> Some iid
           | None \<Rightarrow> resolve_amount now dflt (inc_amount inc) d))"

subsection \<open>The match\<close>

definition link_payment :: "string \<Rightarrow> string option \<Rightarrow> string option \<Rightarrow> 'b db \<Rightarrow> 'b db" where
  "link_payment sid iid uid d =
     d\<lparr>payments := update_where (\<lambda>p. pay_id p = sid)
         (\<lambda>p. p\<lparr>pay_invoice_id := iid, pay_user_id := uid\<rparr>) (payments d)\<rparr>"

text \<open>\<open>expected.max(0) as u64\<close> against the received amount.\<close>

definition mismatch_of :: "int option \<Rightarrow> u64 \<Rightarrow> amount_mismatch option" where
  "mismatch_of expected received =
     (case expected of
        None \<Rightarrow> None
      | Some e \<Rightarrow>
          (let e' = as_u64 (max e 0)
           in if received \<noteq> e' then Some \<lparr>am_expected = e', am_received = received\<rparr> else None))"

definition match_payment ::
  "int \<Rightarrow> match_mode_t \<Rightarrow> incoming_payment \<Rightarrow> 'b db \<Rightarrow> match_result sql_result \<times> 'b db" where
  "match_payment now dflt inc d =
     (let uid = map_option fst (user_for_pubkey (inc_recipient inc) d) in
      case resolve now dflt inc d of
        None \<Rightarrow>
          (Inr \<lparr>mr_invoice_id = None, mr_user_id = uid, mr_amount_mismatch = None\<rparr>,
           link_payment (inc_slate_id inc) None uid d)
      | Some iid \<Rightarrow>
          (case lookup_by inv_id iid (invoices d) of
             None \<Rightarrow> (Inl RowNotFound, d)
           | Some i \<Rightarrow>
               (case mismatch_of (expected_amount i) (inc_amount inc) of
                  Some mm \<Rightarrow>
                    (Inr \<lparr>mr_invoice_id = None, mr_user_id = None, mr_amount_mismatch = Some mm\<rparr>, d)
                | None \<Rightarrow>
                    (Inr \<lparr>mr_invoice_id = Some iid, mr_user_id = uid, mr_amount_mismatch = None\<rparr>,
                     link_payment (inc_slate_id inc) (Some iid) uid
                       (snd (mark_paid now iid (inc_slate_id inc) d))))))"

subsection \<open>What the resolvers return\<close>

lemma oldest_Some:
  assumes "oldest p d = Some iid" "distinct (map inv_id (invoices d))"
  shows "\<exists>i. lookup_by inv_id iid (invoices d) = Some i \<and> p i \<and>
             (\<forall>j \<in> set (invoices d). p j \<longrightarrow> inv_created_at i \<le> inv_created_at j)"
proof -
  from assms(1) obtain i where i: "first_min inv_created_at (filter p (invoices d)) = Some i" "inv_id i = iid"
    by (auto simp: oldest_def)
  with first_min_Some [OF i(1)] have "i \<in> set (invoices d)" "p i"
    "\<forall>j \<in> set (invoices d). p j \<longrightarrow> inv_created_at i \<le> inv_created_at j" by auto
  with i(2) show ?thesis using lookup_by_distinct [OF assms(2)] by blast
qed

lemma oldest_None: "oldest p d = None \<longleftrightarrow> (\<forall>i \<in> set (invoices d). \<not> p i)"
  by (simp add: oldest_def filter_empty_conv)

lemma oldest_ex: "oldest p d = Some iid \<Longrightarrow> \<exists>i \<in> set (invoices d). p i"
  using oldest_None [of p d] by auto

definition candidate :: "int \<Rightarrow> match_mode_t \<Rightarrow> incoming_payment \<Rightarrow> invoice \<Rightarrow> bool" where
  "candidate now dflt inc i \<longleftrightarrow>
     derived_candidate dflt (inc_recipient inc) i \<or>
     (\<exists>m. inc_memo inc = Some m \<and> memo_candidate dflt m i) \<or>
     amount_candidate now dflt (inc_amount inc) i"

lemma candidate_open: "candidate now dflt inc i \<Longrightarrow> inv_status i = ''open''"
  by (auto simp: candidate_def derived_candidate_def memo_candidate_def amount_candidate_def)

lemma resolve_Some:
  assumes "resolve now dflt inc d = Some iid" "distinct (map inv_id (invoices d))"
  shows "\<exists>i. lookup_by inv_id iid (invoices d) = Some i \<and> candidate now dflt inc i"
  using assms(1) unfolding resolve_def resolve_derived_def resolve_memo_def resolve_amount_def
  by (auto simp: candidate_def split: option.splits dest!: oldest_Some [OF _ assms(2)])

lemma resolve_None:
  "resolve now dflt inc d = None \<longleftrightarrow> (\<forall>i \<in> set (invoices d). \<not> candidate now dflt inc i)"
  unfolding resolve_def resolve_derived_def resolve_memo_def resolve_amount_def candidate_def
  by (auto split: option.splits simp: oldest_None dest!: oldest_ex)

text \<open>A candidate of one mode is never a candidate of another.\<close>

lemma scoped_unique: "scoped dflt m i \<Longrightarrow> scoped dflt m' i \<Longrightarrow> m = m'"
  by (simp add: scoped_def) (metis mode_str_inj)

subsection \<open>Matching on the invoice table\<close>

lemma link_payment_simps [simp]:
  "invoices (link_payment sid iid uid d) = invoices d" "users (link_payment sid iid uid d) = users d"
  "endpubs (link_payment sid iid uid d) = endpubs d" "deliveries (link_payment sid iid uid d) = deliveries d"
  by (simp_all add: link_payment_def)

lemma good_step_link: "good_step d (link_payment sid iid uid d)"
  by (rule good_step_same) simp

lemma good_step_match: "good_step d (snd (match_payment now dflt inc d))"
proof -
  have "good_step d (link_payment sid x uid (snd (mark_paid now iid sid d)))" for sid x uid iid
    by (rule good_step_trans [OF good_step_mark_paid good_step_link])
  then show ?thesis
    by (auto simp: match_payment_def Let_def good_step_link split: option.splits)
qed

lemma mismatch_of_None: "mismatch_of e a = None \<longleftrightarrow> (\<forall>x. e = Some x \<longrightarrow> a = as_u64 (max x 0))"
  by (auto simp: mismatch_of_def Let_def split: option.splits)

text \<open>The three outcomes, as one case rule.\<close>

lemma match_payment_cases:
  assumes "distinct (map inv_id (invoices d))"
  obtains
    (unmatched) "resolve now dflt inc d = None"
      "match_payment now dflt inc d =
         (Inr \<lparr>mr_invoice_id = None, mr_user_id = map_option fst (user_for_pubkey (inc_recipient inc) d),
               mr_amount_mismatch = None\<rparr>,
          link_payment (inc_slate_id inc) None (map_option fst (user_for_pubkey (inc_recipient inc) d)) d)"
  | (rejected) i mm where "resolve now dflt inc d = Some (inv_id i)"
      "lookup_by inv_id (inv_id i) (invoices d) = Some i" "candidate now dflt inc i"
      "mismatch_of (expected_amount i) (inc_amount inc) = Some mm"
      "match_payment now dflt inc d =
         (Inr \<lparr>mr_invoice_id = None, mr_user_id = None, mr_amount_mismatch = Some mm\<rparr>, d)"
  | (matched) i where "resolve now dflt inc d = Some (inv_id i)"
      "lookup_by inv_id (inv_id i) (invoices d) = Some i" "candidate now dflt inc i"
      "mismatch_of (expected_amount i) (inc_amount inc) = None"
      "match_payment now dflt inc d =
         (Inr \<lparr>mr_invoice_id = Some (inv_id i),
               mr_user_id = map_option fst (user_for_pubkey (inc_recipient inc) d),
               mr_amount_mismatch = None\<rparr>,
          link_payment (inc_slate_id inc) (Some (inv_id i))
            (map_option fst (user_for_pubkey (inc_recipient inc) d))
            (snd (mark_paid now (inv_id i) (inc_slate_id inc) d)))"
proof (cases "resolve now dflt inc d")
  case None
  then show ?thesis by (intro unmatched) (simp_all add: match_payment_def Let_def)
next
  case (Some iid)
  from resolve_Some [OF Some assms] obtain i where
    i: "lookup_by inv_id iid (invoices d) = Some i" "candidate now dflt inc i" by blast
  have id: "inv_id i = iid" using lookup_by_Some [OF i(1)] by simp
  show ?thesis
  proof (cases "mismatch_of (expected_amount i) (inc_amount inc)")
    case None
    show ?thesis
      by (rule matched [of i]) (use Some i id None in \<open>simp_all add: match_payment_def Let_def\<close>)
  next
    case (Some mm)
    show ?thesis
      by (rule rejected [of i mm])
         (use \<open>resolve now dflt inc d = Some iid\<close> i id Some in \<open>simp_all add: match_payment_def Let_def\<close>)
  qed
qed

lemma match_marks_paid:
  assumes "distinct (map inv_id (invoices d))" "lookup_by inv_id iid (invoices d) = Some i"
    and "inv_status i = ''open''"
  shows "lookup_by inv_id iid (invoices (snd (mark_paid now iid sid d))) = Some (paid_row (now, sid) i)"
  using paying.fires [OF assms, of "(now, sid)"] by simp

lemma mark_paid_frame:
  "k \<noteq> iid \<Longrightarrow> lookup_by inv_id k (invoices (snd (mark_paid now iid sid d))) = lookup_by inv_id k (invoices d)"
  using paying.frame [of k iid "(now, sid)" d] by simp

end
