(* ===== verification/Civil.thy ===== *)
theory Civil
  imports Text
begin

text \<open>
  The calendar arithmetic the program carries instead of a date library:
  \<open>civil_from_days\<close> and \<open>now_iso8601\<close> of \<open>crates/gp-core/src/webhook.rs\<close>. The divisions are
  Euclidean with positive divisors, so \<open>div\<close> and \<open>mod\<close> on \<^typ>\<open>int\<close> are the code's. The
  reference is the Gregorian calendar stated by month lengths and leap years.
\<close>

definition civil_from_days :: "int \<Rightarrow> int \<times> int \<times> int" where
  "civil_from_days z0 =
     (let z = z0 + 719468;
          era = z div 146097;
          doe = z mod 146097;
          yoe = (doe - doe div 1460 + doe div 36524 - doe div 146096) div 365;
          y = yoe + era * 400;
          doy = doe - (365 * yoe + yoe div 4 - yoe div 100);
          mp = (5 * doy + 2) div 153;
          d = doy - (153 * mp + 2) div 5 + 1;
          m = (if mp < 10 then mp + 3 else mp - 9)
      in (if m \<le> 2 then y + 1 else y, m, d))"

text \<open>\<open>{n:0w}\<close> on a non-negative number.\<close>

definition pad_nat :: "nat \<Rightarrow> nat \<Rightarrow> string" where
  "pad_nat w n = replicate (w - length (show_nat n)) (CHR ''0'') @ show_nat n"

definition iso8601 :: "int \<Rightarrow> string" where
  "iso8601 secs =
     (let days = secs div 86400;
          tod = secs mod 86400;
          h = tod div 3600; mi = (tod mod 3600) div 60; s = tod mod 60;
          (y, mo, d) = civil_from_days days
      in pad_nat 4 (nat y) @ ''-'' @ pad_nat 2 (nat mo) @ ''-'' @ pad_nat 2 (nat d) @ ''T'' @
         pad_nat 2 (nat h) @ '':'' @ pad_nat 2 (nat mi) @ '':'' @ pad_nat 2 (nat s) @ ''Z'')"

subsection \<open>The Gregorian calendar\<close>

definition leap_year :: "int \<Rightarrow> bool" where
  "leap_year y \<longleftrightarrow> y mod 4 = 0 \<and> (y mod 100 \<noteq> 0 \<or> y mod 400 = 0)"

definition month_length :: "int \<Rightarrow> int \<Rightarrow> int" where
  "month_length y m =
     (if m = 2 then (if leap_year y then 29 else 28)
      else if m = 4 \<or> m = 6 \<or> m = 9 \<or> m = 11 then 30 else 31)"

fun next_day :: "int \<times> int \<times> int \<Rightarrow> int \<times> int \<times> int" where
  "next_day (y, m, d) =
     (if d < month_length y m then (y, m, d + 1)
      else if m < 12 then (y, m + 1, 1) else (y + 1, 1, 1))"

definition valid_date :: "int \<times> int \<times> int \<Rightarrow> bool" where
  "valid_date ymd = (case ymd of (y, m, d) \<Rightarrow> 1 \<le> m \<and> m \<le> 12 \<and> 1 \<le> d \<and> d \<le> month_length y m)"

subsection \<open>The year of an era\<close>

definition year_start :: "int \<Rightarrow> int" where
  "year_start y = 365 * y + y div 4 - y div 100"

definition year_index :: "int \<Rightarrow> int" where
  "year_index doe = doe - doe div 1460 + doe div 36524 - doe div 146096"

text \<open>The day of the era, the year and the day of the year of one step.\<close>

lemma year_index_step:
  assumes "0 \<le> x" "x < 146096"
  shows "year_index x \<le> year_index (x + 1)"
proof -
  have a: "(x + 1) div 1460 \<le> x div 1460 + 1" by linarith
  have b: "x div 36524 \<le> (x + 1) div 36524" by (rule zdiv_mono1) auto
  have c: "x div 146096 = 0" using assms by simp
  show ?thesis
  proof (cases "x = 146095")
    case True
    then show ?thesis by (simp add: year_index_def)
  next
    case False
    then have "(x + 1) div 146096 = 0" using assms by simp
    with a b c show ?thesis unfolding year_index_def by linarith
  qed
qed

lemma year_index_mono:
  assumes "0 \<le> a" "a \<le> b" "b \<le> 146096"
  shows "year_index a \<le> year_index b"
proof -
  have "a + int n \<le> 146096 \<Longrightarrow> year_index a \<le> year_index (a + int n)" for n
  proof (induction n)
    case 0
    then show ?case by simp
  next
    case (Suc n)
    then have "year_index a \<le> year_index (a + int n)" by simp
    also have "\<dots> \<le> year_index (a + int n + 1)"
      using Suc.prems assms(1) by (intro year_index_step) auto
    finally show ?case by (simp add: ac_simps)
  qed
  from this [of "nat (b - a)"] assms show ?thesis by simp
qed

definition year_bounds_ok :: "int \<Rightarrow> bool" where
  "year_bounds_ok y \<longleftrightarrow>
     365 * y \<le> year_index (year_start y) \<and>
     year_index (if y = 399 then 146096 else year_start (y + 1) - 1) < 365 * (y + 1)"

text \<open>A year as century, leap cycle and rest; its first day is linear in them.\<close>

lemma year_blocks:
  assumes "0 \<le> y" "y < 400"
  obtains c q r where "y = 100 * c + 4 * q + r" "0 \<le> c" "c \<le> 3" "0 \<le> q" "q \<le> 24" "0 \<le> r" "r \<le> 3"
    "year_start y = 36524 * c + 1461 * q + 365 * r"
proof -
  define c where "c = y div 100"
  define q where "q = y mod 100 div 4"
  define r where "r = y mod 4"
  have m: "y mod 100 mod 4 = y mod 4" by (simp add: mod_mod_cancel)
  have y: "y = 100 * c + y mod 100" by (simp add: c_def)
  moreover have yr: "y mod 100 = 4 * q + r" unfolding q_def r_def by (metis m mult_div_mod_eq)
  moreover have b: "0 \<le> c" "c \<le> 3" using assms by (auto simp: c_def)
  moreover have b': "0 \<le> y mod 100" "y mod 100 < 100" "0 \<le> r" "r \<le> 3" by (auto simp: r_def)
  moreover have "0 \<le> q" "q \<le> 24" using yr b' by linarith+
  moreover have "y div 4 = 25 * c + q" using y yr b' by linarith
  ultimately show thesis by (intro that [of c q r]) (simp_all add: year_start_def c_def [symmetric])
qed

lemma year_bounds:
  assumes "0 \<le> y" "y < 400"
  shows "year_bounds_ok y"
proof -
  obtain c q r where l: "y = 100 * c + 4 * q + r" "0 \<le> c" "c \<le> 3" "0 \<le> q" "q \<le> 24" "0 \<le> r" "r \<le> 3"
    and s: "year_start y = 36524 * c + 1461 * q + 365 * r" using year_blocks [OF assms] by blast
  let ?s = "year_start y"
  have "?s div 1460 \<le> 25 * c + q" "c \<le> ?s div 36524" "?s div 146096 = 0" using l s by linarith+
  then have lo: "365 * y \<le> year_index ?s" using l s unfolding year_index_def by linarith
  have "year_index (if y = 399 then 146096 else year_start (y + 1) - 1) < 365 * (y + 1)"
  proof (cases "y = 399")
    case True
    then show ?thesis by (simp add: year_index_def)
  next
    case False
    then have "0 \<le> y + 1" "y + 1 < 400" using assms by auto
    then obtain c q r where l: "y + 1 = 100 * c + 4 * q + r" "0 \<le> c" "c \<le> 3" "0 \<le> q" "q \<le> 24" "0 \<le> r" "r \<le> 3"
      and s: "year_start (y + 1) = 36524 * c + 1461 * q + 365 * r" by (rule year_blocks)
    let ?e = "year_start (y + 1) - 1"
    have pos: "0 < 36524 * c + 1461 * q + 365 * r" using l assms by linarith
    then have z: "0 \<le> ?e div 146096" using s by simp
    show ?thesis
    proof (cases "q = 0 \<and> r = 0")
      case True
      then have "25 * c - 1 \<le> ?e div 1460" "?e div 36524 = c - 1" using l s pos by linarith+
      then show ?thesis using z l s False True unfolding year_index_def by simp
    next
      case False
      then have "1 \<le> q + r" using l by linarith
      then have "25 * c + q \<le> ?e div 1460" "?e div 36524 \<le> c" using l s by linarith+
      then show ?thesis using z l s \<open>y \<noteq> 399\<close> unfolding year_index_def by simp
    qed
  qed
  with lo show ?thesis by (simp add: year_bounds_ok_def)
qed

lemma century_step: "(y + 1) div 100 = y div 100 \<or> (y + 1) div 4 = y div 4 + 1" for y :: int
proof (cases "100 dvd y + 1")
  case True
  then obtain q where "y + 1 = 100 * q" by (auto simp: dvd_def)
  then have "y = 100 * q - 1" by simp
  then have "(y + 1) div 4 = 25 * q" "y div 4 = 25 * q - 1" by simp_all
  then show ?thesis by simp
next
  case False
  have "y + 1 = 100 * ((y + 1) div 100) + (y + 1) mod 100" by simp
  moreover have "(y + 1) mod 100 \<noteq> 0" using False by (simp add: dvd_eq_mod_eq_0)
  moreover have "0 \<le> (y + 1) mod 100" "(y + 1) mod 100 < 100" by auto
  ultimately have "y div 100 = (y + 1) div 100" by linarith
  then show ?thesis by simp
qed

lemma year_start_step: "year_start y + 365 \<le> year_start (y + 1)"
proof -
  have "(y + 1) div 100 \<le> y div 100 + 1" and "y div 4 \<le> (y + 1) div 4" by linarith+
  moreover have "(y + 1) div 100 = y div 100 \<or> (y + 1) div 4 = y div 4 + 1"
    by (rule century_step)
  moreover have "y div 100 \<le> (y + 1) div 100" by linarith
  ultimately show ?thesis unfolding year_start_def by (elim disjE) simp_all
qed

lemma year_start_mono:
  assumes "a \<le> b"
  shows "year_start a \<le> year_start b"
proof -
  have "year_start a \<le> year_start (a + int n)" for n
  proof (induction n)
    case 0
    then show ?case by simp
  next
    case (Suc n)
    then show ?case using year_start_step [of "a + int n"] by (simp add: ac_simps)
  qed
  from this [of "nat (b - a)"] assms show ?thesis by simp
qed

text \<open>The formula finds the year whose span holds the day.\<close>

lemma year_of_era:
  assumes "0 \<le> doe" "doe < 146097" "0 \<le> y" "y < 400"
    and "year_start y \<le> doe" "doe < (if y = 399 then 146097 else year_start (y + 1))"
  shows "year_index doe div 365 = y"
proof -
  let ?hi = "if y = 399 then 146096 else year_start (y + 1) - 1"
  have "0 \<le> year_start y" using year_start_mono [of 0 y] assms(3) by (simp add: year_start_def)
  then have "year_index (year_start y) \<le> year_index doe" using assms by (intro year_index_mono) auto
  moreover have "year_index doe \<le> year_index ?hi"
  proof (rule year_index_mono)
    have "year_start (y + 1) \<le> 146096" if "y \<noteq> 399"
      using that assms(4) year_start_mono [of "y + 1" 399] by (simp add: year_start_def)
    then show "?hi \<le> 146096" by auto
  qed (use assms in auto)
  moreover have "365 * y \<le> year_index (year_start y)" "year_index ?hi < 365 * (y + 1)"
    using year_bounds [OF assms(3,4)] by (auto simp: year_bounds_ok_def)
  ultimately have "365 * y \<le> year_index doe" "year_index doe < 365 * (y + 1)" by auto
  then show ?thesis using int_div_pos_eq [of "year_index doe" 365 y "year_index doe - 365 * y"] by simp
qed

lemma year_of_era_exists:
  assumes "0 \<le> doe" "doe < 146097"
  shows "\<exists>y. 0 \<le> y \<and> y < 400 \<and> year_start y \<le> doe \<and> doe < (if y = 399 then 146097 else year_start (y + 1))"
proof -
  have "\<exists>y. 0 \<le> y \<and> y < int n + 1 \<and> year_start y \<le> doe \<and> (y = int n \<or> doe < year_start (y + 1))" for n
  proof (induction n)
    case 0
    then show ?case using assms by (intro exI [of _ 0]) (simp add: year_start_def)
  next
    case (Suc n)
    then obtain y where y: "0 \<le> y" "y < int n + 1" "year_start y \<le> doe" "y = int n \<or> doe < year_start (y + 1)"
      by blast
    show ?case
    proof (cases "doe < year_start (y + 1)")
      case True
      with y show ?thesis by (intro exI [of _ y]) auto
    next
      case False
      with y show ?thesis by (intro exI [of _ "y + 1"]) auto
    qed
  qed
  from this [of 399] obtain y where
    "0 \<le> y" "y < 400" "year_start y \<le> doe" "y = 399 \<or> doe < year_start (y + 1)" by auto
  with assms(2) show ?thesis by (intro exI [of _ y]) auto
qed

subsection \<open>The date within a March-based year\<close>

definition date_of :: "int \<Rightarrow> int \<Rightarrow> int \<times> int \<times> int" where
  "date_of y doy =
     (let mp = (5 * doy + 2) div 153;
          m = (if mp < 10 then mp + 3 else mp - 9)
      in (if m \<le> 2 then y + 1 else y, m, doy - (153 * mp + 2) div 5 + 1))"

lemma civil_date_of:
  assumes "(z + 719468) mod 146097 = doe" "0 \<le> y" "y < 400"
    and "year_start y \<le> doe" "doe < (if y = 399 then 146097 else year_start (y + 1))"
  shows "civil_from_days z = date_of (y + (z + 719468) div 146097 * 400) (doe - year_start y)"
proof -
  have "0 \<le> doe" "doe < 146097" using assms(1) by auto
  then have "(doe - doe div 1460 + doe div 36524 - doe div 146096) div 365 = y"
    using year_of_era [OF _ _ assms(2-)] by (simp add: year_index_def)
  then show ?thesis
    by (simp only: civil_from_days_def date_of_def Let_def assms(1) year_start_def)
qed

lemma succ_div:
  fixes a n :: int
  assumes "0 < n"
  shows "(a + 1) div n = a div n + (if (a + 1) mod n = 0 then 1 else 0)"
proof (cases "(a + 1) mod n = 0")
  case True
  then obtain q where q: "a + 1 = n * q" by (auto simp: mod_eq_0_iff_dvd dvd_def)
  then have "a = n * (q - 1) + (n - 1)" by (simp add: algebra_simps)
  then have "a div n = q - 1" using assms by (intro int_div_pos_eq [of a n "q - 1" "n - 1"]) auto
  then show ?thesis using q True assms by simp
next
  case False
  have "a = n * ((a + 1) div n) + ((a + 1) mod n - 1)" by (simp add: algebra_simps)
  moreover have "0 < (a + 1) mod n" "(a + 1) mod n < n" using False assms
    by (simp_all add: le_neq_trans)
  ultimately have "a div n = (a + 1) div n"
    by (intro int_div_pos_eq [of a n "(a + 1) div n" "(a + 1) mod n - 1"]) auto
  then show ?thesis using False by simp
qed

lemma year_span:
  assumes "0 \<le> y" "y < 399"
  shows "year_start (y + 1) - year_start y = (if leap_year (y + 1) then 366 else 365)"
proof -
  have "(y + 1) mod 400 = y + 1" using assms by simp
  moreover have "(y + 1) mod 100 = 0 \<Longrightarrow> (y + 1) mod 4 = 0"
    using mod_mod_cancel [of 4 100 "y + 1"] by simp
  ultimately show ?thesis
    using assms by (auto simp: year_start_def leap_year_def succ_div [of 4] succ_div [of 100])
qed

lemma leap_year_era: "leap_year (y + e * 400) = leap_year y"
proof -
  have "(y + e * 400) mod 4 = y mod 4" "(y + e * 400) mod 100 = y mod 100" "(y + e * 400) mod 400 = y mod 400"
    using mod_mult_self1 [of y "e * 100" 4] mod_mult_self1 [of y "e * 4" 100] by (simp_all add: ac_simps)
  then show ?thesis by (simp add: leap_year_def)
qed

text \<open>Within the year the date moves to the next day; the year ends with February.\<close>

lemma month_index_cases:
  assumes "0 \<le> doy" "doy \<le> 365"
  shows "(5 * doy + 2) div 153 \<in> {0, 1, 2, 3, 4, 5, 6, 7, 8, 9, 10, 11 :: int}"
proof -
  have "0 \<le> (5 * doy + 2) div 153" "(5 * doy + 2) div 153 < 12" using assms by linarith+
  then have "(5 * doy + 2) div 153 \<in> {0..<12}" by simp
  also have "{0..<12 :: int} = {0, 1, 2, 3, 4, 5, 6, 7, 8, 9, 10, 11}" by (rule set_eqI) (simp, presburger)
  finally show ?thesis .
qed

lemma mp_eq: "(5 * doy + 2) div 153 = k \<longleftrightarrow> 153 * k \<le> 5 * doy + 2 \<and> 5 * doy + 2 < 153 * k + 153" for k :: int
  by (auto intro: int_div_pos_eq [of _ _ _ "5 * doy + 2 - 153 * k"])

lemma date_of_next:
  assumes "0 \<le> doy" "doy < 364"
  shows "date_of y (doy + 1) = next_day (date_of y doy)"
proof -
  define mp where "mp = (5 * doy + 2) div 153"
  have mp: "153 * mp \<le> 5 * doy + 2" "5 * doy + 2 < 153 * mp + 153" using mp_eq [of doy mp] mp_def by auto
  have mem: "mp \<in> {0, 1, 2, 3, 4, 5, 6, 7, 8, 9, 10, 11}" using month_index_cases [of doy] assms mp_def by simp
  have nxt: "(5 * (doy + 1) + 2) div 153 = (if 5 * doy + 7 < 153 * mp + 153 then mp else mp + 1)"
    using mp_eq [of "doy + 1" mp] mp_eq [of "doy + 1" "mp + 1"] mp by (auto simp: algebra_simps)
  show ?thesis
    using mem mp assms
    unfolding date_of_def nxt mp_def [symmetric] Let_def
    by (elim insertE emptyE) (auto simp: month_length_def)
qed

lemma date_of_feb: "date_of y 364 = (y + 1, 2, 28)" "date_of y 365 = (y + 1, 2, 29)" "date_of y 0 = (y, 3, 1)"
  by (simp_all add: date_of_def)

lemma next_day_feb:
  "next_day (date_of y 364) = (if leap_year (y + 1) then date_of y 365 else date_of (y + 1) 0)"
  "leap_year (y + 1) \<Longrightarrow> next_day (date_of y 365) = date_of (y + 1) 0"
  by (simp_all add: date_of_feb month_length_def)

text \<open>C30: the calendar conversion is right for every day: it starts at 1970-01-01 and each day
  is the calendar successor of the day before, in both directions from the epoch.\<close>

theorem civil_is_gregorian:
  "civil_from_days 0 = (1970, 1, 1) \<and> civil_from_days (z + 1) = next_day (civil_from_days z)"
proof
  have "civil_from_days 0 = date_of (369 + 4 * 400) (135080 - year_start 369)"
    using civil_date_of [of 0 135080 369] by (simp add: year_start_def)
  then show "civil_from_days 0 = (1970, 1, 1)" by (simp add: year_start_def date_of_def)
  define doe where "doe = (z + 719468) mod 146097"
  define e where "e = (z + 719468) div 146097"
  have doe: "0 \<le> doe" "doe < 146097" by (simp_all add: doe_def)
  have zz: "z + 719468 = 146097 * e + doe" by (simp add: e_def doe_def)
  obtain y where y: "0 \<le> y" "y < 400" "year_start y \<le> doe"
    "doe < (if y = 399 then 146097 else year_start (y + 1))" using year_of_era_exists [OF doe] by blast
  let ?Y = "y + e * 400" and ?doy = "doe - year_start y"
  have here: "civil_from_days z = date_of ?Y ?doy"
    using civil_date_of [OF doe_def [symmetric] y] by (simp add: e_def)
  have span: "(if y = 399 then 146097 else year_start (y + 1)) - year_start y =
      (if leap_year (?Y + 1) then 366 else 365)"
  proof (cases "y = 399")
    case True
    then show ?thesis using leap_year_era [of 400 e] by (simp add: year_start_def leap_year_def ac_simps)
  next
    case False
    then show ?thesis using year_span [of y] leap_year_era [of "y + 1" e] y by (simp add: ac_simps)
  qed
  show "civil_from_days (z + 1) = next_day (civil_from_days z)"
  proof (cases "doe + 1 < (if y = 399 then 146097 else year_start (y + 1))")
    case True
    then have "doe + 1 < 146097" using y year_start_mono [of "y + 1" 399]
      by (auto simp: year_start_def split: if_splits)
    then have m: "(z + 1 + 719468) mod 146097 = doe + 1" "(z + 1 + 719468) div 146097 = e"
      using zz doe int_div_pos_eq [of "z + 1 + 719468" 146097 e "doe + 1"]
        int_mod_pos_eq [of "z + 1 + 719468" 146097 e "doe + 1"] by auto
    have nxt: "civil_from_days (z + 1) = date_of ?Y (?doy + 1)"
      using civil_date_of [OF m(1) y(1,2) _ True] y(3) m(2) by (simp add: algebra_simps)
    show ?thesis
    proof (cases "?doy < 364")
      case True
      then show ?thesis using here nxt date_of_next [of ?doy ?Y] y(3) by simp
    next
      case False
      then have "?doy = 364" "leap_year (?Y + 1)" using span \<open>doe + 1 < (if _ then _ else _)\<close> y(4)
        by (auto split: if_splits)
      then show ?thesis using here nxt next_day_feb(1) [of ?Y] by simp
    qed
  next
    case False
    then have last: "doe + 1 = (if y = 399 then 146097 else year_start (y + 1))" using y(4) by auto
    then have doy: "?doy = (if leap_year (?Y + 1) then 365 else 364)" using span by (auto split: if_splits)
    have nxt: "civil_from_days (z + 1) = date_of (?Y + 1) 0"
    proof (cases "y = 399")
      case True
      then have "doe = 146096" using last by simp
      then have "z + 1 + 719468 = 146097 * (e + 1) + 0" using zz by simp
      then have m: "(z + 1 + 719468) mod 146097 = 0" "(z + 1 + 719468) div 146097 = e + 1"
        by (simp_all only:) simp_all
      show ?thesis
        using civil_date_of [OF m(1), of 0] m(2) True by (simp add: year_start_def algebra_simps)
    next
      case False
      then have l: "doe + 1 = year_start (y + 1)" using last by simp
      have "doe + 1 < 146097" using l False y(2) year_start_mono [of "y + 1" 399] by (simp add: year_start_def)
      then have m: "(z + 1 + 719468) mod 146097 = doe + 1" "(z + 1 + 719468) div 146097 = e"
        using zz doe int_div_pos_eq [of "z + 1 + 719468" 146097 e "doe + 1"]
          int_mod_pos_eq [of "z + 1 + 719468" 146097 e "doe + 1"] by auto
      have "doe + 1 < (if y + 1 = 399 then 146097 else year_start (y + 1 + 1))"
        using l \<open>doe + 1 < 146097\<close> year_start_step [of "y + 1"] by (auto simp: year_start_def)
      then show ?thesis
        using civil_date_of [OF m(1), of "y + 1"] m(2) l False y by (simp add: algebra_simps)
    qed
    show ?thesis
      using here nxt doy next_day_feb [of ?Y] by (cases "leap_year (?Y + 1)") simp_all
  qed
qed

end
