(* ===== verification/Webhook.thy ===== *)
theory Webhook
  imports Civil Derive InvoiceBook
begin

text \<open>
  \<open>crates/gp-core/src/webhook.rs\<close> and the delivery worker
  \<open>crates/gp-server/src/webhookd.rs\<close>: the signed payload, the retry schedule, the persisted
  queue and one drain pass. HMAC-SHA256 (\<open>hmac\<close>), the constant-time comparison (\<open>ct_eq\<close>),
  the JSON serializer (\<open>to_body\<close>) and the HTTP client (\<open>send\<close>) are arguments.
\<close>

subsection \<open>Amounts\<close>

definition nanogrin_to_grin :: "u64 \<Rightarrow> string" where
  "nanogrin_to_grin nano =
     (let whole = nano div 1000000000; frac = nano mod 1000000000 in
      if frac = 0 then show_nat (unat whole)
      else show_nat (unat whole) @ ''.'' @ trim_end_matches (CHR ''0'') (pad_nat 9 (unat frac)))"

subsection \<open>Payloads\<close>

record payment_payload =
  pp_slate_id :: string
  pp_amount :: u64
  pp_amount_grin :: string
  pp_status :: string
  pp_payer :: "string option"
  pp_confirmed_height :: "u64 option"
  pp_confirmations :: "u64 option"

record webhook_payload =
  event_id :: string
  wp_event_type :: string
  wp_created_at :: string
  wp_payment :: payment_payload
  wp_invoice_id :: "string option"
  wp_order_ref :: "string option"
  wp_user_id :: "string option"

text \<open>\<open>rid\<close> is \<open>ids::random_id()\<close>, \<open>now\<close> the Unix time of the call.\<close>

definition payload_received ::
  "string \<Rightarrow> int \<Rightarrow> string \<Rightarrow> u64 \<Rightarrow> string option \<Rightarrow> string option \<Rightarrow> string option \<Rightarrow> string option
   \<Rightarrow> webhook_payload" where
  "payload_received rid now sid amount payer_hex iid oref uid =
     \<lparr>event_id = rid, wp_event_type = ''payment.received'', wp_created_at = iso8601 now,
      wp_payment = \<lparr>pp_slate_id = sid, pp_amount = amount, pp_amount_grin = nanogrin_to_grin amount,
                    pp_status = ''received'', pp_payer = payer_hex, pp_confirmed_height = None,
                    pp_confirmations = None\<rparr>,
      wp_invoice_id = iid, wp_order_ref = oref, wp_user_id = uid\<rparr>"

definition payload_confirmed ::
  "string \<Rightarrow> int \<Rightarrow> string \<Rightarrow> u64 \<Rightarrow> string option \<Rightarrow> string option \<Rightarrow> string option \<Rightarrow> string option
   \<Rightarrow> u64 option \<Rightarrow> u64 \<Rightarrow> webhook_payload" where
  "payload_confirmed rid now sid amount payer_hex iid oref uid height depth =
     \<lparr>event_id = rid, wp_event_type = ''payment.confirmed'', wp_created_at = iso8601 now,
      wp_payment = \<lparr>pp_slate_id = sid, pp_amount = amount, pp_amount_grin = nanogrin_to_grin amount,
                    pp_status = ''confirmed'', pp_payer = payer_hex, pp_confirmed_height = height,
                    pp_confirmations = Some depth\<rparr>,
      wp_invoice_id = iid, wp_order_ref = oref, wp_user_id = uid\<rparr>"

subsection \<open>Signature\<close>

definition sign :: "(bytes \<Rightarrow> bytes \<Rightarrow> bytes) \<Rightarrow> string \<Rightarrow> bytes \<Rightarrow> string" where
  "sign hmac secret body = ''sha256='' @ hex_encode (hmac (bytes_of secret) body)"

definition verify ::
  "(bytes \<Rightarrow> bytes \<Rightarrow> bytes) \<Rightarrow> (bytes \<Rightarrow> bytes \<Rightarrow> bool) \<Rightarrow> string \<Rightarrow> bytes \<Rightarrow> string \<Rightarrow> bool" where
  "verify hmac ct_eq secret body header =
     (let a = bytes_of (sign hmac secret body); b = bytes_of (trim header)
      in if length a \<noteq> length b then False else ct_eq a b)"

subsection \<open>The retry schedule\<close>

definition BACKOFF_BASE :: int where "BACKOFF_BASE = 30"
definition BACKOFF_CAP :: int where "BACKOFF_CAP = 3600"
definition MAX_ATTEMPTS :: int where "MAX_ATTEMPTS = 12"

text \<open>\<open>saturating_mul\<close> of non-negative i64 values.\<close>

definition backoff_secs :: "int \<Rightarrow> int" where
  "backoff_secs n =
     (if n \<le> 0 then 0
      else let shift = nat (min (n - 1) 20)
           in min (min (BACKOFF_BASE * 2 ^ shift) (2 ^ 63 - 1)) BACKOFF_CAP)"

subsection \<open>The queue\<close>

definition enqueue ::
  "(webhook_payload \<Rightarrow> 'b) \<Rightarrow> int \<Rightarrow> string \<Rightarrow> webhook_payload \<Rightarrow> 'b db \<Rightarrow> string sql_result \<times> 'b db" where
  "enqueue to_body now url p d =
     (if event_id p \<in> del_id ` set (deliveries d) then (Inl ConstraintViolation, d)
      else (Inr (event_id p),
            d\<lparr>deliveries := deliveries d @
                [\<lparr>del_id = event_id p, del_payment_id = Some (pp_slate_id (wp_payment p)),
                  event_type = wp_event_type p, del_url = url, del_body = to_body p, attempts = 0,
                  delivered = 0, next_attempt_at = now, last_error = None, del_created_at = now,
                  del_updated_at = now\<rparr>]\<rparr>))"

definition is_due :: "int \<Rightarrow> 'b delivery \<Rightarrow> bool" where
  "is_due now r \<longleftrightarrow> delivered r = 0 \<and> attempts r < MAX_ATTEMPTS \<and> next_attempt_at r \<le> now"

definition due :: "int \<Rightarrow> int \<Rightarrow> 'b db \<Rightarrow> 'b delivery list" where
  "due now limit d = sql_limit limit (sort_key next_attempt_at (filter (is_due now) (deliveries d)))"

definition mark_delivered :: "int \<Rightarrow> string \<Rightarrow> 'b db \<Rightarrow> 'b db" where
  "mark_delivered now did d =
     d\<lparr>deliveries := update_where (\<lambda>r. del_id r = did)
         (\<lambda>r. r\<lparr>delivered := 1, attempts := attempts r + 1, last_error := None, del_updated_at := now\<rparr>)
         (deliveries d)\<rparr>"

definition mark_failed :: "int \<Rightarrow> string \<Rightarrow> string \<Rightarrow> 'b db \<Rightarrow> unit sql_result \<times> 'b db" where
  "mark_failed now did err d =
     (case lookup_by del_id did (deliveries d) of
        None \<Rightarrow> (Inl RowNotFound, d)
      | Some r0 \<Rightarrow>
          let n = attempts r0 + 1
          in (Inr (),
              d\<lparr>deliveries := update_where (\<lambda>r. del_id r = did)
                  (\<lambda>r. r\<lparr>attempts := n, last_error := Some err,
                         next_attempt_at := now + backoff_secs n, del_updated_at := now\<rparr>)
                  (deliveries d)\<rparr>))"

subsection \<open>One drain pass\<close>

text \<open>
  What the HTTP client answers to the signed POST of the \<open>k\<close>-th delivery of the pass: a
  status code, or the text of a transport error.
\<close>

datatype http_reply = Status nat | Transport string

type_synonym 'b http = "nat \<Rightarrow> string \<Rightarrow> string \<Rightarrow> string \<Rightarrow> 'b \<Rightarrow> http_reply"

definition is_success :: "nat \<Rightarrow> bool" where
  "is_success code \<longleftrightarrow> 200 \<le> code \<and> code < 300"

definition BATCH :: int where "BATCH = 20"

fun drain_each ::
  "(bytes \<Rightarrow> bytes \<Rightarrow> bytes) \<Rightarrow> ('b \<Rightarrow> bytes) \<Rightarrow> 'b http \<Rightarrow> string \<Rightarrow> int \<Rightarrow> nat \<Rightarrow> 'b delivery list \<Rightarrow> 'b db
   \<Rightarrow> unit sql_result \<times> 'b db" where
  "drain_each hmac as_bytes send secret now k [] d = (Inr (), d)"
| "drain_each hmac as_bytes send secret now k (r # rs) d =
     (let signature = sign hmac secret (as_bytes (del_body r)) in
      case send k (del_url r) signature (del_id r) (del_body r) of
        Status code \<Rightarrow>
          if is_success code
          then drain_each hmac as_bytes send secret now (k + 1) rs (mark_delivered now (del_id r) d)
          else (case mark_failed now (del_id r) (''HTTP '' @ show_nat code) d of
                  (Inl e, d') \<Rightarrow> (Inl e, d')
                | (Inr _, d') \<Rightarrow> drain_each hmac as_bytes send secret now (k + 1) rs d')
      | Transport msg \<Rightarrow>
          (case mark_failed now (del_id r) msg d of
             (Inl e, d') \<Rightarrow> (Inl e, d')
           | (Inr _, d') \<Rightarrow> drain_each hmac as_bytes send secret now (k + 1) rs d'))"

definition drain ::
  "(bytes \<Rightarrow> bytes \<Rightarrow> bytes) \<Rightarrow> ('b \<Rightarrow> bytes) \<Rightarrow> 'b http \<Rightarrow> string \<Rightarrow> int \<Rightarrow> 'b db
   \<Rightarrow> unit sql_result \<times> 'b db" where
  "drain hmac as_bytes send secret now d =
     drain_each hmac as_bytes send secret now 0 (due now BATCH d) d"

text \<open>\<open>url.split("://").nth(1)\<close> up to the next slash.\<close>

definition host_of :: "string \<Rightarrow> string" where
  "host_of url =
     (case split_once ''://'' url of
        None \<Rightarrow> ''?''
      | Some (_, rest) \<Rightarrow>
          (case split_once ''://'' rest of
             None \<Rightarrow> hd (split_on (CHR ''/'') rest)
           | Some (seg, _) \<Rightarrow> hd (split_on (CHR ''/'') seg)))"

subsection \<open>Amounts round-trip\<close>

text \<open>Reading a decimal Grin amount back, in nanogrin.\<close>

definition grin_value :: "string \<Rightarrow> nat option" where
  "grin_value s =
     (case split_on (CHR ''.'') s of
        [w] \<Rightarrow> map_option (\<lambda>n. n * 10 ^ 9) (parse_unsigned w)
      | [w, f] \<Rightarrow>
          (if length f \<le> 9 then
             (case (parse_unsigned w, parse_unsigned f) of
                (Some n, Some m) \<Rightarrow> Some (n * 10 ^ 9 + m * 10 ^ (9 - length f))
              | _ \<Rightarrow> None)
           else None)
      | _ \<Rightarrow> None)"

lemma digits_val_scale: "digits_val a s = Some v \<Longrightarrow> digits_val (a + b) s = Some (v + b * 10 ^ length s)"
proof (induction s arbitrary: a b)
  case Nil
  then show ?case by simp
next
  case (Cons c s)
  then obtain x where x: "digit_val c = Some x" "digits_val (10 * a + x) s = Some v"
    by (auto split: option.splits)
  from Cons.IH [OF x(2), of "10 * b"] x(1) show ?case by (simp add: algebra_simps)
qed

lemma digits_val_replicate: "digits_val a (replicate n (CHR ''0'')) = Some (a * 10 ^ n)"
proof (induction n arbitrary: a)
  case 0
  then show ?case by simp
next
  case (Suc n)
  have "digit_val (CHR ''0'') = Some 0" by (simp add: digit_val_def)
  with Suc show ?case by simp
qed

lemma digits_val_pad: "digits_val 0 (pad_nat w n) = Some n"
  by (simp add: pad_nat_def digits_val_append digits_val_replicate digits_val_show_nat)

lemma length_show_nat: "n < 10 ^ k \<Longrightarrow> 0 < k \<Longrightarrow> length (show_nat n) \<le> k"
proof (induction n arbitrary: k rule: show_nat.induct)
  case (1 n)
  show ?case
  proof (cases "n < 10")
    case True
    with 1 show ?thesis by (subst show_nat.simps) simp
  next
    case False
    then obtain k' where k: "k = Suc k'" "0 < k'" using 1 by (cases k; cases "k - 1") auto
    then have "n div 10 < 10 ^ k'" using "1.prems" by (simp add: less_mult_imp_div_less mult.commute)
    from "1.IH" [OF False this k(2)] show ?thesis using False k by (subst show_nat.simps) simp
  qed
qed

lemma length_pad_nat: "n < 10 ^ w \<Longrightarrow> 0 < w \<Longrightarrow> length (pad_nat w n) = w"
  using length_show_nat [of n w] by (simp add: pad_nat_def)

lemma no_dot_show: "CHR ''.'' \<notin> set (show_nat n)"
proof
  assume "CHR ''.'' \<in> set (show_nat n)"
  then obtain d where "d < 10" "CHR ''.'' = digit_char d" using show_nat_digits by blast
  then have "digit_val (CHR ''.'') = Some d" by simp
  then show False by (simp add: digit_val_def)
qed

lemma no_dot_pad: "CHR ''.'' \<notin> set (pad_nat w n)"
  using no_dot_show by (simp add: pad_nat_def)

lemma digits_val_trimmed:
  assumes "digits_val 0 (t @ replicate n (CHR ''0'')) = Some m"
  shows "\<exists>v. digits_val 0 t = Some v \<and> m = v * 10 ^ n"
  using assms by (auto simp: digits_val_append digits_val_replicate split: option.splits)

text \<open>The decimal Grin string of a nanogrin amount denotes exactly that amount: no digit is
  lost in the split into whole and fractional part, the padding and the trimming.\<close>

lemma grin_string_exact: "grin_value (nanogrin_to_grin nano) = Some (unat nano)"
proof -
  define W where "W = unat nano div 10 ^ 9"
  define F where "F = unat nano mod 10 ^ 9"
  have w: "unat (nano div 1000000000) = W" and f: "unat (nano mod 1000000000) = F"
    by (simp_all add: unat_div unat_mod W_def F_def)
  have frac0: "nano mod 1000000000 = 0 \<longleftrightarrow> F = 0" using f by (metis unat_eq_zero)
  have split: "unat nano = W * 10 ^ 9 + F" by (simp only: W_def F_def div_mult_mod_eq)
  have F: "F < 10 ^ 9" by (simp add: F_def)
  have wv: "parse_unsigned (show_nat W) = Some W"
    by (simp add: parse_unsigned_def show_nat_nonempty digits_val_show_nat)
  show ?thesis
  proof (cases "F = 0")
    case True
    then have "nanogrin_to_grin nano = show_nat W" using w frac0 by (simp add: nanogrin_to_grin_def)
    then show ?thesis using split True wv by (simp add: grin_value_def split_on_free [OF no_dot_show])
  next
    case False
    let ?p = "pad_nat 9 F" and ?t = "trim_end_matches (CHR ''0'') (pad_nat 9 F)"
    have s: "nanogrin_to_grin nano = show_nat W @ CHR ''.'' # ?t"
      using w f frac0 False by (simp add: nanogrin_to_grin_def Let_def)
    obtain n where n: "?p = ?t @ replicate n (CHR ''0'')" using trim_end_matches_prefix by blast
    have len: "length ?p = 9" by (rule length_pad_nat [OF F]) simp
    then have tn: "length ?t + n = 9" using n by (metis length_append length_replicate)
    have "digits_val 0 (?t @ replicate n (CHR ''0'')) = Some F" using digits_val_pad [of 9 F] n by metis
    then obtain v where v: "digits_val 0 ?t = Some v" "F = v * 10 ^ n" using digits_val_trimmed by blast
    have ne: "?t \<noteq> []" using v False by (cases ?t) auto
    moreover have "CHR ''.'' \<notin> set ?t" using no_dot_pad [of 9 F] n by (metis UnI1 set_append)
    moreover have "9 - length ?t = n" "length ?t \<le> 9" using tn by auto
    moreover have "parse_unsigned ?t = Some v" using v ne by (simp add: parse_unsigned_def)
    ultimately show ?thesis
      using split v(2) s wv by (simp add: grin_value_def split_on_append [OF no_dot_show] split_on_free)
  qed
qed

subsection \<open>Signature\<close>

lemma hex_digit_plain:
  assumes "d < 16"
  shows "of_char (hex_digit d) < (128 :: nat)" "\<not> ws1 (hex_digit d)"
proof -
  have "(of_char (hex_digit d) :: nat) = (if d < 10 then 48 + d else 87 + d)"
    using assms by (auto simp: hex_digit_def take_bit_eq_mod)
  then show "of_char (hex_digit d) < (128 :: nat)" and "\<not> ws1 (hex_digit d)"
    using assms by (auto simp: ws1_def split: if_splits)
qed

lemma hex_encode_rev: "bs \<noteq> [] \<Longrightarrow> \<exists>d s. d < 16 \<and> rev (hex_encode bs) = hex_digit d # s"
proof (induction bs rule: rev_induct)
  case Nil
  then show ?case by simp
next
  case (snoc b bs)
  have "rev (hex_encode (bs @ [b])) = hex_digit (unat b mod 16) # hex_digit (unat b div 16) # rev (hex_encode bs)"
    by (simp add: hex_encode_def hex_byte_def)
  moreover have "unat b mod 16 < 16" by simp
  ultimately show ?case by blast
qed

lemma trim_sign: "trim (sign hmac secret body) = sign hmac secret body"
proof (rule trim_id)
  let ?m = "hmac (bytes_of secret) body"
  show "ws_len (sign hmac secret body) = 0"
    unfolding sign_def append_Cons by (rule ws_len_ascii(1)) (simp_all add: ws1_def)
  show "ws_len_rev (rev (sign hmac secret body)) = 0"
  proof (cases "?m = []")
    case True
    then show ?thesis by (simp add: sign_def hex_encode_def ws_len_ascii(2) ws1_def del: ws_len_rev.simps)
  next
    case False
    then obtain d s where "d < 16" "rev (hex_encode ?m) = hex_digit d # s" using hex_encode_rev by blast
    then show ?thesis using hex_digit_plain [of d] by (simp add: sign_def ws_len_ascii(2) del: ws_len_rev.simps)
  qed
qed

lemma verify_eq:
  assumes "\<And>a b. length a = length b \<Longrightarrow> ct_eq a b \<longleftrightarrow> a = b"
  shows "verify hmac ct_eq secret body header \<longleftrightarrow> trim header = sign hmac secret body"
proof (cases "length (bytes_of (sign hmac secret body)) = length (bytes_of (trim header))")
  case True
  then show ?thesis using assms [OF True] bytes_of_inj by (auto simp: verify_def Let_def)
next
  case False
  then have "trim header \<noteq> sign hmac secret body" by metis
  with False show ?thesis by (simp add: verify_def Let_def)
qed

text \<open>A signature header verifies exactly when the digest it was made with is the digest of
  the received body under the receiver's secret; whoever signs the body that is sent, with the
  shared secret, is always accepted.\<close>

lemma signature_binds_body:
  assumes "\<And>a b. length a = length b \<Longrightarrow> ct_eq a b \<longleftrightarrow> a = b"
  shows "verify hmac ct_eq secret body (sign hmac secret' body') \<longleftrightarrow>
           hmac (bytes_of secret) body = hmac (bytes_of secret') body'"
proof -
  have "verify hmac ct_eq secret body (sign hmac secret' body') \<longleftrightarrow>
          sign hmac secret' body' = sign hmac secret body"
    using verify_eq [where ct_eq = ct_eq, OF assms] trim_sign by simp
  also have "\<dots> \<longleftrightarrow> hmac (bytes_of secret) body = hmac (bytes_of secret') body'"
    using hex_encode_inj by (auto simp: sign_def)
  finally show ?thesis .
qed

text \<open>The comparison is exact: a header whose scheme is in another letter case is refused.\<close>

lemma verify_scheme_case:
  assumes "\<And>a b. length a = length b \<Longrightarrow> ct_eq a b \<longleftrightarrow> a = b"
    and "trim header = c # s" "c \<noteq> CHR ''s''"
  shows "\<not> verify hmac ct_eq secret body header"
  using verify_eq [where ct_eq = ct_eq, OF assms(1)] assms(2,3) by (simp add: sign_def)

subsection \<open>The retry schedule\<close>

lemma two_pow_mono: "(n :: nat) \<le> m \<Longrightarrow> (2 :: int) ^ n \<le> 2 ^ m"
  by (rule power_increasing) simp_all

lemma backoff_closed_form: "backoff_secs n = (if n \<le> 0 then 0 else min (30 * 2 ^ nat (n - 1)) 3600)"
proof (cases "n \<le> 21")
  case True
  then have "nat (n - 1) \<le> 20" by simp
  then have "(2 :: int) ^ nat (n - 1) \<le> 2 ^ 20" by (rule two_pow_mono)
  then show ?thesis using True
    by (auto simp: backoff_secs_def BACKOFF_BASE_def BACKOFF_CAP_def Let_def min_def)
next
  case False
  then have "20 \<le> nat (n - 1)" by simp
  then have "(2 :: int) ^ 20 \<le> 2 ^ nat (n - 1)" by (rule two_pow_mono)
  then show ?thesis using False
    by (auto simp: backoff_secs_def BACKOFF_BASE_def BACKOFF_CAP_def Let_def min_def)
qed

lemma backoff_bounds: "1 \<le> n \<Longrightarrow> 30 \<le> backoff_secs n \<and> backoff_secs n \<le> 3600"
  using two_pow_mono [of 0 "nat (n - 1)"] by (simp add: backoff_closed_form min_def)

subsection \<open>The queue's invariant\<close>

definition queue_wf :: "'b db \<Rightarrow> bool" where
  "queue_wf d \<longleftrightarrow>
     distinct (map del_id (deliveries d)) \<and>
     (\<forall>r \<in> set (deliveries d). 0 \<le> attempts r \<and> attempts r \<le> MAX_ATTEMPTS \<and> delivered r \<in> {0, 1})"

definition after_attempt :: "int \<Rightarrow> http_reply \<Rightarrow> 'b delivery \<Rightarrow> 'b delivery" where
  "after_attempt now reply r =
     (case reply of
        Status code \<Rightarrow>
          (if is_success code
           then r\<lparr>delivered := 1, attempts := attempts r + 1, last_error := None, del_updated_at := now\<rparr>
           else r\<lparr>attempts := attempts r + 1, last_error := Some (''HTTP '' @ show_nat code),
                  next_attempt_at := now + backoff_secs (attempts r + 1), del_updated_at := now\<rparr>)
      | Transport msg \<Rightarrow>
          r\<lparr>attempts := attempts r + 1, last_error := Some msg,
            next_attempt_at := now + backoff_secs (attempts r + 1), del_updated_at := now\<rparr>)"

lemma after_attempt_simps [simp]:
  "del_id (after_attempt now reply r) = del_id r"
  "attempts (after_attempt now reply r) = attempts r + 1"
  by (auto simp: after_attempt_def split: http_reply.splits)

definition replace_row :: "'b delivery \<Rightarrow> 'b db \<Rightarrow> 'b db" where
  "replace_row r d =
     d\<lparr>deliveries := update_where (\<lambda>x. del_id x = del_id r) (\<lambda>_. r) (deliveries d)\<rparr>"

lemma update_where_unique:
  assumes "distinct (map key t)" "lookup_by key k t = Some r"
  shows "update_where (\<lambda>x. key x = k) f t = update_where (\<lambda>x. key x = k) (\<lambda>_. f r) t"
proof -
  have "x = r" if "x \<in> set t" "key x = k" for x
    using lookup_by_distinct [OF assms(1) that(1)] that(2) assms(2) by simp
  then show ?thesis by (auto simp: update_where_def)
qed

text \<open>One delivery attempt writes exactly its row.\<close>

lemma drain_each_step:
  assumes dist: "distinct (map del_id (deliveries d))" and l: "lookup_by del_id (del_id r) (deliveries d) = Some r"
  shows "drain_each hmac as_bytes send secret now k (r # rs) d =
           drain_each hmac as_bytes send secret now (k + 1) rs
             (replace_row (after_attempt now
                (send k (del_url r) (sign hmac secret (as_bytes (del_body r))) (del_id r) (del_body r)) r) d)"
proof -
  have "mark_delivered now (del_id r) d =
      replace_row (r\<lparr>delivered := 1, attempts := attempts r + 1, last_error := None, del_updated_at := now\<rparr>) d"
    unfolding mark_delivered_def by (subst update_where_unique [OF dist l]) (simp add: replace_row_def)
  moreover have "mark_failed now (del_id r) e d =
      (Inr (), replace_row (r\<lparr>attempts := attempts r + 1, last_error := Some e,
                   next_attempt_at := now + backoff_secs (attempts r + 1), del_updated_at := now\<rparr>) d)" for e
    unfolding mark_failed_def l option.case Let_def
    by (subst update_where_unique [OF dist l]) (simp add: replace_row_def)
  ultimately show ?thesis
    by (simp add: Let_def after_attempt_def split: http_reply.splits)
qed

lemma replace_row_keys: "map del_id (deliveries (replace_row r d)) = map del_id (deliveries d)"
  by (simp add: replace_row_def update_where_def)

lemma replace_row_lookup:
  "lookup_by del_id k (deliveries (replace_row r d)) =
     (if k = del_id r then map_option (\<lambda>_. r) (lookup_by del_id k (deliveries d))
      else lookup_by del_id k (deliveries d))"
proof -
  have "lookup_by del_id k (update_where (\<lambda>x. del_id x = del_id r) (\<lambda>_. r) t) =
      (if k = del_id r then map_option (\<lambda>_. r) (lookup_by del_id k t) else lookup_by del_id k t)" for t
    by (induction t) auto
  then show ?thesis by (simp add: replace_row_def)
qed

text \<open>The rows a pass leaves for the deliveries it attempted.\<close>

fun attempted ::
  "(bytes \<Rightarrow> bytes \<Rightarrow> bytes) \<Rightarrow> ('b \<Rightarrow> bytes) \<Rightarrow> 'b http \<Rightarrow> string \<Rightarrow> int \<Rightarrow> nat \<Rightarrow> 'b delivery list \<Rightarrow> 'b delivery list" where
  "attempted hmac as_bytes send secret now k [] = []"
| "attempted hmac as_bytes send secret now k (r # rs) =
     after_attempt now (send k (del_url r) (sign hmac secret (as_bytes (del_body r))) (del_id r) (del_body r)) r
     # attempted hmac as_bytes send secret now (k + 1) rs"

lemma attempted_keys [simp]: "map del_id (attempted hmac as_bytes send secret now k rs) = map del_id rs"
  by (induction rs arbitrary: k) auto

lemma attempted_ids: "del_id ` set (attempted hmac as_bytes send secret now k rs) = del_id ` set rs"
  by (metis attempted_keys set_map)

lemma drain_each_result:
  assumes "distinct (map del_id (deliveries d))" "distinct (map del_id rs)"
    and "\<And>r. r \<in> set rs \<Longrightarrow> lookup_by del_id (del_id r) (deliveries d) = Some r"
  shows "\<exists>d'. drain_each hmac as_bytes send secret now k rs d = (Inr (), d') \<and>
     map del_id (deliveries d') = map del_id (deliveries d) \<and> invoices d' = invoices d \<and>
     (\<forall>i. lookup_by del_id i (deliveries d') =
        (case lookup_by del_id i (attempted hmac as_bytes send secret now k rs) of
           Some r \<Rightarrow> Some r | None \<Rightarrow> lookup_by del_id i (deliveries d)))"
  using assms
proof (induction rs arbitrary: k d)
  case Nil
  then show ?case by simp
next
  case (Cons r rs)
  let ?r' = "after_attempt now (send k (del_url r) (sign hmac secret (as_bytes (del_body r))) (del_id r) (del_body r)) r"
  let ?d = "replace_row ?r' d"
  have l: "lookup_by del_id (del_id r) (deliveries d) = Some r" using Cons.prems(3) by simp
  have keys: "map del_id (deliveries ?d) = map del_id (deliveries d)" by (rule replace_row_keys)
  have rest: "lookup_by del_id (del_id v) (deliveries ?d) = Some v" if "v \<in> set rs" for v
  proof -
    have "del_id r \<notin> del_id ` set rs" using Cons.prems(2) by simp
    then have "del_id v \<noteq> del_id r" using that by (metis image_eqI)
    with that Cons.prems(3) show ?thesis by (simp add: replace_row_lookup)
  qed
  have none: "lookup_by del_id (del_id r) (attempted hmac as_bytes send secret now (k + 1) rs) = None"
    using Cons.prems(2) by (simp only: lookup_by_None attempted_ids) simp
  from Cons.IH [OF _ _ rest, of "k + 1"] keys Cons.prems(1,2) obtain d' where
    d': "drain_each hmac as_bytes send secret now (k + 1) rs ?d = (Inr (), d')"
      "map del_id (deliveries d') = map del_id (deliveries d)" "invoices d' = invoices ?d"
      "\<And>i. lookup_by del_id i (deliveries d') =
        (case lookup_by del_id i (attempted hmac as_bytes send secret now (k + 1) rs) of
           Some r \<Rightarrow> Some r | None \<Rightarrow> lookup_by del_id i (deliveries ?d))" by auto
  have "lookup_by del_id i (deliveries d') =
        (case lookup_by del_id i (attempted hmac as_bytes send secret now k (r # rs)) of
           Some r \<Rightarrow> Some r | None \<Rightarrow> lookup_by del_id i (deliveries d))" for i
    using d'(4) [of i] l none by (cases "i = del_id r") (auto simp: replace_row_lookup split: option.splits)
  then show ?case
    using d'(1-3) drain_each_step [OF Cons.prems(1) l] by (auto simp: replace_row_def)
qed

lemma due_rows:
  assumes "distinct (map del_id (deliveries d))"
  shows "distinct (map del_id (due now limit d))"
    and "r \<in> set (due now limit d) \<Longrightarrow>
         r \<in> set (deliveries d) \<and> is_due now r \<and> lookup_by del_id (del_id r) (deliveries d) = Some r"
proof -
  let ?s = "sort_key next_attempt_at (filter (is_due now) (deliveries d))"
  have d: "distinct (map del_id ?s)"
  proof -
    have "distinct ?s" using assms by (simp add: distinct_map)
    moreover have "inj_on del_id (set ?s)" using assms by (auto simp: distinct_map inj_on_def)
    ultimately show ?thesis by (simp add: distinct_map)
  qed
  then show "distinct (map del_id (due now limit d))"
    by (simp add: due_def sql_limit_def take_map [symmetric] distinct_take)
  assume "r \<in> set (due now limit d)"
  then have "r \<in> set ?s" by (auto simp: due_def sql_limit_def split: if_splits dest: in_set_takeD)
  then show "r \<in> set (deliveries d) \<and> is_due now r \<and> lookup_by del_id (del_id r) (deliveries d) = Some r"
    using lookup_by_distinct [OF assms] by simp
qed

text \<open>C24: a drain pass attempts every due delivery of its batch exactly once and writes each
  outcome to that delivery alone: delivered, or rescheduled with its backoff; no other row of
  the queue and no invoice changes, and the pass never fails half way.\<close>

theorem drain_attempts_each_due_once:
  assumes "distinct (map del_id (deliveries d))"
  shows "\<exists>d'. drain hmac as_bytes send secret now d = (Inr (), d') \<and>
     map del_id (deliveries d') = map del_id (deliveries d) \<and> invoices d' = invoices d \<and>
     (\<forall>i. lookup_by del_id i (deliveries d') =
        (case lookup_by del_id i (attempted hmac as_bytes send secret now 0 (due now BATCH d)) of
           Some r \<Rightarrow> Some r | None \<Rightarrow> lookup_by del_id i (deliveries d)))"
  unfolding drain_def
  by (rule drain_each_result [OF assms due_rows(1) [OF assms]]) (rule due_rows(2) [OF assms, THEN conjunct2, THEN conjunct2])

theorem drain_attempts_each_due_once_witness:
  "\<exists>d'. drain (\<lambda>k m. m) bytes_of (\<lambda>_ _ _ _ _. Status 200) ''s'' 5
       (\<lparr>invoices = [], payments = [], users = [], endpubs = [],
         deliveries = [\<lparr>del_id = ''e1'', del_payment_id = None, event_type = ''payment.received'',
           del_url = ''https://shop'', del_body = ''{}'', attempts = 0, delivered = 0, next_attempt_at = 3,
           last_error = None, del_created_at = 1, del_updated_at = 1\<rparr>]\<rparr>) = (Inr (), d') \<and>
     invoices d' = []"
  using drain_attempts_each_due_once [of "\<lparr>invoices = [], payments = [], users = [], endpubs = [],
         deliveries = [\<lparr>del_id = ''e1'', del_payment_id = None, event_type = ''payment.received'',
           del_url = ''https://shop'', del_body = ''{}'', attempts = 0, delivered = 0, next_attempt_at = 3,
           last_error = None, del_created_at = 1, del_updated_at = 1\<rparr>]\<rparr>"
      "\<lambda>k m. m" bytes_of "\<lambda>_ _ _ _ _. Status 200" "''s''" 5]
  by auto

subsection \<open>Retries are bounded\<close>

lemma attempted_lookup:
  "lookup_by del_id i (attempted hmac as_bytes send secret now k rs) = Some r' \<Longrightarrow>
   \<exists>r reply. r \<in> set rs \<and> del_id r = i \<and> r' = after_attempt now reply r"
proof (induction rs arbitrary: k)
  case Nil
  then show ?case by simp
next
  case (Cons a rs)
  show ?case
  proof (cases "del_id a = i")
    case True
    with Cons.prems show ?thesis by auto
  next
    case False
    with Cons.prems have "lookup_by del_id i (attempted hmac as_bytes send secret now (k + 1) rs) = Some r'" by simp
    from Cons.IH [OF this] show ?thesis by auto
  qed
qed

lemma due_attempts: "r \<in> set (due now BATCH d) \<Longrightarrow> attempts r < MAX_ATTEMPTS \<and> delivered r = 0"
  by (auto simp: due_def sql_limit_def is_due_def BATCH_def dest: in_set_takeD)

definition sent_in_pass :: "string \<Rightarrow> int \<Rightarrow> 'b db \<Rightarrow> nat" where
  "sent_in_pass i now d = (if i \<in> del_id ` set (due now BATCH d) then 1 else 0)"

lemma drain_pass:
  assumes wf: "queue_wf d"
    and d'_def: "d' = snd (drain hmac as_bytes send secret now d)"
  shows "queue_wf d'"
    and "lookup_by del_id i (deliveries d) = Some r \<Longrightarrow>
      \<exists>r'. lookup_by del_id i (deliveries d') = Some r' \<and> attempts r' = attempts r + int (sent_in_pass i now d) \<and>
           (delivered r = 1 \<longrightarrow> r' = r \<and> sent_in_pass i now d = 0)"
proof -
  have dist: "distinct (map del_id (deliveries d))" using wf by (simp add: queue_wf_def)
  note dr = due_rows(2) [OF dist, of _ now BATCH]
  let ?at = "attempted hmac as_bytes send secret now 0 (due now BATCH d)"
  obtain x where x: "drain hmac as_bytes send secret now d = (Inr (), x)"
    "map del_id (deliveries x) = map del_id (deliveries d)"
    "\<And>i. lookup_by del_id i (deliveries x) =
        (case lookup_by del_id i ?at of Some r \<Rightarrow> Some r | None \<Rightarrow> lookup_by del_id i (deliveries d))"
    using drain_each_result [OF dist due_rows(1) [OF dist] dr [THEN conjunct2, THEN conjunct2],
      where hmac = hmac and as_bytes = as_bytes and send = send and secret = secret and now = now and k = 0]
    unfolding drain_def by blast
  then have x': "d' = x" by (simp add: d'_def)
  have one: "\<exists>r'. lookup_by del_id i (deliveries x) = Some r' \<and> attempts r' = attempts r + int (sent_in_pass i now d) \<and>
           (delivered r = 1 \<longrightarrow> r' = r \<and> sent_in_pass i now d = 0) \<and>
           (0 \<le> attempts r' \<and> attempts r' \<le> MAX_ATTEMPTS \<and> delivered r' \<in> {0, 1})"
    if l: "lookup_by del_id i (deliveries d) = Some r" for i r
  proof (cases "lookup_by del_id i ?at")
    case None
    then have "i \<notin> del_id ` set (due now BATCH d)" by (simp only: lookup_by_None attempted_ids) simp
    with None l x(3) wf lookup_by_Some [OF l] show ?thesis by (auto simp: sent_in_pass_def queue_wf_def)
  next
    case (Some r')
    from attempted_lookup [OF Some] obtain v reply where
      v: "v \<in> set (due now BATCH d)" "del_id v = i" "r' = after_attempt now reply v" by blast
    have "v = r" using dr [OF v(1)] v(2) l by simp
    moreover have "delivered r' \<in> {0, 1}" using v due_attempts [OF v(1)]
      by (auto simp: after_attempt_def split: http_reply.splits)
    ultimately show ?thesis
      using Some x(3) v due_attempts [OF v(1)] dr [OF v(1)] wf
      by (auto simp: sent_in_pass_def queue_wf_def)
  qed
  show "lookup_by del_id i (deliveries d) = Some r \<Longrightarrow>
      \<exists>r'. lookup_by del_id i (deliveries d') = Some r' \<and> attempts r' = attempts r + int (sent_in_pass i now d) \<and>
           (delivered r = 1 \<longrightarrow> r' = r \<and> sent_in_pass i now d = 0)"
    using one x' by blast
  show "queue_wf d'"
    unfolding queue_wf_def x'
  proof (intro conjI ballI)
    show dx: "distinct (map del_id (deliveries x))" using x(2) dist by simp
    fix r' assume r': "r' \<in> set (deliveries x)"
    then have "del_id r' \<in> set (map del_id (deliveries d))" using x(2) by (metis image_eqI set_map)
    then obtain r where "lookup_by del_id (del_id r') (deliveries d) = Some r"
      using lookup_by_None [of del_id "del_id r'" "deliveries d"] by auto
    from one [OF this] lookup_by_distinct [OF dx r']
    show "0 \<le> attempts r'" "attempts r' \<le> MAX_ATTEMPTS" "delivered r' \<in> {0, 1}" by auto
  qed
qed

text \<open>A run of passes, each with the HTTP answers and the clock it meets.\<close>

fun run_passes ::
  "(bytes \<Rightarrow> bytes \<Rightarrow> bytes) \<Rightarrow> ('b \<Rightarrow> bytes) \<Rightarrow> string \<Rightarrow> ('b http \<times> int) list \<Rightarrow> 'b db \<Rightarrow> 'b db" where
  "run_passes hmac as_bytes secret [] d = d"
| "run_passes hmac as_bytes secret ((send, now) # ps) d =
     run_passes hmac as_bytes secret ps (snd (drain hmac as_bytes send secret now d))"

fun total_sent ::
  "(bytes \<Rightarrow> bytes \<Rightarrow> bytes) \<Rightarrow> ('b \<Rightarrow> bytes) \<Rightarrow> string \<Rightarrow> string \<Rightarrow> ('b http \<times> int) list \<Rightarrow> 'b db \<Rightarrow> nat" where
  "total_sent hmac as_bytes secret i [] d = 0"
| "total_sent hmac as_bytes secret i ((send, now) # ps) d =
     sent_in_pass i now d + total_sent hmac as_bytes secret i ps (snd (drain hmac as_bytes send secret now d))"

lemma run_passes_attempts:
  "queue_wf d \<Longrightarrow> lookup_by del_id i (deliveries d) = Some r \<Longrightarrow>
   queue_wf (run_passes hmac as_bytes secret ps d) \<and>
   (\<exists>r'. lookup_by del_id i (deliveries (run_passes hmac as_bytes secret ps d)) = Some r' \<and>
      attempts r' = attempts r + int (total_sent hmac as_bytes secret i ps d) \<and>
      (delivered r = 1 \<longrightarrow> total_sent hmac as_bytes secret i ps d = 0))"
proof (induction ps arbitrary: d r)
  case Nil
  then show ?case by simp
next
  case (Cons p ps)
  obtain send now where p: "p = (send, now)" by (cases p)
  note pass = drain_pass [OF Cons.prems(1) refl, where hmac = hmac and as_bytes = as_bytes and send = send
      and secret = secret and now = now]
  from pass(2) [OF Cons.prems(2)] obtain r' where r':
    "lookup_by del_id i (deliveries (snd (drain hmac as_bytes send secret now d))) = Some r'"
    "attempts r' = attempts r + int (sent_in_pass i now d)"
    "delivered r = 1 \<Longrightarrow> r' = r \<and> sent_in_pass i now d = 0" by blast
  from Cons.IH [OF pass(1) r'(1)] r'(2,3) show ?case unfolding p by auto
qed


definition sample_queue :: "string db" where
  "sample_queue = empty_db\<lparr>deliveries := [\<lparr>del_id = ''e1'', del_payment_id = None,
     event_type = ''payment.received'', del_url = ''https://shop'', del_body = ''{}'', attempts = 3,
     delivered = 0, next_attempt_at = 3, last_error = None, del_created_at = 1, del_updated_at = 1\<rparr>]\<rparr>"


end
