(* ===== verification/Recording.thy ===== *)
theory Recording
  imports Matching Webhook
begin

text \<open>
  \<open>crates/gp-server/src/record.rs\<close>: the path both receive surfaces share, record, match and
  notify. \<open>rid\<close> is the fresh event id of the webhook, \<open>now\<close> the clock of the call. Errors
  of the database are swallowed as the code swallows them: the state is the one the failed
  statement left.
\<close>

subsection \<open>Data\<close>

text \<open>\<open>gp_wallet::Received\<close>.\<close>

record received =
  rcv_slate_id :: string
  rcv_amount :: u64
  rcv_s2_armor :: string
  rcv_kernel_excess :: string
  rcv_proof :: "string option"

datatype persist_outcome = Matched match_result | Rejected amount_mismatch

subsection \<open>The operation\<close>

definition received_row :: "int \<Rightarrow> received \<Rightarrow> string option \<Rightarrow> string \<Rightarrow> payment" where
  "received_row now rcv payer_hex rcpt =
     \<lparr>pay_id = rcv_slate_id rcv, pay_amount = as_i64 (rcv_amount rcv), payer = payer_hex,
      pay_slate_id = Some (rcv_slate_id rcv), kernel = Some (rcv_kernel_excess rcv),
      proof_blob = rcv_proof rcv, pay_status = ''received'', confirmed_height = None,
      pay_created_at = now, s2_armor = Some (rcv_s2_armor rcv), pay_confirmed_at = None,
      pay_invoice_id = None, pay_user_id = None, recipient = Some rcpt, confirmations = 0\<rparr>"

definition insert_payment :: "payment \<Rightarrow> 'b db \<Rightarrow> unit sql_result \<times> 'b db" where
  "insert_payment p d =
     (if pay_id p \<in> pay_id ` set (payments d) then (Inl ConstraintViolation, d)
      else (Inr (), d\<lparr>payments := payments d @ [p]\<rparr>))"

definition delete_payment :: "string \<Rightarrow> 'b db \<Rightarrow> 'b db" where
  "delete_payment pid d = d\<lparr>payments := filter (\<lambda>p. pay_id p \<noteq> pid) (payments d)\<rparr>"

definition default_match :: match_result where
  "default_match = \<lparr>mr_invoice_id = None, mr_user_id = None, mr_amount_mismatch = None\<rparr>"

definition notify_received ::
  "(webhook_payload \<Rightarrow> 'b) \<Rightarrow> string \<Rightarrow> int \<Rightarrow> string \<Rightarrow> received \<Rightarrow> string option \<Rightarrow> match_result \<Rightarrow> 'b db \<Rightarrow> 'b db" where
  "notify_received to_body rid now url rcv payer_hex m d =
     (let (oref, d1) = (case mr_invoice_id m of
                          Some iid \<Rightarrow> (let (i, d') = get now iid d in
                                       (case i of None \<Rightarrow> None | Some i \<Rightarrow> order_ref i, d'))
                        | None \<Rightarrow> (None, d));
          p = payload_received rid now (rcv_slate_id rcv) (rcv_amount rcv) payer_hex
                (mr_invoice_id m) oref (mr_user_id m)
      in snd (enqueue to_body now url p d1))"

definition persist_and_match ::
  "(webhook_payload \<Rightarrow> 'b) \<Rightarrow> string \<Rightarrow> int \<Rightarrow> received \<Rightarrow> string option \<Rightarrow> string \<Rightarrow> string option
   \<Rightarrow> match_mode_t \<Rightarrow> (string \<times> string) option \<Rightarrow> 'b db \<Rightarrow> persist_outcome \<times> 'b db" where
  "persist_and_match to_body rid now rcv payer_hex rcpt m dflt webhook d =
     (let d1 = snd (insert_payment (received_row now rcv payer_hex rcpt) d);
          (res, d2) = match_payment now dflt
              \<lparr>inc_slate_id = rcv_slate_id rcv, inc_amount = rcv_amount rcv, inc_recipient = rcpt,
               inc_memo = m\<rparr> d1;
          matched = (case res of Inr r \<Rightarrow> r | Inl _ \<Rightarrow> default_match)
      in (case mr_amount_mismatch matched of
            Some mm \<Rightarrow> (Rejected mm, delete_payment (rcv_slate_id rcv) d2)
          | None \<Rightarrow>
              (Matched matched,
               (case webhook of
                  None \<Rightarrow> d2
                | Some (url, _) \<Rightarrow> notify_received to_body rid now url rcv payer_hex matched d2))))"

subsection \<open>Effects on the tables\<close>

lemma insert_payment_tables [simp]:
  "invoices (snd (insert_payment p d)) = invoices d" "users (snd (insert_payment p d)) = users d"
  "endpubs (snd (insert_payment p d)) = endpubs d" "deliveries (snd (insert_payment p d)) = deliveries d"
  by (simp_all add: insert_payment_def)

lemma delete_payment_tables [simp]:
  "invoices (delete_payment pid d) = invoices d" "users (delete_payment pid d) = users d"
  "endpubs (delete_payment pid d) = endpubs d" "deliveries (delete_payment pid d) = deliveries d"
  by (simp_all add: delete_payment_def)

lemma enqueue_invoices [simp]:
  "invoices (snd (enqueue to_body now url p d)) = invoices d"
  "payments (snd (enqueue to_body now url p d)) = payments d"
  by (simp_all add: enqueue_def)

lemma good_step_enqueue: "good_step d (snd (enqueue to_body now url p d))"
  by (rule good_step_same) simp

lemma good_step_notify: "good_step d (snd (enqueue to_body now url p (snd (get now iid d))))"
  by (rule good_step_trans [OF good_step_get good_step_enqueue])

lemma notify_received_Some:
  "mr_invoice_id m = Some iid \<Longrightarrow>
   notify_received to_body rid now url rcv ph m d =
     snd (enqueue to_body now url
       (payload_received rid now (rcv_slate_id rcv) (rcv_amount rcv) ph (Some iid)
          (case fst (get now iid d) of None \<Rightarrow> None | Some i \<Rightarrow> order_ref i) (mr_user_id m))
       (snd (get now iid d)))"
  by (simp add: notify_received_def split: prod.split)

lemma notify_received_None:
  "mr_invoice_id m = None \<Longrightarrow>
   notify_received to_body rid now url rcv ph m d =
     snd (enqueue to_body now url
       (payload_received rid now (rcv_slate_id rcv) (rcv_amount rcv) ph None None (mr_user_id m)) d)"
  by (simp add: notify_received_def)

lemma good_step_notify_received: "good_step d (notify_received to_body rid now url rcv ph m d)"
  by (cases "mr_invoice_id m")
     (simp_all add: notify_received_Some notify_received_None good_step_notify good_step_enqueue)

lemma good_step_persist: "good_step d (snd (persist_and_match to_body rid now rcv ph rcpt m dflt hook d))"
proof -
  let ?inc = "\<lparr>inc_slate_id = rcv_slate_id rcv, inc_amount = rcv_amount rcv, inc_recipient = rcpt, inc_memo = m\<rparr>"
  let ?d1 = "snd (insert_payment (received_row now rcv ph rcpt) d)"
  let ?d2 = "snd (match_payment now dflt ?inc ?d1)"
  have "good_step d ?d1" by (rule good_step_same) simp
  then have d2: "good_step d ?d2" by (rule good_step_trans) (rule good_step_match)
  have "good_step ?d2 (delete_payment (rcv_slate_id rcv) ?d2)" by (rule good_step_same) simp
  then have del: "good_step d (delete_payment (rcv_slate_id rcv) ?d2)" by (rule good_step_trans [OF d2])
  have "good_step d (notify_received to_body rid now url rcv ph r ?d2)" for url r
    by (rule good_step_trans [OF d2 good_step_notify_received])
  with d2 del show ?thesis
    by (auto simp: persist_and_match_def Let_def split: prod.splits option.splits sum.splits)
qed

subsection \<open>A rejected payment leaves no trace\<close>

definition incoming_of :: "received \<Rightarrow> string \<Rightarrow> string option \<Rightarrow> incoming_payment" where
  "incoming_of rcv rcpt m =
     \<lparr>inc_slate_id = rcv_slate_id rcv, inc_amount = rcv_amount rcv, inc_recipient = rcpt, inc_memo = m\<rparr>"

lemma incoming_of_simps [simp]:
  "inc_slate_id (incoming_of rcv rcpt m) = rcv_slate_id rcv"
  "inc_amount (incoming_of rcv rcpt m) = rcv_amount rcv"
  by (simp_all add: incoming_of_def)

lemma persist_unfold:
  "persist_and_match to_body rid now rcv ph rcpt m dflt hook d =
     (let (res, d2) = match_payment now dflt (incoming_of rcv rcpt m)
                        (snd (insert_payment (received_row now rcv ph rcpt) d));
          matched = (case res of Inr r \<Rightarrow> r | Inl _ \<Rightarrow> default_match)
      in (case mr_amount_mismatch matched of
            Some mm \<Rightarrow> (Rejected mm, delete_payment (rcv_slate_id rcv) d2)
          | None \<Rightarrow>
              (Matched matched,
               (case hook of
                  None \<Rightarrow> d2
                | Some (url, _) \<Rightarrow> notify_received to_body rid now url rcv ph matched d2))))"
  by (simp add: persist_and_match_def incoming_of_def Let_def)

lemma mismatch_of_Some:
  "mismatch_of e a = Some mm \<Longrightarrow> am_received mm = a \<and> am_expected mm \<noteq> a \<and>
     (\<exists>x. e = Some x \<and> am_expected mm = as_u64 (max x 0))"
  by (auto simp: mismatch_of_def Let_def split: option.splits if_splits)

lemma delete_inserted:
  assumes "pay_id p \<notin> pay_id ` set (payments d)"
  shows "delete_payment (pay_id p) (snd (insert_payment p d)) = d"
proof -
  have "filter (\<lambda>q. pay_id q \<noteq> pay_id p) (payments d) = payments d"
    using assms by (metis (mono_tags, lifting) filter_True image_eqI)
  then show ?thesis using assms by (simp add: insert_payment_def delete_payment_def)
qed

lemma received_row_simps [simp]:
  "pay_id (received_row now rcv ph rcpt) = rcv_slate_id rcv"
  "pay_slate_id (received_row now rcv ph rcpt) = Some (rcv_slate_id rcv)"
  by (simp_all add: received_row_def)

lemma rejected_no_trace:
  assumes "distinct (map inv_id (invoices d))" "rcv_slate_id rcv \<notin> pay_id ` set (payments d)"
    and "persist_and_match to_body rid now rcv ph rcpt m dflt hook d = (Rejected mm, d')"
  shows "d' = d \<and> am_received mm = rcv_amount rcv \<and> am_expected mm \<noteq> rcv_amount rcv"
proof -
  let ?d1 = "snd (insert_payment (received_row now rcv ph rcpt) d)"
  have dist: "distinct (map inv_id (invoices ?d1))" using assms(1) by simp
  from dist show ?thesis
  proof (rule match_payment_cases [where now = now and dflt = dflt and inc = "incoming_of rcv rcpt m"])
    fix i mm'
    assume "mismatch_of (expected_amount i) (inc_amount (incoming_of rcv rcpt m)) = Some mm'"
      and "match_payment now dflt (incoming_of rcv rcpt m) ?d1 =
         (Inr \<lparr>mr_invoice_id = None, mr_user_id = None, mr_amount_mismatch = Some mm'\<rparr>, ?d1)"
    moreover from this assms(3) have "mm = mm'" "d' = delete_payment (rcv_slate_id rcv) ?d1"
      by (simp_all add: persist_unfold Let_def)
    moreover have "delete_payment (rcv_slate_id rcv) ?d1 = d"
      using delete_inserted [of "received_row now rcv ph rcpt" d] assms(2) by simp
    ultimately show ?thesis using mismatch_of_Some by fastforce
  qed (use assms(3) in \<open>simp_all add: persist_unfold Let_def\<close>)
qed


subsection \<open>An accepted payment\<close>

lemma get_not_due:
  assumes "\<And>i. lookup_by inv_id iid (invoices d) = Some i \<Longrightarrow> \<not> due_at now i"
    and "distinct (map inv_id (invoices d))"
  shows "get now iid d = (lookup_by inv_id iid (invoices d), d)"
proof -
  have "\<not> (inv_id i = iid \<and> due_at now i)" if "i \<in> set (invoices d)" for i
    using assms(1) lookup_by_distinct [OF assms(2) that] by auto
  then show ?thesis by (simp add: get_def expire_if_due_id_def update_where_id)
qed

text \<open>The payment row an accepted payment leaves.\<close>

definition linked_row :: "int \<Rightarrow> received \<Rightarrow> string option \<Rightarrow> string \<Rightarrow> match_result \<Rightarrow> payment" where
  "linked_row now rcv ph rcpt r =
     (received_row now rcv ph rcpt)\<lparr>pay_invoice_id := mr_invoice_id r, pay_user_id := mr_user_id r\<rparr>"

lemma link_inserted:
  assumes "pay_id p \<notin> pay_id ` set ps"
  shows "update_where (\<lambda>q. pay_id q = pay_id p) f (ps @ [p]) = ps @ [f p]"
proof -
  have "update_where (\<lambda>q. pay_id q = pay_id p) f ps = ps"
    using assms by (intro update_where_id) (metis image_eqI)
  then show ?thesis by simp
qed

lemma mark_paid_tables [simp]:
  "payments (snd (mark_paid now iid sid d)) = payments d"
  "users (snd (mark_paid now iid sid d)) = users d"
  "endpubs (snd (mark_paid now iid sid d)) = endpubs d"
  "deliveries (snd (mark_paid now iid sid d)) = deliveries d"
  by (simp_all add: mark_paid_def)

lemma get_tables [simp]:
  "payments (snd (get now iid d)) = payments d" "deliveries (snd (get now iid d)) = deliveries d"
  by (simp_all add: get_def expire_if_due_id_def Let_def)

lemma notify_received_payments [simp]:
  "payments (notify_received to_body rid now url rcv ph m d) = payments d"
  by (cases "mr_invoice_id m") (simp_all add: notify_received_Some notify_received_None)

lemma match_payment_inserted:
  assumes "distinct (map inv_id (invoices d))" "rcv_slate_id rcv \<notin> pay_id ` set (payments d)"
    and "match_payment now dflt (incoming_of rcv rcpt m)
           (snd (insert_payment (received_row now rcv ph rcpt) d)) = (Inr r, d2)"
    and "mr_amount_mismatch r = None"
  shows "payments d2 = payments d @ [linked_row now rcv ph rcpt r]" "deliveries d2 = deliveries d"
    and "mr_user_id r = map_option fst (user_for_pubkey rcpt d)"
    and "\<And>k. lookup_by inv_id k (invoices d2) =
           (if mr_invoice_id r = Some k then map_option (paid_row (now, rcv_slate_id rcv)) (lookup_by inv_id k (invoices d))
            else lookup_by inv_id k (invoices d))"
    and "\<And>k. mr_invoice_id r = Some k \<Longrightarrow>
           \<exists>i. lookup_by inv_id k (invoices d) = Some i \<and> candidate now dflt (incoming_of rcv rcpt m) i \<and>
               (\<forall>e. expected_amount i = Some e \<longrightarrow> rcv_amount rcv = as_u64 (max e 0))"
proof -
  let ?p = "received_row now rcv ph rcpt"
  let ?d1 = "snd (insert_payment ?p d)"
  have d1: "payments ?d1 = payments d @ [?p]" using assms(2) by (simp add: insert_payment_def)
  have dist: "distinct (map inv_id (invoices ?d1))" using assms(1) by simp
  note upd = link_inserted [of ?p "payments d", simplified, OF assms(2)]
  have goal: "payments d2 = payments d @ [linked_row now rcv ph rcpt r] \<and> deliveries d2 = deliveries d \<and>
      mr_user_id r = map_option fst (user_for_pubkey rcpt d) \<and>
      (\<forall>k. lookup_by inv_id k (invoices d2) =
           (if mr_invoice_id r = Some k then map_option (paid_row (now, rcv_slate_id rcv)) (lookup_by inv_id k (invoices d))
            else lookup_by inv_id k (invoices d))) \<and>
      (\<forall>k. mr_invoice_id r = Some k \<longrightarrow>
           (\<exists>i. lookup_by inv_id k (invoices d) = Some i \<and> candidate now dflt (incoming_of rcv rcpt m) i \<and>
               (\<forall>e. expected_amount i = Some e \<longrightarrow> rcv_amount rcv = as_u64 (max e 0))))"
    using dist
  proof (rule match_payment_cases [where now = now and dflt = dflt and inc = "incoming_of rcv rcpt m"])
    assume "match_payment now dflt (incoming_of rcv rcpt m) ?d1 =
         (Inr \<lparr>mr_invoice_id = None, mr_user_id = map_option fst (user_for_pubkey (inc_recipient (incoming_of rcv rcpt m)) ?d1),
               mr_amount_mismatch = None\<rparr>,
          link_payment (inc_slate_id (incoming_of rcv rcpt m)) None
            (map_option fst (user_for_pubkey (inc_recipient (incoming_of rcv rcpt m)) ?d1)) ?d1)"
    then show ?thesis
      using assms(3) d1 upd by (auto simp: link_payment_def linked_row_def incoming_of_def user_for_pubkey_def)
  next
    fix i mm assume "match_payment now dflt (incoming_of rcv rcpt m) ?d1 =
         (Inr \<lparr>mr_invoice_id = None, mr_user_id = None, mr_amount_mismatch = Some mm\<rparr>, ?d1)"
    then show ?thesis using assms(3,4) by auto
  next
    fix i
    let ?u = "map_option fst (user_for_pubkey (inc_recipient (incoming_of rcv rcpt m)) ?d1)"
    assume l: "lookup_by inv_id (inv_id i) (invoices ?d1) = Some i"
      and c: "candidate now dflt (incoming_of rcv rcpt m) i"
      and mm: "mismatch_of (expected_amount i) (inc_amount (incoming_of rcv rcpt m)) = None"
      and mp: "match_payment now dflt (incoming_of rcv rcpt m) ?d1 =
         (Inr \<lparr>mr_invoice_id = Some (inv_id i), mr_user_id = ?u, mr_amount_mismatch = None\<rparr>,
          link_payment (inc_slate_id (incoming_of rcv rcpt m)) (Some (inv_id i)) ?u
            (snd (mark_paid now (inv_id i) (inc_slate_id (incoming_of rcv rcpt m)) ?d1)))"
    have paid: "lookup_by inv_id (inv_id i) (invoices (snd (mark_paid now (inv_id i) (rcv_slate_id rcv) ?d1)))
        = Some (paid_row (now, rcv_slate_id rcv) i)"
      by (rule match_marks_paid [OF dist l candidate_open [OF c]])
    have inv: "lookup_by inv_id k (invoices d2) =
           (if k = inv_id i then Some (paid_row (now, rcv_slate_id rcv) i) else lookup_by inv_id k (invoices d))" for k
      using mp assms(3) paid mark_paid_frame [of k "inv_id i" now "rcv_slate_id rcv" ?d1] by auto
    show ?thesis
      using mp assms(3) d1 upd inv l c mm
      by (auto simp: link_payment_def linked_row_def incoming_of_def user_for_pubkey_def mismatch_of_None)
  qed
  then show "payments d2 = payments d @ [linked_row now rcv ph rcpt r]" "deliveries d2 = deliveries d"
    "mr_user_id r = map_option fst (user_for_pubkey rcpt d)" by auto
  from goal show "\<And>k. lookup_by inv_id k (invoices d2) =
           (if mr_invoice_id r = Some k then map_option (paid_row (now, rcv_slate_id rcv)) (lookup_by inv_id k (invoices d))
            else lookup_by inv_id k (invoices d))" by blast
  from goal show "\<And>k. mr_invoice_id r = Some k \<Longrightarrow>
           \<exists>i. lookup_by inv_id k (invoices d) = Some i \<and> candidate now dflt (incoming_of rcv rcpt m) i \<and>
               (\<forall>e. expected_amount i = Some e \<longrightarrow> rcv_amount rcv = as_u64 (max e 0))" by blast
qed

definition sample_db :: "string db" where
  "sample_db = empty_db\<lparr>invoices := [sample_invoice ''a'' ''pk-a'' (Some 500), sample_invoice ''b'' ''pk-b'' (Some 500)]\<rparr>"

definition sample_received :: received where
  "sample_received =
     \<lparr>rcv_slate_id = ''s1'', rcv_amount = 500, rcv_s2_armor = ''S2'', rcv_kernel_excess = ''k'', rcv_proof = None\<rparr>"


text \<open>
  A slate presented twice is matched twice: the insert of the second copy fails on the primary
  key, the code goes on, and the second invoice it resolves to is paid by the same slate.
\<close>

lemma duplicate_slate_pays_twice:
  "let d1 = snd (persist_and_match event_id ''e1'' 10 sample_received None ''pk-a'' None MemoMode None sample_db);
       d2 = snd (persist_and_match event_id ''e2'' 11 sample_received None ''pk-b'' None MemoMode None d1)
   in map paid_payment_id (invoices d2) = [Some ''s1'', Some ''s1''] \<and> length (payments d2) = 1"
  by code_simp

text \<open>
  And a second copy that is rejected deletes the row of the first, which had paid an invoice.
\<close>

lemma duplicate_slate_loses_row:
  "let d1 = snd (persist_and_match event_id ''e1'' 10 sample_received None ''pk-a'' None MemoMode None sample_db);
       d2 = snd (persist_and_match event_id ''e2'' 11 (sample_received\<lparr>rcv_amount := 499\<rparr>) None ''pk-b'' None
              MemoMode None d1)
   in map paid_payment_id (invoices d2) = [Some ''s1'', None] \<and> payments d2 = []"
  by code_simp

text \<open>What a first, accepted presentation of a slate leaves behind.\<close>

lemma match_payment_ids: "map inv_id (invoices (snd (match_payment now dflt inc d))) = map inv_id (invoices d)"
  using paying.keeps_ids [of "(now, inc_slate_id inc)"]
  by (auto simp: match_payment_def Let_def split: option.splits)

lemma match_payment_Inr:
  "distinct (map inv_id (invoices d)) \<Longrightarrow> \<exists>r. fst (match_payment now dflt inc d) = Inr r"
  by (erule match_payment_cases [where now = now and dflt = dflt and inc = inc]) simp_all

definition paid_event ::
  "(webhook_payload \<Rightarrow> 'b) \<Rightarrow> string \<Rightarrow> int \<Rightarrow> received \<Rightarrow> string option \<Rightarrow> match_result \<Rightarrow> 'b db
   \<Rightarrow> (string \<times> string) option \<Rightarrow> 'b delivery list" where
  "paid_event to_body rid now rcv ph r d hook =
     (case hook of
        None \<Rightarrow> deliveries d
      | Some (url, _) \<Rightarrow>
          deliveries (snd (enqueue to_body now url
            (payload_received rid now (rcv_slate_id rcv) (rcv_amount rcv) ph (mr_invoice_id r)
               (case mr_invoice_id r of None \<Rightarrow> None
                | Some k \<Rightarrow> (case lookup_by inv_id k (invoices d) of None \<Rightarrow> None | Some i \<Rightarrow> order_ref i))
               (mr_user_id r)) d)))"

lemma enqueue_deliveries_cong:
  "deliveries d = deliveries d' \<Longrightarrow>
   deliveries (snd (enqueue to_body now url p d)) = deliveries (snd (enqueue to_body now url p d'))"
  by (simp add: enqueue_def)

lemma paid_row_not_due: "\<not> due_at now (paid_row a i)"
  by (simp add: due_at_def paid_row_def)

lemma accepted_recorded:
  assumes "distinct (map inv_id (invoices d))" "rcv_slate_id rcv \<notin> pay_id ` set (payments d)"
    and "persist_and_match to_body rid now rcv ph rcpt m dflt hook d = (Matched r, d')"
  shows "payments d' = payments d @ [linked_row now rcv ph rcpt r] \<and>
    mr_user_id r = map_option fst (user_for_pubkey rcpt d) \<and>
    (\<forall>k. lookup_by inv_id k (invoices d') =
       (if mr_invoice_id r = Some k
        then map_option (paid_row (now, rcv_slate_id rcv)) (lookup_by inv_id k (invoices d))
        else lookup_by inv_id k (invoices d))) \<and>
    (\<forall>k. mr_invoice_id r = Some k \<longrightarrow>
       (\<exists>i. lookup_by inv_id k (invoices d) = Some i \<and> candidate now dflt (incoming_of rcv rcpt m) i \<and>
            (\<forall>e. expected_amount i = Some e \<longrightarrow> rcv_amount rcv = as_u64 (max e 0)))) \<and>
    deliveries d' = paid_event to_body rid now rcv ph r d hook"
proof -
  let ?d1 = "snd (insert_payment (received_row now rcv ph rcpt) d)"
  have dist1: "distinct (map inv_id (invoices ?d1))" using assms(1) by simp
  obtain x d2 where mp: "match_payment now dflt (incoming_of rcv rcpt m) ?d1 = (Inr x, d2)"
    using match_payment_Inr [OF dist1, of now dflt "incoming_of rcv rcpt m"] by (metis prod.collapse)
  with assms(3) have x: "x = r" "mr_amount_mismatch r = None"
    and d': "d' = (case hook of None \<Rightarrow> d2 | Some (url, _) \<Rightarrow> notify_received to_body rid now url rcv ph r d2)"
    by (auto simp: persist_unfold Let_def split: option.splits)
  note facts = match_payment_inserted [OF assms(1,2) mp [unfolded x(1)] x(2)]
  have dist2: "distinct (map inv_id (invoices d2))"
    using match_payment_ids [of now dflt "incoming_of rcv rcpt m" ?d1] mp dist1 by simp
  have gk: "get now k d2 = (lookup_by inv_id k (invoices d2), d2)" if k: "mr_invoice_id r = Some k" for k
    using facts(4) [of k] k
    by (intro get_not_due [OF _ dist2]; cases "lookup_by inv_id k (invoices d)") (auto simp: paid_row_not_due)
  have inv: "invoices d' = invoices d2"
  proof (cases "mr_invoice_id r")
    case None
    then show ?thesis using d' by (auto simp: notify_received_None split: option.splits)
  next
    case (Some k)
    then show ?thesis using d' gk [OF Some] by (auto simp: notify_received_Some split: option.splits)
  qed
  have oref: "(case lookup_by inv_id k (invoices d2) of None \<Rightarrow> None | Some i \<Rightarrow> order_ref i) =
      (case lookup_by inv_id k (invoices d) of None \<Rightarrow> None | Some i \<Rightarrow> order_ref i)" for k
    using facts(4) [of k] by (auto simp: paid_row_def split: option.splits)
  have del: "deliveries d' = paid_event to_body rid now rcv ph r d hook"
  proof (cases "mr_invoice_id r")
    case None
    then show ?thesis using d' facts(2) enqueue_deliveries_cong [OF facts(2)]
      by (auto simp: notify_received_None paid_event_def split: option.splits)
  next
    case (Some k)
    then show ?thesis using d' facts(2) enqueue_deliveries_cong [OF facts(2)] gk [OF Some] oref [of k]
      by (auto simp: notify_received_Some paid_event_def split: option.splits)
  qed
  have pay: "payments d' = payments d2" using d' by (auto split: option.splits)
  show ?thesis using facts inv del pay by auto
qed



end
