(* ===== verification/Confirm.thy ===== *)
theory Confirm
  imports Recording
begin

text \<open>
  The confirmation poll: \<open>crates/gp-wallet/src/confirm.rs\<close> (what a kernel lookup says) and
  \<open>crates/gp-server/src/payments.rs\<close> (one poll pass over the pending payments, and the
  finalization of a paid invoice). The node is a parameter: its tip and its kernel index. The
  \<open>k\<close>-th payment of a pass asks the node of index \<open>k\<close>, so the chain may move under the pass.
\<close>

subsection \<open>The kernel lookup\<close>

datatype wallet_error = ConfigError string | WalletError string | SlatepackError string

record confirm_status =
  cs_confirmed :: bool
  cs_height :: "u64 option"
  cs_confirmations :: "u64 option"
  cs_kernel_excess :: string

text \<open>\<open>saturating_sub\<close> on u64; the final \<open>+ 1\<close> wraps.\<close>

definition saturating_sub :: "u64 \<Rightarrow> u64 \<Rightarrow> u64" where
  "saturating_sub a b = (if b \<le> a then a - b else 0)"

definition interpret_kernel :: "u64 \<Rightarrow> u64 option \<Rightarrow> string \<Rightarrow> confirm_status" where
  "interpret_kernel tip kernel_height excess =
     (case kernel_height of
        Some height \<Rightarrow> \<lparr>cs_confirmed = True, cs_height = Some height,
                        cs_confirmations = Some (saturating_sub tip height + 1), cs_kernel_excess = excess\<rparr>
      | None \<Rightarrow> \<lparr>cs_confirmed = False, cs_height = None, cs_confirmations = None, cs_kernel_excess = excess\<rparr>)"

text \<open>
  \<open>u8::from_str_radix(.., 16)\<close> on the two bytes of a pair: a leading plus sign is accepted. A
  pair that is not ASCII is refused (where it splits a character the code panics, which the
  poll handles like a failed node read).
\<close>

definition hex_digit_val :: "char \<Rightarrow> nat option" where
  "hex_digit_val c =
     (let n = of_char c in
      if 48 \<le> n \<and> n \<le> 57 then Some (n - 48)
      else if 97 \<le> n \<and> n \<le> 102 then Some (n - 87)
      else if 65 \<le> n \<and> n \<le> 70 then Some (n - 55) else None)"

definition hex_pair :: "char \<Rightarrow> char \<Rightarrow> u8 option" where
  "hex_pair a b =
     (case hex_digit_val b of
        None \<Rightarrow> None
      | Some y \<Rightarrow>
          if a = CHR ''+'' then Some (word_of_nat y)
          else (case hex_digit_val a of None \<Rightarrow> None | Some x \<Rightarrow> Some (word_of_nat (16 * x + y))))"

fun decode_hex :: "string \<Rightarrow> bytes option" where
  "decode_hex [] = Some []"
| "decode_hex [a] = None"
| "decode_hex (a # b # s) =
     (case hex_pair a b of
        None \<Rightarrow> None
      | Some v \<Rightarrow> map_option (\<lambda>vs. v # vs) (decode_hex s))"

definition COMMITMENT_LEN :: nat where "COMMITMENT_LEN = 33"

definition parse_commitment :: "string \<Rightarrow> wallet_error + bytes" where
  "parse_commitment hex =
     (case decode_hex (trim hex) of
        None \<Rightarrow> Inl (ConfigError (''kernel excess is not valid hex: `'' @ hex @ ''`''))
      | Some bytes \<Rightarrow>
          if length bytes \<noteq> COMMITMENT_LEN
          then Inl (ConfigError (''kernel excess must be '' @ show_nat COMMITMENT_LEN @ '' bytes ('' @
                     show_nat (COMMITMENT_LEN * 2) @ '' hex chars), got '' @ show_nat (length bytes)))
          else Inr bytes)"

text \<open>A node as its client sees it: opening the URL, the chain tip, the kernel index.\<close>

record node =
  open_client :: "string + unit"
  get_chain_tip :: "string + u64"
  get_kernel :: "bytes \<Rightarrow> string + u64 option"

definition confirm_status_of :: "node \<Rightarrow> string \<Rightarrow> string \<Rightarrow> wallet_error + confirm_status" where
  "confirm_status_of nd node_url excess_hex =
     (case parse_commitment excess_hex of
        Inl e \<Rightarrow> Inl e
      | Inr excess \<Rightarrow>
          (case open_client nd of
             Inl e \<Rightarrow> Inl (ConfigError (''bad node URL `'' @ node_url @ ''`: '' @ e))
           | Inr _ \<Rightarrow>
               (case get_chain_tip nd of
                  Inl e \<Rightarrow> Inl (WalletError (''node get_tip failed: '' @ e))
                | Inr tip \<Rightarrow>
                    (case get_kernel nd excess of
                       Inl e \<Rightarrow> Inl (WalletError (''node get_kernel failed: '' @ e))
                     | Inr kernel_height \<Rightarrow> Inr (interpret_kernel tip kernel_height excess_hex)))))"

subsection \<open>The poll\<close>

record confirm_policy =
  cp_required :: int
  cp_webhook_url :: "string option"

text \<open>
  \<open>SELECT p.amount, p.payer, p.user_id, i.ref FROM payment p LEFT JOIN invoice i ON i.id =
  p.invoice_id WHERE p.slate_id = ?1\<close>.
\<close>

definition payment_with_ref ::
  "string \<Rightarrow> 'b db \<Rightarrow> (int \<times> string option \<times> string option \<times> string option) option" where
  "payment_with_ref sid d =
     (case lookup_by pay_slate_id (Some sid) (payments d) of
        None \<Rightarrow> None
      | Some p \<Rightarrow>
          Some (pay_amount p, payer p, pay_user_id p,
                (case pay_invoice_id p of
                   None \<Rightarrow> None
                 | Some iid \<Rightarrow> (case lookup_by inv_id iid (invoices d) of
                                None \<Rightarrow> None | Some i \<Rightarrow> order_ref i))))"

definition finalize_invoice ::
  "(webhook_payload \<Rightarrow> 'b) \<Rightarrow> string \<Rightarrow> int \<Rightarrow> confirm_policy \<Rightarrow> string \<Rightarrow> string \<Rightarrow> int option \<Rightarrow> u64 \<Rightarrow> 'b db \<Rightarrow> 'b db" where
  "finalize_invoice to_body rid now policy sid iid height depth d =
     (let (transitioned, d1) = mark_confirmed now iid d in
      if \<not> transitioned then d1
      else (case cp_webhook_url policy of
              None \<Rightarrow> d1
            | Some url \<Rightarrow>
                (case payment_with_ref sid d1 of
                   None \<Rightarrow> d1
                 | Some (amount, ph, uid, oref) \<Rightarrow>
                     snd (enqueue to_body now url
                       (payload_confirmed rid now sid (as_u64 amount) ph (Some iid) oref uid
                          (map_option as_u64 height) depth) d1))))"

definition pending :: "confirm_policy \<Rightarrow> 'b db \<Rightarrow> (string option \<times> string \<times> string option) list" where
  "pending policy d =
     map (\<lambda>p. (pay_slate_id p, the (kernel p), pay_invoice_id p))
       (filter (\<lambda>p. kernel p \<noteq> None \<and> confirmations p < cp_required policy) (payments d))"

definition record_depth :: "int \<Rightarrow> string \<Rightarrow> int option \<Rightarrow> int \<Rightarrow> 'b db \<Rightarrow> 'b db" where
  "record_depth now sid height depth d =
     d\<lparr>payments := update_where (\<lambda>p. pay_slate_id p = Some sid)
         (\<lambda>p. p\<lparr>pay_status := ''confirmed'', confirmed_height := height,
                pay_confirmed_at := (case pay_confirmed_at p of None \<Rightarrow> Some now | Some t \<Rightarrow> Some t),
                confirmations := depth\<rparr>) (payments d)\<rparr>"

text \<open>
  One pending payment. \<open>status\<close> is the answer of its node read, \<open>None\<close> when the blocking task
  panicked; every failure leaves the row for the next pass.
\<close>

definition confirm_one ::
  "(webhook_payload \<Rightarrow> 'b) \<Rightarrow> string \<Rightarrow> int \<Rightarrow> confirm_policy \<Rightarrow> (wallet_error + confirm_status) option
   \<Rightarrow> string \<Rightarrow> string option \<Rightarrow> 'b db \<Rightarrow> 'b db" where
  "confirm_one to_body rid now policy status sid iid d =
     (case status of
        Some (Inr st) \<Rightarrow>
          if cs_confirmed st then
            let depth = (case cs_confirmations st of Some c \<Rightarrow> c | None \<Rightarrow> 0);
                height = map_option as_i64 (cs_height st);
                d1 = record_depth now sid height (as_i64 depth) d
            in if cp_required policy \<le> as_i64 depth then
                 (case iid of
                    Some i \<Rightarrow> finalize_invoice to_body rid now policy sid i height depth d1
                  | None \<Rightarrow> d1)
               else d1
          else d
      | _ \<Rightarrow> d)"

text \<open>
  The rows of a pass are read once. A row whose \<open>slate_id\<close> is NULL cannot be decoded into the
  tuple type: reading the work list fails and the pass does nothing.
\<close>

fun confirm_each ::
  "(webhook_payload \<Rightarrow> 'b) \<Rightarrow> (nat \<Rightarrow> string) \<Rightarrow> int \<Rightarrow> confirm_policy
   \<Rightarrow> (nat \<Rightarrow> string \<Rightarrow> (wallet_error + confirm_status) option) \<Rightarrow> nat
   \<Rightarrow> (string option \<times> string \<times> string option) list \<Rightarrow> 'b db \<Rightarrow> 'b db" where
  "confirm_each to_body rid now policy ask k [] d = d"
| "confirm_each to_body rid now policy ask k ((sid, excess, iid) # rest) d =
     confirm_each to_body rid now policy ask (k + 1) rest
       (confirm_one to_body (rid k) now policy (ask k excess) (the sid) iid d)"

definition confirm_pending ::
  "(webhook_payload \<Rightarrow> 'b) \<Rightarrow> (nat \<Rightarrow> string) \<Rightarrow> int \<Rightarrow> confirm_policy
   \<Rightarrow> (nat \<Rightarrow> string \<Rightarrow> (wallet_error + confirm_status) option) \<Rightarrow> 'b db \<Rightarrow> 'b db" where
  "confirm_pending to_body rid now policy ask d =
     (if \<exists>x \<in> set (pending policy d). fst x = None then d
      else confirm_each to_body rid now policy ask 0 (pending policy d) d)"

text \<open>The payment status endpoint: what it reads.\<close>

definition payment_status ::
  "string \<Rightarrow> 'b db \<Rightarrow> (int \<times> string option \<times> string \<times> int option \<times> int option \<times> int \<times> int) option" where
  "payment_status pid d =
     map_option (\<lambda>p. (pay_amount p, payer p, pay_status p, confirmed_height p, pay_confirmed_at p,
                      pay_created_at p, confirmations p))
       (lookup_by pay_slate_id (Some pid) (payments d))"

text \<open>\<open>format_unix_utc\<close> of the receipt: the second copy of the calendar conversion.\<close>

definition format_unix_utc :: "u64 \<Rightarrow> string" where
  "format_unix_utc w =
     (let secs = uint w; days = secs div 86400; rem = secs mod 86400;
          hh = rem div 3600; mm = (rem mod 3600) div 60; ss = rem mod 60;
          z = days + 719468;
          era = (if 0 \<le> z then z else z - 146096) div 146097;
          doe = z - era * 146097;
          yoe = (doe - doe div 1460 + doe div 36524 - doe div 146096) div 365;
          y = yoe + era * 400;
          doy = doe - (365 * yoe + yoe div 4 - yoe div 100);
          mp = (5 * doy + 2) div 153;
          d = doy - (153 * mp + 2) div 5 + 1;
          m = (if mp < 10 then mp + 3 else mp - 9);
          y' = (if m \<le> 2 then y + 1 else y)
      in pad_nat 4 (nat y') @ ''-'' @ pad_nat 2 (nat m) @ ''-'' @ pad_nat 2 (nat d) @ ''T'' @
         pad_nat 2 (nat hh) @ '':'' @ pad_nat 2 (nat mm) @ '':'' @ pad_nat 2 (nat ss) @ ''Z'')"

subsection \<open>Hexadecimal\<close>

lemma hex_digit_val_digit: "d < 16 \<Longrightarrow> hex_digit_val (hex_digit d) = Some d"
proof -
  assume d: "d < 16"
  then have "(of_char (hex_digit d) :: nat) = (if d < 10 then 48 + d else 87 + d)"
    by (auto simp: hex_digit_def take_bit_eq_mod)
  with d show ?thesis by (auto simp: hex_digit_val_def Let_def split: if_splits)
qed

lemma hex_digit_not_plus: "d < 16 \<Longrightarrow> hex_digit d \<noteq> CHR ''+''"
  using hex_digit_val_digit [of d] by (auto simp: hex_digit_val_def)

lemma unat_u8: "unat (b :: u8) < 256"
  using unsigned_less [of b] by simp

lemma decode_hex_encode: "decode_hex (hex_encode bs) = Some bs"
proof (induction bs)
  case Nil
  then show ?case by (simp add: hex_encode_def)
next
  case (Cons b bs)
  have "unat b div 16 < 16" "unat b mod 16 < 16" using unat_u8 [of b] by auto
  then have "hex_pair (hex_digit (unat b div 16)) (hex_digit (unat b mod 16)) = Some b"
    by (simp add: hex_pair_def hex_digit_val_digit hex_digit_not_plus)
  with Cons.IH show ?case by (simp add: hex_encode_def hex_byte_def)
qed

subsection \<open>The depth of a kernel\<close>

lemma interpret_depth:
  assumes "height \<le> tip" "unat tip < 2 ^ 64 - 1"
  shows "cs_confirmations (interpret_kernel tip (Some height) e) = Some (tip - height + 1)"
    and "unat (tip - height + 1) = unat tip - unat height + 1"
proof -
  show "cs_confirmations (interpret_kernel tip (Some height) e) = Some (tip - height + 1)"
    using assms(1) by (simp add: interpret_kernel_def saturating_sub_def)
  have d: "unat (tip - height) = unat tip - unat height" using assms(1) by (rule unat_sub)
  have "unat (tip - height + 1) = (unat (tip - height) + unat (1 :: u64)) mod 2 ^ LENGTH(64)"
    by (rule unat_word_ariths(1))
  also have "\<dots> = unat tip - unat height + 1" using d assms(2) by simp
  finally show "unat (tip - height + 1) = unat tip - unat height + 1" .
qed

text \<open>A kernel found at or below the tip has the depth the chain gives it, 1 in the tip block;
  a kernel reported above a lagging tip counts as one confirmation and never underflows; a
  kernel the node does not know is unconfirmed, with neither height nor depth.\<close>

lemma kernel_depth:
  "(height \<le> tip \<and> unat tip < 2 ^ 64 - 1 \<longrightarrow>
      (\<exists>c. cs_confirmations (interpret_kernel tip (Some height) e) = Some c \<and>
           unat c = unat tip - unat height + 1)) \<and>
   (tip < height \<longrightarrow> cs_confirmations (interpret_kernel tip (Some height) e) = Some 1) \<and>
   cs_height (interpret_kernel tip (Some height) e) = Some height \<and>
   cs_confirmed (interpret_kernel tip kh e) = (kh \<noteq> None) \<and>
   (kh = None \<longrightarrow> cs_height (interpret_kernel tip kh e) = None \<and>
                  cs_confirmations (interpret_kernel tip kh e) = None)"
proof -
  have "height \<le> tip \<and> unat tip < 2 ^ 64 - 1 \<longrightarrow>
      (\<exists>c. cs_confirmations (interpret_kernel tip (Some height) e) = Some c \<and>
           unat c = unat tip - unat height + 1)"
    using interpret_depth by blast
  then show ?thesis by (auto simp: interpret_kernel_def saturating_sub_def split: option.splits)
qed

subsection \<open>What a pass does to the invoices\<close>

definition reaches :: "confirm_policy \<Rightarrow> (wallet_error + confirm_status) option \<Rightarrow> bool" where
  "reaches policy status =
     (case status of
        Some (Inr st) \<Rightarrow> cs_confirmed st \<and>
          cp_required policy \<le> as_i64 (case cs_confirmations st of Some c \<Rightarrow> c | None \<Rightarrow> 0)
      | _ \<Rightarrow> False)"

lemma record_depth_tables [simp]:
  "invoices (record_depth now sid h n d) = invoices d" "deliveries (record_depth now sid h n d) = deliveries d"
  by (simp_all add: record_depth_def)

lemma finalize_invoices:
  "invoices (finalize_invoice to_body rid now policy sid iid h n d) = invoices (snd (mark_confirmed now iid d))"
  by (auto simp: finalize_invoice_def Let_def split: prod.splits option.splits)

lemma confirm_one_invoices:
  "invoices (confirm_one to_body rid now policy status sid iid d) =
     (case iid of
        Some i \<Rightarrow> if reaches policy status then invoices (snd (mark_confirmed now i d)) else invoices d
      | None \<Rightarrow> invoices d)"
  by (auto simp: confirm_one_def reaches_def Let_def finalize_invoices mark_confirmed_def
      split: option.splits sum.splits)

definition settle_if :: "int \<Rightarrow> bool \<Rightarrow> invoice \<Rightarrow> invoice" where
  "settle_if now b i = (if b \<and> inv_status i = ''paid'' then confirmed_row now i else i)"

lemma mark_confirmed_lookup:
  "lookup_by inv_id k (invoices (snd (mark_confirmed now iid d))) =
     map_option (settle_if now (k = iid)) (lookup_by inv_id k (invoices d))"
proof -
  have "lookup_by inv_id k (update_where (\<lambda>i. inv_id i = iid \<and> inv_status i = ''paid'') (confirmed_row now) (invoices d)) =
      map_option (\<lambda>r. if inv_id r = iid \<and> inv_status r = ''paid'' then confirmed_row now r else r)
        (lookup_by inv_id k (invoices d))"
    by (rule lookup_by_update_where) (simp add: confirmed_row_def)
  moreover have "inv_id r = k" if "lookup_by inv_id k (invoices d) = Some r" for r
    using lookup_by_Some [OF that] by simp
  ultimately show ?thesis
    by (cases "lookup_by inv_id k (invoices d)")
       (auto simp: mark_confirmed_def confirmed_row_def [abs_def] settle_if_def)
qed

lemma settle_twice: "settle_if now a (settle_if now b i) = settle_if now (a \<or> b) i"
  by (auto simp: settle_if_def confirmed_row_def)

text \<open>The invoices whose payment reaches the depth in the pass.\<close>

fun reached ::
  "confirm_policy \<Rightarrow> (nat \<Rightarrow> string \<Rightarrow> (wallet_error + confirm_status) option) \<Rightarrow> nat
   \<Rightarrow> (string option \<times> string \<times> string option) list \<Rightarrow> string set" where
  "reached policy ask k [] = {}"
| "reached policy ask k ((sid, excess, iid) # rest) =
     (if reaches policy (ask k excess) then set_option iid else {}) \<union> reached policy ask (k + 1) rest"

lemma confirm_each_lookup:
  "lookup_by inv_id i (invoices (confirm_each to_body rid now policy ask k ps d)) =
     map_option (settle_if now (i \<in> reached policy ask k ps)) (lookup_by inv_id i (invoices d))"
proof (induction ps arbitrary: k d)
  case Nil
  then show ?case by (cases "lookup_by inv_id i (invoices d)") (simp_all add: settle_if_def)
next
  case (Cons p ps)
  obtain sid excess iid where p: "p = (sid, excess, iid)" by (cases p)
  let ?d1 = "confirm_one to_body (rid k) now policy (ask k excess) (the sid) iid d"
  let ?b = "reaches policy (ask k excess) \<and> iid = Some i"
  have "lookup_by inv_id i (invoices ?d1) = map_option (settle_if now ?b) (lookup_by inv_id i (invoices d))"
  proof (cases iid)
    case None
    then show ?thesis
      by (cases "lookup_by inv_id i (invoices d)") (simp_all add: confirm_one_invoices settle_if_def)
  next
    case (Some j)
    then show ?thesis
      by (cases "lookup_by inv_id i (invoices d)")
         (auto simp: confirm_one_invoices mark_confirmed_lookup settle_if_def)
  qed
  moreover have "(i \<in> reached policy ask (k + 1) ps \<or> ?b) = (i \<in> reached policy ask k (p # ps))"
    by (auto simp: p)
  ultimately show ?case
    using Cons.IH [of "k + 1" ?d1]
    by (cases "lookup_by inv_id i (invoices d)") (auto simp: p settle_twice)
qed

text \<open>C16: a poll pass confirms exactly the paid invoices one of whose pending payments the node
  reports at the required depth; it never confirms below the threshold, never touches an open
  or expired invoice, and changes nothing else of any invoice.\<close>

theorem pass_confirms_exactly_at_depth:
  assumes "\<forall>x \<in> set (pending policy d). fst x \<noteq> None"
  shows "lookup_by inv_id i (invoices (confirm_pending to_body rid now policy ask d)) =
     map_option (\<lambda>v. if i \<in> reached policy ask 0 (pending policy d) \<and> inv_status v = ''paid''
                     then confirmed_row now v else v)
       (lookup_by inv_id i (invoices d))"
  using assms confirm_each_lookup [of i to_body rid now policy ask 0 "pending policy d" d]
  by (auto simp: confirm_pending_def settle_if_def [abs_def])

definition paid_db :: "string db" where
  "paid_db = snd (persist_and_match event_id ''ev'' 10 sample_received None ''pk-a'' None MemoMode None sample_db)"

theorem pass_confirms_exactly_at_depth_witness:
  "map_option inv_status (lookup_by inv_id ''a'' (invoices (confirm_pending event_id (\<lambda>_. ''e'') 20
      \<lparr>cp_required = 10, cp_webhook_url = None\<rparr>
      (\<lambda>_ k. Some (Inr (interpret_kernel 109 (Some 100) k))) paid_db))) = Some ''confirmed''"
proof -
  have "\<forall>x \<in> set (pending \<lparr>cp_required = 10, cp_webhook_url = None\<rparr> paid_db). fst x \<noteq> None" by code_simp
  note pass_confirms_exactly_at_depth [OF this, of "''a''" event_id "\<lambda>_. ''e''" 20
      "\<lambda>_ k. Some (Inr (interpret_kernel 109 (Some 100) k))"]
  moreover have "lookup_by inv_id ''a'' (invoices paid_db) = Some (paid_row (10, ''s1'') (sample_invoice ''a'' ''pk-a'' (Some 500)))"
    by code_simp
  moreover have "''a'' \<in> reached \<lparr>cp_required = 10, cp_webhook_url = None\<rparr>
      (\<lambda>_ k. Some (Inr (interpret_kernel 109 (Some 100) k))) 0
      (pending \<lparr>cp_required = 10, cp_webhook_url = None\<rparr> paid_db)" by code_simp
  ultimately show ?thesis by (simp add: paid_row_def confirmed_row_def)
qed

lemma reached_linked:
  "i \<in> reached policy ask k ps \<Longrightarrow> \<exists>n sid excess. n < length ps \<and> ps ! n = (sid, excess, Some i) \<and>
     reaches policy (ask (k + n) excess)"
proof (induction ps arbitrary: k)
  case Nil
  then show ?case by simp
next
  case (Cons p ps)
  obtain sid excess iid where p: "p = (sid, excess, iid)" by (cases p)
  show ?case
  proof (cases "reaches policy (ask k excess) \<and> iid = Some i")
    case True
    then have "0 < length (p # ps) \<and> (p # ps) ! 0 = (sid, excess, Some i) \<and> reaches policy (ask (k + 0) excess)"
      using p by simp
    then show ?thesis by blast
  next
    case False
    with Cons.prems p have "i \<in> reached policy ask (k + 1) ps" by (auto split: if_splits)
    from Cons.IH [OF this] obtain n sid' ex' where
      "n < length ps" "ps ! n = (sid', ex', Some i)" "reaches policy (ask (k + 1 + n) ex')" by blast
    then have "Suc n < length (p # ps) \<and> (p # ps) ! Suc n = (sid', ex', Some i) \<and> reaches policy (ask (k + Suc n) ex')"
      by simp
    then show ?thesis by blast
  qed
qed

subsection \<open>The two calendar conversions agree\<close>

text \<open>The receipt's timestamp formatter and the webhook's are the same function of the time.\<close>

lemma timestamps_agree: "format_unix_utc w = iso8601 (uint w)"
proof -
  have days: "0 \<le> uint w div 86400" by (simp add: pos_imp_zdiv_nonneg_iff)
  then have "0 \<le> uint w div 86400 + 719468" by linarith
  moreover have "z - z div 146097 * 146097 = z mod 146097" for z :: int
    by (simp add: minus_div_mult_eq_mod)
  ultimately show ?thesis
    by (simp only: format_unix_utc_def iso8601_def civil_from_days_def Let_def if_True prod.case)
qed

end
