(* ===== verification/F64.thy ===== *)
theory F64
  imports Complex_Main Text
begin

text \<open>
  The \<open>f64\<close> operations the price oracle and the QR renderer use, as IEEE 754 binary64 defines them: a finite
  value is the rational it denotes, and an operation is the exact rational result rounded to
  the nearest double, ties to even. The two zeros are one value (the code only compares them
  and converts them to integers).
\<close>

subsection \<open>Rounding to a double\<close>

datatype f64 = Fin rat | Inf bool | NaN

definition pow2 :: "int \<Rightarrow> rat" where
  "pow2 e = (if 0 \<le> e then 2 ^ nat e else 1 / 2 ^ nat (- e))"

definition round_half_even :: "rat \<Rightarrow> int" where
  "round_half_even q =
     (let f = \<lfloor>q\<rfloor>; r = q - of_int f in
      if r < 1 / 2 then f else if 1 / 2 < r then f + 1 else if even f then f else f + 1)"

text \<open>The exponent of the leading bit of a positive rational.\<close>

function bit_length :: "int \<Rightarrow> nat" where
  "bit_length n = (if n \<le> 0 then 0 else Suc (bit_length (n div 2)))"
  by pat_completeness auto
termination by (relation "measure nat") auto

declare bit_length.simps [simp del]

definition ilog2 :: "rat \<Rightarrow> int" where
  "ilog2 q =
     (let (n, d) = quotient_of q; k = int (bit_length n) - int (bit_length d)
      in if pow2 k \<le> q then k else k - 1)"

definition round_dbl :: "rat \<Rightarrow> f64" where
  "round_dbl q =
     (if q = 0 then Fin 0
      else let a = \<bar>q\<bar>; e = max (ilog2 a - 52) (- 1074); v = of_int (round_half_even (a / pow2 e)) * pow2 e
           in if 2 ^ 1024 \<le> v then Inf (q < 0) else Fin (sgn q * v))"

subsection \<open>Operations\<close>

definition is_finite :: "f64 \<Rightarrow> bool" where
  "is_finite x = (case x of Fin _ \<Rightarrow> True | _ \<Rightarrow> False)"

text \<open>\<open>x < q\<close> and \<open>q < x\<close> for a finite literal \<open>q\<close>; comparisons with NaN are false.\<close>

definition less_lit :: "f64 \<Rightarrow> rat \<Rightarrow> bool" where
  "less_lit x q = (case x of Fin r \<Rightarrow> r < q | Inf neg \<Rightarrow> neg | NaN \<Rightarrow> False)"

definition greater_lit :: "f64 \<Rightarrow> rat \<Rightarrow> bool" where
  "greater_lit x q = (case x of Fin r \<Rightarrow> q < r | Inf neg \<Rightarrow> \<not> neg | NaN \<Rightarrow> False)"

definition is_neg :: "f64 \<Rightarrow> bool" where
  "is_neg x = less_lit x 0"

fun fdiv :: "f64 \<Rightarrow> f64 \<Rightarrow> f64" where
  "fdiv (Fin a) (Fin b) = (if b = 0 then (if a = 0 then NaN else Inf (a < 0)) else round_dbl (a / b))"
| "fdiv (Fin a) (Inf _) = Fin 0"
| "fdiv (Inf s) (Fin b) = Inf (s \<noteq> (b < 0))"
| "fdiv _ _ = NaN"

fun fmul :: "f64 \<Rightarrow> f64 \<Rightarrow> f64" where
  "fmul (Fin a) (Fin b) = round_dbl (a * b)"
| "fmul (Fin a) (Inf s) = (if a = 0 then NaN else Inf (s \<noteq> (a < 0)))"
| "fmul (Inf s) (Fin b) = (if b = 0 then NaN else Inf (s \<noteq> (b < 0)))"
| "fmul (Inf s) (Inf t) = Inf (s \<noteq> t)"
| "fmul _ _ = NaN"

text \<open>\<open>f64::round\<close>: to the nearest integer, ties away from zero (exact in binary64).\<close>

fun fround :: "f64 \<Rightarrow> f64" where
  "fround (Fin a) = Fin (of_int (if 0 \<le> a then \<lfloor>a + 1 / 2\<rfloor> else - \<lfloor>1 / 2 - a\<rfloor>))"
| "fround x = x"

text \<open>\<open>as u64\<close>: truncation, saturating at both ends; NaN is 0.\<close>

fun as_u64_sat :: "f64 \<Rightarrow> u64" where
  "as_u64_sat (Fin a) = (if a \<le> 0 then 0 else if 2 ^ 64 - 1 \<le> a then - 1 else word_of_int \<lfloor>a\<rfloor>)"
| "as_u64_sat (Inf neg) = (if neg then 0 else - 1)"
| "as_u64_sat NaN = 0"

subsection \<open>Decimal text\<close>

text \<open>
  \<open>f64::from_str\<close>: an optional sign, then \<open>inf\<close>, \<open>infinity\<close> or \<open>nan\<close> in any letter case, or
  digits with an optional point and exponent, at least one digit before the exponent.
\<close>

definition ascii_lower :: "char \<Rightarrow> char" where
  "ascii_lower c = (let n = of_char c :: nat in if 65 \<le> n \<and> n \<le> 90 then char_of (n + 32) else c)"

definition is_digit :: "char \<Rightarrow> bool" where
  "is_digit c \<longleftrightarrow> digit_val c \<noteq> None"

definition parse_exp :: "string \<Rightarrow> int option" where
  "parse_exp s =
     (case s of
        [] \<Rightarrow> Some 0
      | c # rest \<Rightarrow>
          if c = CHR ''e'' \<or> c = CHR ''E'' then
            (case rest of
               [] \<Rightarrow> None
             | d # ds \<Rightarrow>
                 if d = CHR ''-'' then map_option (\<lambda>n. - int n) (parse_unsigned ds)
                 else map_option int (parse_unsigned (if d = CHR ''+'' then ds else rest)))
          else None)"

definition ten_pow :: "int \<Rightarrow> rat" where
  "ten_pow e = (if 0 \<le> e then 10 ^ nat e else 1 / 10 ^ nat (- e))"

definition parse_number :: "string \<Rightarrow> rat option" where
  "parse_number s =
     (let ip = takeWhile is_digit s; r1 = dropWhile is_digit s;
          (fp, r2) = (case r1 of
                        c # rest \<Rightarrow> if c = CHR ''.'' then (takeWhile is_digit rest, dropWhile is_digit rest) else ([], r1)
                      | [] \<Rightarrow> ([], []))
      in if ip = [] \<and> fp = [] then None
         else (case (digits_val 0 (ip @ fp), parse_exp r2) of
                 (Some n, Some e) \<Rightarrow> Some (of_nat n * ten_pow (e - int (length fp)))
               | _ \<Rightarrow> None))"

definition parse_f64 :: "string \<Rightarrow> f64 option" where
  "parse_f64 s =
     (let (neg, body) = (case s of
                           c # rest \<Rightarrow> if c = CHR ''-'' then (True, rest)
                                      else if c = CHR ''+'' then (False, rest) else (False, s)
                         | [] \<Rightarrow> (False, []));
          l = map ascii_lower body
      in if l = ''inf'' \<or> l = ''infinity'' then Some (Inf neg)
         else if l = ''nan'' then Some NaN
         else map_option (\<lambda>q. round_dbl (if neg then - q else q)) (parse_number body))"

text \<open>\<open>{:.10}\<close> of a non-negative value: ten decimals, ties to even.\<close>

definition show_10 :: "rat \<Rightarrow> string" where
  "show_10 q =
     (let n = nat (round_half_even (q * 10 ^ 10)); w = show_nat (n div 10 ^ 10); f = show_nat (n mod 10 ^ 10)
      in w @ ''.'' @ replicate (10 - length f) (CHR ''0'') @ f)"

definition format_10 :: "f64 \<Rightarrow> string" where
  "format_10 x =
     (case x of
        Fin q \<Rightarrow> (if q < 0 then ''-'' @ show_10 (- q) else show_10 q)
      | Inf neg \<Rightarrow> (if neg then ''-inf'' else ''inf'')
      | NaN \<Rightarrow> ''NaN'')"

subsection \<open>The rounding error\<close>

lemma pow2_pos [simp]: "0 < pow2 e"
  by (simp add: pow2_def)

lemma pow2_sign [simp]: "pow2 e \<noteq> 0" "\<not> pow2 e < 0" "0 \<le> pow2 e"
  using pow2_pos [of e] by (simp_all only: less_imp_le not_less less_imp_neq [THEN not_sym] not_False_eq_True)

lemma pow2_add: "pow2 (a + b) = pow2 a * pow2 b"
proof -
  have p: "pow2 e = 2 powi e" for e
    by (simp add: pow2_def power_int_def inverse_eq_divide power_one_over)
  show ?thesis by (simp add: p power_int_add)
qed

lemma pow2_mono: "a \<le> b \<Longrightarrow> pow2 a \<le> pow2 b"
proof -
  assume "a \<le> b"
  then have "pow2 b = pow2 a * pow2 (b - a)" using pow2_add [of a "b - a"] by simp
  moreover have "1 \<le> pow2 (b - a)" using \<open>a \<le> b\<close> by (simp add: pow2_def)
  ultimately show ?thesis using pow2_pos [of a] by (simp add: mult_le_cancel_left1)
qed

lemma round_half_even_error: "\<bar>of_int (round_half_even q) - q\<bar> \<le> 1 / 2"
proof -
  define f where "f = \<lfloor>q\<rfloor>"
  have f: "of_int f \<le> q" "q < of_int f + 1" unfolding f_def by linarith+
  consider "round_half_even q = f" "q - of_int f \<le> 1 / 2" | "round_half_even q = f + 1" "1 / 2 \<le> q - of_int f"
  proof -
    assume a: "round_half_even q = f \<Longrightarrow> q - of_int f \<le> 1 / 2 \<Longrightarrow> thesis"
      and b: "round_half_even q = f + 1 \<Longrightarrow> 1 / 2 \<le> q - of_int f \<Longrightarrow> thesis"
    have r: "round_half_even q = (if q - of_int f < 1 / 2 then f else if 1 / 2 < q - of_int f then f + 1
        else if even f then f else f + 1)"
      by (simp only: round_half_even_def Let_def f_def)
    show thesis
    proof (cases "q - of_int f < 1 / 2")
      case True
      then show ?thesis using r a by simp
    next
      case F: False
      show ?thesis
      proof (cases "1 / 2 < q - of_int f")
        case True
        with F have "round_half_even q = f + 1" unfolding r by (simp only: if_True if_False)
        then show ?thesis using True by (intro b) simp_all
      next
        case False
        with F have "round_half_even q = (if even f then f else f + 1)" unfolding r by (simp only: if_False)
        moreover have "q - of_int f \<le> 1 / 2" "1 / 2 \<le> q - of_int f" using F False by (simp_all only: not_less)
        ultimately show ?thesis using a b by (cases "even f") simp_all
      qed
    qed
  qed
  then show ?thesis
  proof cases
    case 1
    then show ?thesis using f by (simp only: abs_le_iff) linarith
  next
    case 2
    then have "of_int (round_half_even q) = of_int f + (1 :: rat)" by simp
    with 2 f show ?thesis by (simp only: abs_le_iff) linarith
  qed
qed

lemma bit_length_bounds:
  "0 < n \<Longrightarrow> 0 < bit_length n \<and> 2 ^ (bit_length n - 1) \<le> n \<and> n < 2 ^ bit_length n"
proof (induction n rule: bit_length.induct)
  case (1 n)
  show ?case
  proof (cases "n = 1")
    case True
    then show ?thesis by (simp add: bit_length.simps [of 1] bit_length.simps [of 0])
  next
    case False
    with 1 have "0 < n div 2" "\<not> n \<le> 0" by auto
    with "1.IH" have ih: "0 < bit_length (n div 2)" "2 ^ (bit_length (n div 2) - 1) \<le> n div 2"
      "n div 2 < 2 ^ bit_length (n div 2)" by auto
    have "(2 :: int) ^ bit_length (n div 2) = 2 * 2 ^ (bit_length (n div 2) - 1)"
      using ih(1) by (metis Suc_diff_1 power_Suc)
    then have "2 ^ bit_length (n div 2) \<le> n" "n < 2 * 2 ^ bit_length (n div 2)" using ih by linarith+
    then show ?thesis using \<open>\<not> n \<le> 0\<close> by (simp add: bit_length.simps [of n])
  qed
qed

lemma ilog2_le:
  assumes "0 < q"
  shows "pow2 (ilog2 q) \<le> q"
proof -
  obtain n d where nd: "quotient_of q = (n, d)" by (cases "quotient_of q")
  have d: "0 < d" using nd by (rule quotient_of_denom_pos)
  have q: "q = of_int n / of_int d" using nd by (rule quotient_of_div)
  have n: "0 < n" using assms d q by (simp add: zero_less_divide_iff)
  let ?bn = "bit_length n" and ?bd = "bit_length d"
  let ?k = "int ?bn - int ?bd"
  have bn: "2 ^ (?bn - 1) \<le> n" "0 < ?bn" and bd: "d < 2 ^ ?bd"
    using bit_length_bounds [OF n] bit_length_bounds [OF d] by auto
  have "pow2 (?k - 1) * of_int d \<le> of_int n"
  proof -
    have "pow2 (?k - 1) = pow2 (int (?bn - 1)) / pow2 (int ?bd)"
      using bn(2) pow2_add [of "?k - 1" "int ?bd"] pow2_pos [of "int ?bd"]
      by (simp add: of_nat_diff field_simps)
    then have "pow2 (?k - 1) * of_int d = 2 ^ (?bn - 1) * (of_int d / 2 ^ ?bd)" by (simp add: pow2_def)
    also have "\<dots> \<le> 2 ^ (?bn - 1) * 1"
    proof (rule mult_left_mono)
      have "(of_int d :: rat) < 2 ^ ?bd" using bd by (metis of_int_less_iff of_int_numeral of_int_power)
      then show "of_int d / 2 ^ ?bd \<le> (1 :: rat)" by simp
    qed simp
    also have "\<dots> \<le> of_int n"
    proof -
      have "(2 :: rat) ^ (?bn - 1) \<le> of_int n" using bn(1) by (metis of_int_le_iff of_int_numeral of_int_power)
      then show ?thesis by simp
    qed
    finally show ?thesis .
  qed
  then have "pow2 (?k - 1) \<le> q" using d q by (simp add: le_divide_eq)
  then show ?thesis by (simp add: ilog2_def nd Let_def)
qed

text \<open>In the normal range a rounded result is within half a unit of the 53rd bit.\<close>

lemma round_dbl_error:
  assumes "0 < q" "- 1022 \<le> ilog2 q" "round_dbl q = Fin v"
  shows "\<bar>v - q\<bar> \<le> q / 2 ^ 53"
proof -
  let ?e = "ilog2 q - 52"
  have e: "max ?e (- 1074) = ?e" using assms(2) by simp
  have v: "v = of_int (round_half_even (q / pow2 ?e)) * pow2 ?e"
    using assms e by (auto simp: round_dbl_def Let_def split: if_splits)
  have "\<bar>v - q\<bar> = \<bar>of_int (round_half_even (q / pow2 ?e)) - q / pow2 ?e\<bar> * pow2 ?e"
    unfolding v using pow2_pos [of ?e] by (simp add: abs_if field_simps)
  also have "\<dots> \<le> 1 / 2 * pow2 ?e"
    by (rule mult_right_mono [OF round_half_even_error]) (simp add: less_imp_le)
  also have "\<dots> = pow2 (ilog2 q) / 2 ^ 53"
    using pow2_add [of "ilog2 q" "- 52"] by (simp add: pow2_def)
  also have "\<dots> \<le> q / 2 ^ 53" using ilog2_le [OF assms(1)] by (simp add: divide_right_mono)
  finally show ?thesis .
qed

lemma round_dbl_nonneg: "0 \<le> q \<Longrightarrow> round_dbl q = Fin v \<Longrightarrow> 0 \<le> v"
proof -
  assume a: "0 \<le> q" "round_dbl q = Fin v"
  have "0 \<le> round_half_even x" if "0 \<le> x" for x
    using that by (auto simp: round_half_even_def Let_def)
  then have "0 \<le> of_int (round_half_even (q / pow2 e)) * pow2 e" for e
    using a(1) pow2_pos [of e] by (intro mult_nonneg_nonneg) (simp_all add: less_imp_le)
  with a show ?thesis by (auto simp: round_dbl_def Let_def split: if_splits)
qed

lemma ilog2_less:
  assumes "0 < q"
  shows "q < pow2 (ilog2 q + 1)"
proof -
  obtain n d where nd: "quotient_of q = (n, d)" by (cases "quotient_of q")
  have d: "0 < d" using nd by (rule quotient_of_denom_pos)
  have q: "q = of_int n / of_int d" using nd by (rule quotient_of_div)
  have n: "0 < n" using assms d q by (simp add: zero_less_divide_iff)
  let ?bn = "bit_length n" and ?bd = "bit_length d"
  let ?k = "int ?bn - int ?bd"
  have bn: "n < 2 ^ ?bn" and bd: "2 ^ (?bd - 1) \<le> d" "0 < ?bd"
    using bit_length_bounds [OF n] bit_length_bounds [OF d] by auto
  have "q < pow2 (?k + 1)"
  proof -
    have n': "(of_int n :: rat) < 2 ^ ?bn" using bn by (metis of_int_less_iff of_int_numeral of_int_power)
    have d': "(2 :: rat) ^ (?bd - 1) \<le> of_int d" using bd(1) by (metis of_int_le_iff of_int_numeral of_int_power)
    have "pow2 (?k + 1) * pow2 (int (?bd - 1)) = pow2 (int ?bn)"
      using bd(2) pow2_add [of "?k + 1" "int (?bd - 1)"] by (simp add: of_nat_diff)
    then have p: "pow2 (?k + 1) * 2 ^ (?bd - 1) = 2 ^ ?bn" by (simp add: pow2_def)
    have "of_int n < pow2 (?k + 1) * 2 ^ (?bd - 1)" using n' p by simp
    also have "\<dots> \<le> pow2 (?k + 1) * of_int d" using d' by (intro mult_left_mono) simp_all
    finally show ?thesis using d q by (simp add: divide_less_eq)
  qed
  then show ?thesis by (auto simp: ilog2_def nd Let_def not_le)
qed

lemma ilog2_ge: "pow2 k \<le> q \<Longrightarrow> k \<le> ilog2 q"
proof (rule ccontr)
  assume q: "pow2 k \<le> q" and "\<not> k \<le> ilog2 q"
  then have "pow2 (ilog2 q + 1) \<le> pow2 k" by (intro pow2_mono) simp
  moreover have "q < pow2 (ilog2 q + 1)" using q pow2_pos [of k] by (intro ilog2_less) linarith
  ultimately show False using q by simp
qed

lemma fround_error: "fround (Fin v) = Fin w \<Longrightarrow> 0 \<le> v \<Longrightarrow> \<bar>w - v\<bar> \<le> 1 / 2 \<and> (\<exists>k. w = of_int k)"
proof -
  assume a: "fround (Fin v) = Fin w" "0 \<le> v"
  then have w: "w = of_int \<lfloor>v + 1 / 2\<rfloor>" by simp
  have "of_int \<lfloor>v + 1 / 2\<rfloor> \<le> v + 1 / 2" "v + 1 / 2 < of_int \<lfloor>v + 1 / 2\<rfloor> + 1" by linarith+
  then show ?thesis unfolding w by (auto simp only: abs_le_iff)
qed

lemma ilog2_eq: "pow2 k \<le> q \<Longrightarrow> q < pow2 (k + 1) \<Longrightarrow> ilog2 q = k"
proof -
  assume a: "pow2 k \<le> q" "q < pow2 (k + 1)"
  then have q: "0 < q" using pow2_pos [of k] by linarith
  have "\<not> k + 1 \<le> ilog2 q" using ilog2_le [OF q] a(2) pow2_mono [of "k + 1" "ilog2 q"] by linarith
  with ilog2_ge [OF a(1)] show ?thesis by simp
qed

lemma ilog2_below: "0 < q \<Longrightarrow> q < pow2 k \<Longrightarrow> ilog2 q < k"
  using ilog2_le [of q] pow2_mono [of k "ilog2 q"] by linarith

lemma round_dbl_near:
  assumes "1 / 1024 \<le> q" "q < 2 ^ 40"
  shows "\<exists>v. round_dbl q = Fin v \<and> \<bar>v - q\<bar> \<le> q / 2 ^ 53"
proof -
  have q: "0 < q" using assms(1) by linarith
  have log: "- 10 \<le> ilog2 q" using assms(1) by (intro ilog2_ge) (simp add: pow2_def)
  have "ilog2 q < 40" using assms(2) q by (intro ilog2_below) (simp_all add: pow2_def)
  note log = log this
  let ?e = "ilog2 q - 52"
  let ?v = "of_int (round_half_even (q / pow2 ?e)) * pow2 ?e"
  have "of_int (round_half_even (q / pow2 ?e)) \<le> q / pow2 ?e + 1"
    using round_half_even_error [of "q / pow2 ?e"] by (simp only: abs_le_iff) linarith
  then have "?v \<le> (q / pow2 ?e + 1) * pow2 ?e" by (intro mult_right_mono) auto
  also have "\<dots> = q + pow2 ?e" using pow2_pos [of ?e] by (simp add: field_simps)
  also have "\<dots> < 2 ^ 40 + 2 ^ 40" using assms(2) log(2) pow2_mono [of ?e 40] by (simp add: pow2_def)
  also have "\<dots> < 2 ^ 1024" by simp
  finally have "round_dbl q = Fin ?v" using q log by (simp add: round_dbl_def Let_def max_def)
  with round_dbl_error [OF q] log(1) show ?thesis by fastforce
qed

text \<open>Half integers are doubles.\<close>

lemma round_half_even_int: "round_half_even (of_int n) = n"
  by (simp add: round_half_even_def)

lemma round_dbl_half:
  assumes "0 < m" "m < 2 ^ 40"
  shows "round_dbl (of_int m / 2) = Fin (of_int m / 2)"
proof -
  let ?q = "of_int m / 2 :: rat"
  have m: "(1 :: rat) \<le> of_int m" "(of_int m :: rat) < 2 ^ 40" using assms by simp_all
  then have q: "0 < ?q" by linarith
  have log: "- 1 \<le> ilog2 ?q" using m(1) by (intro ilog2_ge) (simp add: pow2_def)
  have "ilog2 ?q < 39" using m(2) q by (intro ilog2_below) (simp_all add: pow2_def)
  note log = log this
  let ?e = "ilog2 ?q - 52"
  have "?q / pow2 ?e = of_int (m * 2 ^ nat (- 1 - ?e))"
  proof -
    have "nat (52 - ilog2 ?q) = Suc (nat (51 - ilog2 ?q))" using log(2) by linarith
    then show ?thesis using log(2) by (simp add: pow2_def)
  qed
  then have "of_int (round_half_even (?q / pow2 ?e)) * pow2 ?e = ?q"
    using round_half_even_int pow2_pos [of ?e] by (metis nonzero_eq_divide_eq less_numeral_extra(3))
  moreover have "?q < 2 ^ 1024" using m(2) by simp
  ultimately show ?thesis using q log by (simp add: round_dbl_def Let_def max_def)
qed

end
