(* ===== verification/Json.thy ===== *)
theory Json
  imports F64
begin

text \<open>
  A parsed JSON document, \<open>serde_json::Value\<close>: what the code reads of one. Parsing itself is
  the serde crate and a parameter of the definitions that use it. Object keys are unique.
\<close>

datatype json =
    JNull
  | JBool bool
  | JInt int
  | JFloat f64
  | JStr string
  | JArr "json list"
  | JObj "(string \<times> json) list"

text \<open>\<open>Value::get\<close> with a key and with an index; \<open>as_f64\<close>.\<close>

definition get_key :: "string \<Rightarrow> json \<Rightarrow> json option" where
  "get_key k v = (case v of JObj kvs \<Rightarrow> map_of kvs k | _ \<Rightarrow> None)"

definition get_index :: "nat \<Rightarrow> json \<Rightarrow> json option" where
  "get_index n v = (case v of JArr xs \<Rightarrow> (if n < length xs then Some (xs ! n) else None) | _ \<Rightarrow> None)"

definition as_f64 :: "json \<Rightarrow> f64 option" where
  "as_f64 v = (case v of JInt i \<Rightarrow> Some (round_dbl (of_int i)) | JFloat x \<Rightarrow> Some x | _ \<Rightarrow> None)"

end
