(* ===== verification/Foreign.thy ===== *)
theory Foreign
  imports Confirm Json
begin

text \<open>
  \<open>crates/gp-server/src/foreign.rs\<close>: the Grin Foreign API, the settlement of a finalized
  invoice and the grin1 expiry sweep. The wallet (\<open>gp_wallet::GpWallet\<close> over the grin-wallet
  crates) answers through \<open>wallet_api\<close>; the outer sum of an answer is the panic of the
  blocking task. Slates are of an arbitrary type; serde's decoding of one is a parameter.
\<close>

subsection \<open>Data\<close>

record rpc_request =
  rpc_id :: json
  rpc_method :: string
  rpc_params :: json

datatype 'r rpc_reply = RpcOk json 'r | RpcErr json int string

datatype ('v, 's) rpc_result = VersionInfo 'v | SlateOut 's

record finalized_invoice =
  fin_slate_id :: string
  fin_amount :: u64
  fin_kernel_excess :: string

record 's wallet_api =
  wa_receive :: "'s \<Rightarrow> string + (wallet_error + 's \<times> received)"
  wa_finalize :: "'s \<Rightarrow> string + (wallet_error + 's \<times> finalized_invoice)"

definition show_wallet_error :: "wallet_error \<Rightarrow> string" where
  "show_wallet_error e =
     (case e of
        ConfigError m \<Rightarrow> ''wallet config error: '' @ m
      | WalletError m \<Rightarrow> ''wallet error: '' @ m
      | SlatepackError m \<Rightarrow> ''slatepack error: '' @ m)"

subsection \<open>Settlement of a finalized invoice\<close>

definition webhook_pair :: "string option \<Rightarrow> string option \<Rightarrow> (string \<times> string) option" where
  "webhook_pair url secret =
     (case (url, secret) of (Some u, Some s) \<Rightarrow> Some (u, s) | _ \<Rightarrow> None)"

definition settled_amount :: "invoice \<Rightarrow> finalized_invoice \<Rightarrow> u64" where
  "settled_amount i fin =
     as_u64 (max (case expected_amount i of Some a \<Rightarrow> a | None \<Rightarrow> as_i64 (fin_amount fin)) 0)"

definition settled_row :: "int \<Rightarrow> invoice \<Rightarrow> finalized_invoice \<Rightarrow> payment" where
  "settled_row now i fin =
     \<lparr>pay_id = fin_slate_id fin, pay_amount = as_i64 (settled_amount i fin), payer = None,
      pay_slate_id = Some (fin_slate_id fin), kernel = Some (fin_kernel_excess fin), proof_blob = None,
      pay_status = ''received'', confirmed_height = None, pay_created_at = now, s2_armor = None,
      pay_confirmed_at = None, pay_invoice_id = Some (inv_id i), pay_user_id = None,
      recipient = Some '''', confirmations = 0\<rparr>"

definition settle_finalized ::
  "(webhook_payload \<Rightarrow> 'b) \<Rightarrow> string \<Rightarrow> int \<Rightarrow> finalized_invoice \<Rightarrow> (string \<times> string) option \<Rightarrow> 'b db \<Rightarrow> 'b db" where
  "settle_finalized to_body rid now fin webhook d =
     (case get_by_slate_id (fin_slate_id fin) d of
        None \<Rightarrow> d
      | Some i \<Rightarrow>
          let amount = settled_amount i fin;
              d1 = snd (insert_payment (settled_row now i fin) d);
              (paid, d2) = mark_paid now (inv_id i) (fin_slate_id fin) d1
          in if \<not> paid then d2
             else (case webhook of
                     None \<Rightarrow> d2
                   | Some (url, _) \<Rightarrow>
                       snd (enqueue to_body now url
                         (payload_received rid now (fin_slate_id fin) amount None (Some (inv_id i))
                            (order_ref i) None) d2)))"

subsection \<open>The RPC handlers\<close>

text \<open>The slate is positional parameter 0.\<close>

definition slate_param :: "(json \<Rightarrow> string + 's) \<Rightarrow> json \<Rightarrow> string + 's" where
  "slate_param from_value params =
     (case get_index 0 params of
        None \<Rightarrow> Inl ''missing slate parameter''
      | Some v \<Rightarrow> (case from_value v of Inl e \<Rightarrow> Inl (''bad slate: '' @ e) | Inr s \<Rightarrow> Inr s))"

definition receive_tx ::
  "(webhook_payload \<Rightarrow> 'b) \<Rightarrow> (json \<Rightarrow> string + 's) \<Rightarrow> string \<Rightarrow> int \<Rightarrow> (string \<times> string) option
   \<Rightarrow> 's wallet_api \<Rightarrow> json \<Rightarrow> json \<Rightarrow> 'b db \<Rightarrow> ('v, 's) rpc_result rpc_reply \<times> 'b db" where
  "receive_tx to_body from_value rid now hook w i params d =
     (case slate_param from_value params of
        Inl e \<Rightarrow> (RpcErr i (- 32602) e, d)
      | Inr s \<Rightarrow>
          (case wa_receive w s of
             Inl e \<Rightarrow> (RpcErr i (- 32603) (''receive task panicked: '' @ e), d)
           | Inr (Inl e) \<Rightarrow> (RpcErr i (- 32603) (''receive failed: '' @ show_wallet_error e), d)
           | Inr (Inr (out, rcv)) \<Rightarrow>
               (RpcOk i (SlateOut out),
                snd (persist_and_match to_body rid now rcv None '''' None AmountMode hook d))))"

definition finalize_tx ::
  "(webhook_payload \<Rightarrow> 'b) \<Rightarrow> (json \<Rightarrow> string + 's) \<Rightarrow> string \<Rightarrow> int \<Rightarrow> (string \<times> string) option
   \<Rightarrow> 's wallet_api \<Rightarrow> json \<Rightarrow> json \<Rightarrow> 'b db \<Rightarrow> ('v, 's) rpc_result rpc_reply \<times> 'b db" where
  "finalize_tx to_body from_value rid now hook w i params d =
     (case slate_param from_value params of
        Inl e \<Rightarrow> (RpcErr i (- 32602) e, d)
      | Inr s \<Rightarrow>
          (case wa_finalize w s of
             Inl e \<Rightarrow> (RpcErr i (- 32603) (''finalize task panicked: '' @ e), d)
           | Inr (Inl e) \<Rightarrow> (RpcErr i (- 32603) (''finalize failed: '' @ show_wallet_error e), d)
           | Inr (Inr (out, fin)) \<Rightarrow>
               (RpcOk i (SlateOut out), settle_finalized to_body rid now fin hook d)))"

definition handle ::
  "(webhook_payload \<Rightarrow> 'b) \<Rightarrow> (json \<Rightarrow> string + 's) \<Rightarrow> 'v \<Rightarrow> string \<Rightarrow> int \<Rightarrow> (string \<times> string) option
   \<Rightarrow> 's wallet_api option \<Rightarrow> rpc_request \<Rightarrow> 'b db \<Rightarrow> ('v, 's) rpc_result rpc_reply \<times> 'b db" where
  "handle to_body from_value version rid now hook wallet req d =
     (if rpc_method req = ''check_version'' then (RpcOk (rpc_id req) (VersionInfo version), d)
      else (case wallet of
              None \<Rightarrow> (RpcErr (rpc_id req) (- 32603) ''wallet not loaded'', d)
            | Some w \<Rightarrow>
                if rpc_method req = ''receive_tx''
                then receive_tx to_body from_value rid now hook w (rpc_id req) (rpc_params req) d
                else if rpc_method req = ''finalize_tx''
                then finalize_tx to_body from_value rid now hook w (rpc_id req) (rpc_params req) d
                else (RpcErr (rpc_id req) (- 32601) (''method `'' @ rpc_method req @ ''` not found''), d)))"

subsection \<open>The expiry sweep\<close>

text \<open>\<open>cancel k\<close> is the wallet's answer to the \<open>k\<close>-th cancellation of the pass.\<close>

fun sweep_each ::
  "(nat \<Rightarrow> string \<Rightarrow> string + (wallet_error + unit)) \<Rightarrow> nat \<Rightarrow> (string \<times> string) list \<Rightarrow> 'b db \<Rightarrow> 'b db" where
  "sweep_each cancel k [] d = d"
| "sweep_each cancel k ((iid, sid) # rest) d =
     sweep_each cancel (k + 1) rest
       (case cancel k sid of Inr (Inr _) \<Rightarrow> snd (mark_expired iid d) | _ \<Rightarrow> d)"

definition expiry_sweep :: "(nat \<Rightarrow> string \<Rightarrow> string + (wallet_error + unit)) \<Rightarrow> int \<Rightarrow> 'b db \<Rightarrow> 'b db" where
  "expiry_sweep cancel now d = sweep_each cancel 0 (due_grin1_slates now d) d"

subsection \<open>The invoices after a settlement\<close>

lemma settle_invoices:
  "invoices (settle_finalized to_body rid now fin hook d) =
     (case get_by_slate_id (fin_slate_id fin) d of
        None \<Rightarrow> invoices d
      | Some i \<Rightarrow> invoices (snd (mark_paid now (inv_id i) (fin_slate_id fin) (snd (insert_payment (settled_row now i fin) d)))))"
  by (auto simp: settle_finalized_def Let_def split: option.splits prod.splits)

lemma mark_paid_not_open:
  assumes "distinct (map inv_id (invoices d))" "lookup_by inv_id iid (invoices d) = Some i" "inv_status i \<noteq> ''open''"
  shows "mark_paid now iid sid d = (False, d)"
  using paying.idle [OF assms(1), of iid "(now, sid)"] assms(2,3) by simp

lemma slate_row:
  assumes "distinct (map inv_id (invoices d))" "get_by_slate_id sid d = Some i"
  shows "lookup_by inv_id (inv_id i) (invoices d) = Some i" "inv_slate_id i = Some sid"
  using lookup_by_Some [OF assms(2) [unfolded get_by_slate_id_def]] lookup_by_distinct [OF assms(1)] by auto

lemma settle_not_open:
  assumes "distinct (map inv_id (invoices d))" "get_by_slate_id (fin_slate_id fin) d = Some i" "inv_status i \<noteq> ''open''"
  shows "settle_finalized to_body rid now fin hook d = snd (insert_payment (settled_row now i fin) d)"
proof -
  have "mark_paid now (inv_id i) (fin_slate_id fin) (snd (insert_payment (settled_row now i fin) d)) =
      (False, snd (insert_payment (settled_row now i fin) d))"
    using slate_row [OF assms(1,2)] assms by (intro mark_paid_not_open [of _ _ i]) simp_all
  then show ?thesis using assms(2) by (simp add: settle_finalized_def Let_def)
qed

lemma mark_paid_open:
  assumes "lookup_by inv_id iid (invoices d) = Some i" "inv_status i = ''open''"
  shows "fst (mark_paid now iid sid d)"
  using lookup_by_Some [OF assms(1)] assms(2) by (auto simp: mark_paid_def count_where_pos)

definition settled_event ::
  "(webhook_payload \<Rightarrow> 'b) \<Rightarrow> string \<Rightarrow> int \<Rightarrow> finalized_invoice \<Rightarrow> invoice \<Rightarrow> (string \<times> string) option \<Rightarrow> 'b db \<Rightarrow> 'b db" where
  "settled_event to_body rid now fin i hook d =
     (case hook of
        None \<Rightarrow> d
      | Some (url, _) \<Rightarrow>
          snd (enqueue to_body now url
            (payload_received rid now (fin_slate_id fin) (settled_amount i fin) None (Some (inv_id i)) (order_ref i) None) d))"

lemma settle_open:
  assumes "distinct (map inv_id (invoices d))" "get_by_slate_id (fin_slate_id fin) d = Some i" "inv_status i = ''open''"
  shows "settle_finalized to_body rid now fin hook d =
     settled_event to_body rid now fin i hook
       (snd (mark_paid now (inv_id i) (fin_slate_id fin) (snd (insert_payment (settled_row now i fin) d))))"
proof -
  let ?d1 = "snd (insert_payment (settled_row now i fin) d)"
  obtain d2 where "mark_paid now (inv_id i) (fin_slate_id fin) ?d1 = (True, d2)"
    using mark_paid_open [of "inv_id i" ?d1 i now "fin_slate_id fin"] slate_row [OF assms(1,2)] assms(3)
    by (metis (full_types) insert_payment_tables(1) prod.collapse)
  then show ?thesis using assms(2) by (simp add: settle_finalized_def settled_event_def Let_def)
qed

lemma settled_event_tables [simp]:
  "invoices (settled_event to_body rid now fin i hook d) = invoices d"
  "payments (settled_event to_body rid now fin i hook d) = payments d"
  by (auto simp: settled_event_def split: option.splits)

lemma settle_result:
  assumes "distinct (map inv_id (invoices d))" "get_by_slate_id (fin_slate_id fin) d = Some i"
    and "fin_slate_id fin \<notin> pay_id ` set (payments d)"
  shows "(\<forall>k. lookup_by inv_id k (invoices (settle_finalized to_body rid now fin hook d)) =
       (if k = inv_id i \<and> inv_status i = ''open'' then Some (paid_row (now, fin_slate_id fin) i)
        else lookup_by inv_id k (invoices d))) \<and>
    payments (settle_finalized to_body rid now fin hook d) = payments d @ [settled_row now i fin] \<and>
    (\<forall>a. expected_amount i = Some a \<longrightarrow> 0 \<le> a \<longrightarrow> a < 2 ^ 63 \<longrightarrow> pay_amount (settled_row now i fin) = a)"
proof (intro conjI allI impI)
  let ?d1 = "snd (insert_payment (settled_row now i fin) d)"
  have d1: "payments ?d1 = payments d @ [settled_row now i fin]"
    using assms(3) by (simp add: insert_payment_def settled_row_def)
  note row = slate_row [OF assms(1,2)]
  show "payments (settle_finalized to_body rid now fin hook d) = payments d @ [settled_row now i fin]"
    using d1 settle_open [OF assms(1,2)] settle_not_open [OF assms(1,2)]
    by (cases "inv_status i = ''open''") simp_all
  fix k
  show "lookup_by inv_id k (invoices (settle_finalized to_body rid now fin hook d)) =
       (if k = inv_id i \<and> inv_status i = ''open'' then Some (paid_row (now, fin_slate_id fin) i)
        else lookup_by inv_id k (invoices d))"
  proof (cases "inv_status i = ''open''")
    case True
    have "lookup_by inv_id (inv_id i) (invoices (snd (mark_paid now (inv_id i) (fin_slate_id fin) ?d1))) =
        Some (paid_row (now, fin_slate_id fin) i)"
      using match_marks_paid [of ?d1 "inv_id i" i now "fin_slate_id fin"] assms(1) row True by simp
    then show ?thesis
      using settle_open [OF assms(1,2) True] True mark_paid_frame [of k "inv_id i" now "fin_slate_id fin" ?d1] by auto
  next
    case False
    then show ?thesis using settle_not_open [OF assms(1,2) False] by auto
  qed
next
  fix a :: int
  assume "expected_amount i = Some a" "0 \<le> a" "a < 2 ^ 63"
  moreover from this have "as_i64 (as_u64 a) = a"
    using signed_take_bit_int_eq_self [of 63 a] by (simp add: as_i64_def as_u64_def sint_sbintrunc')
  ultimately show "pay_amount (settled_row now i fin) = a" by (simp add: settled_row_def settled_amount_def)
qed

text \<open>C14: finalizing a slate pays the invoice the slate was issued for, if it is open, and no other;
  the ledger amount is what the invoice asks for (the slate's own only for an open-amount
  invoice), never the amount the payer's slate carries.\<close>

theorem settlement_pays_issued_invoice:
  assumes "distinct (map inv_id (invoices d))" "get_by_slate_id (fin_slate_id fin) d = Some i"
    and "fin_slate_id fin \<notin> pay_id ` set (payments d)"
  shows "(\<forall>k. lookup_by inv_id k (invoices (settle_finalized to_body rid now fin hook d)) =
       (if k = inv_id i \<and> inv_status i = ''open'' then Some (paid_row (now, fin_slate_id fin) i)
        else lookup_by inv_id k (invoices d))) \<and>
    payments (settle_finalized to_body rid now fin hook d) = payments d @ [settled_row now i fin] \<and>
    (\<forall>a. expected_amount i = Some a \<longrightarrow> 0 \<le> a \<longrightarrow> a < 2 ^ 63 \<longrightarrow> pay_amount (settled_row now i fin) = a)"
  by (rule settle_result [OF assms])

definition grin1_db :: "string db" where
  "grin1_db = empty_db\<lparr>invoices := [(sample_invoice ''a'' ''pk'' (Some 700))\<lparr>rail := Some RAIL_GRIN1,
      inv_slate_id := Some ''sl'', slatepack := Some ''I1'', expiry := Some 50\<rparr>]\<rparr>"

definition sample_final :: finalized_invoice where
  "sample_final = \<lparr>fin_slate_id = ''sl'', fin_amount = 0, fin_kernel_excess = ''k''\<rparr>"

theorem settlement_pays_issued_invoice_witness:
  "map pay_amount (payments (settle_finalized event_id ''ev'' 20 sample_final None grin1_db)) = [700]"
proof -
  have "get_by_slate_id (fin_slate_id sample_final) grin1_db = Some (hd (invoices grin1_db))" by code_simp
  moreover have "distinct (map inv_id (invoices grin1_db))" "fin_slate_id sample_final \<notin> pay_id ` set (payments grin1_db)"
    by code_simp+
  ultimately have "payments (settle_finalized event_id ''ev'' 20 sample_final None grin1_db) =
      payments grin1_db @ [settled_row 20 (hd (invoices grin1_db)) sample_final]"
    using settlement_pays_issued_invoice [of grin1_db sample_final] by blast
  moreover have "map pay_amount (payments grin1_db @ [settled_row 20 (hd (invoices grin1_db)) sample_final]) = [700]"
    by code_simp
  ultimately show ?thesis by simp
qed

text \<open>C15: replaying a finalize is a no-op: the second settlement of the same slate changes no row of
  the database and sends no second event.\<close>

theorem settlement_replay:
  assumes "distinct (map inv_id (invoices d))"
  shows "settle_finalized to_body rid' now' fin hook' (settle_finalized to_body rid now fin hook d) =
           settle_finalized to_body rid now fin hook d"
proof (cases "get_by_slate_id (fin_slate_id fin) d")
  case None
  then show ?thesis by (simp add: settle_finalized_def)
next
  case (Some i)
  let ?d1 = "snd (insert_payment (settled_row now i fin) d)"
  let ?d' = "settle_finalized to_body rid now fin hook d"
  note row = slate_row [OF assms Some]
  have ids: "distinct (map inv_id (invoices ?d'))"
    using assms paying.keeps_ids [of "(now, fin_slate_id fin)" "inv_id i" ?d1] Some by (simp add: settle_invoices)
  have upd: "\<exists>j. get_by_slate_id (fin_slate_id fin) ?d' = Some j \<and> inv_status j \<noteq> ''open''"
  proof (cases "inv_status i = ''open''")
    case True
    have "get_by_slate_id (fin_slate_id fin) ?d' =
        map_option (\<lambda>r. if inv_id r = inv_id i \<and> inv_status r = ''open''
           then r\<lparr>inv_status := ''paid'', paid_payment_id := Some (fin_slate_id fin), paid_at := Some now\<rparr> else r)
         (lookup_by inv_slate_id (Some (fin_slate_id fin)) (invoices d))"
      using settle_open [OF assms Some True]
      by (simp add: get_by_slate_id_def mark_paid_def lookup_by_update_where)
    then show ?thesis using Some True by (auto simp: get_by_slate_id_def)
  next
    case False
    then show ?thesis using settle_not_open [OF assms Some False] Some by (auto simp: get_by_slate_id_def)
  qed
  have "payments ?d' = payments ?d1"
    using settle_open [OF assms Some] settle_not_open [OF assms Some] by (cases "inv_status i = ''open''") simp_all
  then have "fin_slate_id fin \<in> pay_id ` set (payments ?d')"
    by (auto simp: insert_payment_def settled_row_def)
  then have "snd (insert_payment (settled_row n j fin) ?d') = ?d'" for n j
    by (simp add: insert_payment_def settled_row_def)
  with upd settle_not_open [OF ids] show ?thesis by metis
qed

theorem settlement_replay_witness:
  "settle_finalized event_id ''e2'' 21 sample_final None (settle_finalized event_id ''e1'' 20 sample_final None grin1_db)
     = settle_finalized event_id ''e1'' 20 sample_final None grin1_db"
  by (rule settlement_replay) code_simp

text \<open>
  Nothing in the finalize path looks at the invoice's status before the transaction is posted:
  after expiry the payment is still recorded and linked, while the invoice stays expired.
\<close>

lemma late_finalize_recorded:
  "let d = snd (expire_due 60 grin1_db); d' = settle_finalized event_id ''ev'' 61 sample_final None d
   in map inv_status (invoices d') = [''expired''] \<and> map pay_invoice_id (payments d') = [Some ''a'']"
  by code_simp

subsection \<open>The handlers\<close>

text \<open>A Foreign API call that answers with an error has changed nothing, and so has
  \<open>check_version\<close>.\<close>

lemma rpc_error_changes_nothing:
  assumes "handle to_body from_value version rid now hook w req d = (RpcErr i code msg, d')"
  shows "d' = d \<and> i = rpc_id req \<and> code \<in> {- 32603, - 32602, - 32601}"
  using assms
  by (auto simp: handle_def receive_tx_def finalize_tx_def split: if_splits option.splits sum.splits prod.splits)

subsection \<open>The sweep\<close>

fun cancelled :: "(nat \<Rightarrow> string \<Rightarrow> string + (wallet_error + unit)) \<Rightarrow> nat \<Rightarrow> (string \<times> string) list \<Rightarrow> string set" where
  "cancelled cancel k [] = {}"
| "cancelled cancel k ((iid, sid) # rest) =
     (case cancel k sid of Inr (Inr _) \<Rightarrow> {iid} | _ \<Rightarrow> {}) \<union> cancelled cancel (k + 1) rest"

definition expire_open_if :: "bool \<Rightarrow> invoice \<Rightarrow> invoice" where
  "expire_open_if b i = (if b \<and> inv_status i = ''open'' then set_expired i else i)"

lemma mark_expired_lookup:
  "lookup_by inv_id k (invoices (snd (mark_expired iid d))) =
     map_option (expire_open_if (k = iid)) (lookup_by inv_id k (invoices d))"
proof -
  have "lookup_by inv_id k (update_where (\<lambda>i. inv_id i = iid \<and> inv_status i = ''open'') set_expired (invoices d)) =
      map_option (\<lambda>r. if inv_id r = iid \<and> inv_status r = ''open'' then set_expired r else r)
        (lookup_by inv_id k (invoices d))"
    by (rule lookup_by_update_where) (simp add: set_expired_def)
  moreover have "inv_id r = k" if "lookup_by inv_id k (invoices d) = Some r" for r
    using lookup_by_Some [OF that] by simp
  ultimately show ?thesis
    by (cases "lookup_by inv_id k (invoices d)") (auto simp: mark_expired_def expire_open_if_def)
qed

lemma sweep_each_lookup:
  "lookup_by inv_id i (invoices (sweep_each cancel k ps d)) =
     map_option (expire_open_if (i \<in> cancelled cancel k ps)) (lookup_by inv_id i (invoices d))"
proof (induction ps arbitrary: k d)
  case Nil
  then show ?case by (cases "lookup_by inv_id i (invoices d)") (simp_all add: expire_open_if_def)
next
  case (Cons p ps)
  obtain iid sid where p: "p = (iid, sid)" by (cases p)
  let ?c = "case cancel k sid of Inr (Inr _) \<Rightarrow> True | _ \<Rightarrow> False"
  let ?d1 = "case cancel k sid of Inr (Inr _) \<Rightarrow> snd (mark_expired iid d) | _ \<Rightarrow> d"
  have tw: "expire_open_if a (expire_open_if b v) = expire_open_if (a \<or> b) v" for a b v
    by (auto simp: expire_open_if_def set_expired_def)
  have no: "expire_open_if False = (\<lambda>v. v)" by (simp add: expire_open_if_def fun_eq_iff)
  have "lookup_by inv_id i (invoices ?d1) = map_option (expire_open_if (?c \<and> i = iid)) (lookup_by inv_id i (invoices d))"
    by (auto simp: mark_expired_lookup no map_option.identity [unfolded id_def] split: sum.splits)
  moreover have "(i \<in> cancelled cancel (k + 1) ps \<or> ?c \<and> i = iid) = (i \<in> cancelled cancel k (p # ps))"
    by (auto simp: p split: sum.splits)
  moreover have "sweep_each cancel k (p # ps) d = sweep_each cancel (k + 1) ps ?d1" by (simp add: p)
  ultimately show ?case
    using Cons.IH [of "k + 1" ?d1] by (cases "lookup_by inv_id i (invoices d)") (simp_all add: tw)
qed

text \<open>The sweep expires exactly the due grin1 invoices whose stored wallet context was cancelled:
  a failed cancellation leaves its invoice open for the next pass, and every other invoice is
  untouched.\<close>

lemma sweep_expires_cancelled:
  "lookup_by inv_id i (invoices (expiry_sweep cancel now d)) =
     map_option (\<lambda>v. if i \<in> cancelled cancel 0 (due_grin1_slates now d) \<and> inv_status v = ''open''
                     then set_expired v else v)
       (lookup_by inv_id i (invoices d))"
  using sweep_each_lookup [of i cancel 0 "due_grin1_slates now d" d]
  by (simp add: expiry_sweep_def expire_open_if_def [abs_def])

text \<open>
  Any read that expires lazily hides an invoice from the sweep: once \<open>expire_due\<close> has run, no
  due invoice is left whose wallet context would be cancelled.
\<close>

lemma lazy_expiry_hides_from_sweep: "due_grin1_slates now (snd (expire_due now d)) = []"
  by (auto simp: due_grin1_slates_def expire_due_def update_where_def set_expired_def filter_empty_conv due_at_def)

end
