(* ===== verification/Wallet.thy ===== *)
theory Wallet
  imports Foreign Config
begin

text \<open>
  \<open>crates/gp-wallet/src/lib.rs\<close> and \<open>proof.rs\<close>: opening the wallet, receiving a payment, issuing,
  finalizing and cancelling an invoice slate, and the receiver's payment proof. The grin-wallet
  crates are a \<open>backend\<close> over a wallet state \<open>'w\<close> and slates \<open>'s\<close>; ed25519 is a \<open>dalek\<close>. An
  operation threads the wallet state, and a failing step keeps what the steps before it did.
\<close>

unbundle bit_operations_syntax

subsection \<open>Steps on the wallet\<close>

type_synonym ('w, 'a) wop = "'w \<Rightarrow> (wallet_error + 'a) \<times> 'w"

definition ret :: "'a \<Rightarrow> ('w, 'a) wop" where
  "ret x w = (Inr x, w)"

definition fail :: "wallet_error \<Rightarrow> ('w, 'a) wop" where
  "fail e w = (Inl e, w)"

definition seqw :: "('w, 'a) wop \<Rightarrow> ('a \<Rightarrow> ('w, 'b) wop) \<Rightarrow> ('w, 'b) wop" where
  "seqw m k w = (case m w of (Inl e, w') \<Rightarrow> (Inl e, w') | (Inr x, w') \<Rightarrow> k x w')"

text \<open>An upstream call that changes the state, one that only reads it, and a pure one.\<close>

definition upstream :: "(string \<Rightarrow> wallet_error) \<Rightarrow> ('w \<Rightarrow> (string + 'a) \<times> 'w) \<Rightarrow> ('w, 'a) wop" where
  "upstream wrap f w = (case f w of (Inl e, w') \<Rightarrow> (Inl (wrap e), w') | (Inr x, w') \<Rightarrow> (Inr x, w'))"

definition reads :: "(string \<Rightarrow> wallet_error) \<Rightarrow> ('w \<Rightarrow> string + 'a) \<Rightarrow> ('w, 'a) wop" where
  "reads wrap g w = (case g w of Inl e \<Rightarrow> (Inl (wrap e), w) | Inr x \<Rightarrow> (Inr x, w))"

definition given :: "wallet_error + 'a \<Rightarrow> ('w, 'a) wop" where
  "given r w = (r, w)"

lemma seqw_Inr:
  "seqw m k w = (Inr y, w2) \<longleftrightarrow> (\<exists>x w1. m w = (Inr x, w1) \<and> k x w1 = (Inr y, w2))"
  by (auto simp: seqw_def split: prod.splits sum.splits)

lemma ret_Inr: "ret x w = (Inr y, w2) \<longleftrightarrow> y = x \<and> w2 = w"
  by (auto simp: ret_def)

lemma reads_Inr: "reads wrap g w = (Inr x, w1) \<longleftrightarrow> g w = Inr x \<and> w1 = w"
  by (auto simp: reads_def split: sum.splits)

lemma upstream_Inr: "upstream wrap f w = (Inr x, w1) \<longleftrightarrow> f w = (Inr x, w1)"
  by (auto simp: upstream_def split: sum.splits prod.splits)

lemma given_Inr: "given r w = (Inr x, w1) \<longleftrightarrow> r = Inr x \<and> w1 = w"
  by (auto simp: given_def)

lemmas wop_Inr = seqw_Inr ret_Inr reads_Inr upstream_Inr given_Inr

subsection \<open>Upstream\<close>

datatype slate_state = Standard1 | Invoice1 | Invoice2 | OtherState string

record pp_info =
  pp_sender :: bytes
  pp_receiver :: bytes
  pp_signature :: "bytes option"

text \<open>
  \<open>be_read\<close> decodes an armored slatepack, \<open>be_excesses\<close> lists the kernel excesses of the logged
  transactions of a slate id, \<open>be_from\<close>/\<open>be_version\<close>/\<open>be_into\<close> convert the Foreign API's versioned
  slates (of type \<open>'v\<close>, versions \<open>'n\<close>).
\<close>

record ('w, 's, 'v, 'n) backend =
  be_id :: "'s \<Rightarrow> string"
  be_state :: "'s \<Rightarrow> slate_state"
  be_amount :: "'s \<Rightarrow> u64"
  be_proof :: "'s \<Rightarrow> pp_info option"
  be_state_name :: "slate_state \<Rightarrow> string"
  be_state_dbg :: "slate_state \<Rightarrow> string"
  be_read :: "string \<Rightarrow> 'w \<Rightarrow> string + 's"
  be_armor :: "'s \<Rightarrow> 'w \<Rightarrow> string + string"
  be_excesses :: "string \<Rightarrow> 'w \<Rightarrow> string + bytes option list"
  be_receive :: "'s \<Rightarrow> 'w \<Rightarrow> (string + 's) \<times> 'w"
  be_issue :: "u64 \<Rightarrow> 'w \<Rightarrow> (string + 's) \<times> 'w"
  be_finalize :: "'s \<Rightarrow> 'w \<Rightarrow> (string + 's) \<times> 'w"
  be_finalize_post :: "'s \<Rightarrow> 'w \<Rightarrow> (string + 's) \<times> 'w"
  be_open_client :: "string + unit"
  be_post :: "'s \<Rightarrow> 'w \<Rightarrow> (string + unit) \<times> 'w"
  be_parse_uuid :: "string \<Rightarrow> string + string"
  be_cancel :: "string \<Rightarrow> 'w \<Rightarrow> (string + unit) \<times> 'w"
  be_from :: "'v \<Rightarrow> 's"
  be_version :: "'v \<Rightarrow> 'n"
  be_into :: "'s \<Rightarrow> 'n \<Rightarrow> string + 'v"

record dalek =
  key_from_bytes :: "bytes \<Rightarrow> bool"
  sig_from_bytes :: "bytes \<Rightarrow> bool"
  ed_verify :: "bytes \<Rightarrow> bytes \<Rightarrow> bytes \<Rightarrow> bool"

subsection \<open>The receiver's payment proof\<close>

record receiver_proof =
  rp_amount :: u64
  rp_kernel_excess :: string
  rp_sender_address :: string
  rp_recipient_address :: string
  rp_recipient_sig :: string

definition ADDRESS_LEN :: nat where "ADDRESS_LEN = 32"
definition SIGNATURE_LEN :: nat where "SIGNATURE_LEN = 64"

definition to_be_bytes :: "u64 \<Rightarrow> bytes" where
  "to_be_bytes w = map (\<lambda>i. ucast (drop_bit (8 * i) w)) [7, 6, 5, 4, 3, 2, 1, 0]"

definition proof_message :: "u64 \<Rightarrow> bytes \<Rightarrow> bytes \<Rightarrow> bytes" where
  "proof_message amount excess sender = to_be_bytes amount @ excess @ sender"

definition decode_fixed :: "nat \<Rightarrow> string \<Rightarrow> bytes option" where
  "decode_fixed n hex =
     (let h = trim hex in if length h \<noteq> n * 2 then None else decode_hex h)"

definition verify_receiver_proof :: "dalek \<Rightarrow> receiver_proof \<Rightarrow> bool" where
  "verify_receiver_proof ed p =
     (case (decode_fixed COMMITMENT_LEN (rp_kernel_excess p), decode_fixed ADDRESS_LEN (rp_sender_address p),
            decode_fixed ADDRESS_LEN (rp_recipient_address p), decode_fixed SIGNATURE_LEN (rp_recipient_sig p)) of
        (Some excess, Some sender, Some key, Some sig) \<Rightarrow>
          key_from_bytes ed key \<and> sig_from_bytes ed sig \<and>
          ed_verify ed key (proof_message (rp_amount p) excess sender) sig
      | _ \<Rightarrow> False)"

definition build_proof ::
  "dalek \<Rightarrow> (receiver_proof \<Rightarrow> string + string) \<Rightarrow> pp_info option \<Rightarrow> u64 \<Rightarrow> string \<Rightarrow> wallet_error + string option" where
  "build_proof ed to_json info amount excess =
     (case info of
        None \<Rightarrow> Inr None
      | Some i \<Rightarrow>
          (case pp_signature i of
             None \<Rightarrow> Inr None
           | Some sig \<Rightarrow>
               let p = \<lparr>rp_amount = amount, rp_kernel_excess = excess,
                        rp_sender_address = hex_encode (pp_sender i),
                        rp_recipient_address = hex_encode (pp_receiver i),
                        rp_recipient_sig = hex_encode sig\<rparr>
               in if \<not> verify_receiver_proof ed p
                  then Inl (WalletError ''receive_tx produced a payment proof that does not verify'')
                  else (case to_json p of
                          Inl e \<Rightarrow> Inl (WalletError (''serialize payment proof: '' @ e))
                        | Inr j \<Rightarrow> Inr (Some j))))"

subsection \<open>Receiving\<close>

definition slate_kernel_excess :: "('w, 's, 'v, 'n) backend \<Rightarrow> string \<Rightarrow> ('w, string) wop" where
  "slate_kernel_excess b sid =
     seqw (reads WalletError (be_excesses b sid)) (\<lambda>txs.
       given (case find (\<lambda>k. k \<noteq> None) txs of
                Some (Some k) \<Rightarrow> Inr (hex_encode k)
              | _ \<Rightarrow> Inl (WalletError ''tx has no recorded kernel excess'')))"

definition slatepack_kind :: "('w, 's, 'v, 'n) backend \<Rightarrow> string \<Rightarrow> ('w, string \<times> string) wop" where
  "slatepack_kind b armor =
     seqw (reads (\<lambda>e. SlatepackError (''cannot read slatepack: '' @ e)) (be_read b (trim armor))) (\<lambda>slate.
       ret (be_id b slate, be_state_name b (be_state b slate)))"

text \<open>The steps both receive paths share, once the slate is known to be an S1.\<close>

definition receive_s1 ::
  "dalek \<Rightarrow> (receiver_proof \<Rightarrow> string + string) \<Rightarrow> ('w, 's, 'v, 'n) backend \<Rightarrow> 's \<Rightarrow> ('w, 's \<times> received) wop" where
  "receive_s1 ed to_json b slate =
     seqw (upstream WalletError (be_receive b slate)) (\<lambda>s2.
     seqw (slate_kernel_excess b (be_id b slate)) (\<lambda>excess.
     seqw (given (build_proof ed to_json (be_proof b s2) (be_amount b slate) excess)) (\<lambda>proof.
     seqw (reads WalletError (be_armor b s2)) (\<lambda>armor.
       ret (s2, \<lparr>rcv_slate_id = be_id b s2, rcv_amount = be_amount b slate, rcv_s2_armor = armor,
                 rcv_kernel_excess = excess, rcv_proof = proof\<rparr>)))))"

definition receive_slatepack ::
  "dalek \<Rightarrow> (receiver_proof \<Rightarrow> string + string) \<Rightarrow> ('w, 's, 'v, 'n) backend \<Rightarrow> string \<Rightarrow> ('w, received) wop" where
  "receive_slatepack ed to_json b s1_armor =
     seqw (reads (\<lambda>e. SlatepackError (''cannot read slatepack: '' @ e)) (be_read b (trim s1_armor))) (\<lambda>slate.
       if be_state b slate \<noteq> Standard1
       then fail (SlatepackError (''expected an S1 (standard send) slatepack, got '' @ be_state_dbg b (be_state b slate)))
       else seqw (receive_s1 ed to_json b slate) (\<lambda>(_, r). ret r))"

definition receive_slate ::
  "dalek \<Rightarrow> (receiver_proof \<Rightarrow> string + string) \<Rightarrow> ('w, 's, 'v, 'n) backend \<Rightarrow> 'v \<Rightarrow> ('w, 'v \<times> received) wop" where
  "receive_slate ed to_json b v =
     (let slate = be_from b v in
      if be_state b slate \<noteq> Standard1
      then fail (SlatepackError (''expected an S1 (standard send) slate, got '' @ be_state_dbg b (be_state b slate)))
      else seqw (receive_s1 ed to_json b slate) (\<lambda>(s2, r).
           seqw (given (case be_into b s2 (be_version b v) of Inl e \<Rightarrow> Inl (WalletError e) | Inr x \<Rightarrow> Inr x)) (\<lambda>out.
             ret (out, r))))"

subsection \<open>Invoices\<close>

record issued =
  iss_slate_id :: string
  iss_i1_armor :: string

definition issue_invoice :: "('w, 's, 'v, 'n) backend \<Rightarrow> u64 \<Rightarrow> ('w, issued) wop" where
  "issue_invoice b amount =
     seqw (upstream WalletError (be_issue b amount)) (\<lambda>i1.
       if be_state b i1 \<noteq> Invoice1
       then fail (WalletError (''issue_invoice_tx produced unexpected slate state '' @ be_state_dbg b (be_state b i1)))
       else seqw (reads WalletError (be_armor b i1)) (\<lambda>armor.
              ret \<lparr>iss_slate_id = be_id b i1, iss_i1_armor = armor\<rparr>))"

definition finalize_invoice_slatepack ::
  "string \<Rightarrow> ('w, 's, 'v, 'n) backend \<Rightarrow> string \<Rightarrow> ('w, finalized_invoice) wop" where
  "finalize_invoice_slatepack url b i2_armor =
     seqw (reads (\<lambda>e. SlatepackError (''cannot read invoice slatepack: '' @ e)) (be_read b (trim i2_armor))) (\<lambda>i2.
       if be_state b i2 \<noteq> Invoice2
       then fail (SlatepackError (''expected an I2 (invoice return) slatepack, got '' @ be_state_dbg b (be_state b i2)))
       else seqw (upstream WalletError (be_finalize b i2)) (\<lambda>tx.
            seqw (given (case be_open_client b of
                           Inl e \<Rightarrow> Inl (ConfigError (''bad node URL `'' @ url @ ''`: '' @ e)) | Inr u \<Rightarrow> Inr u)) (\<lambda>_.
            seqw (upstream WalletError (be_post b tx)) (\<lambda>_.
            seqw (slate_kernel_excess b (be_id b tx)) (\<lambda>excess.
              ret \<lparr>fin_slate_id = be_id b i2, fin_amount = be_amount b i2, fin_kernel_excess = excess\<rparr>)))))"

definition finalize_slate :: "('w, 's, 'v, 'n) backend \<Rightarrow> 'v \<Rightarrow> ('w, 'v \<times> finalized_invoice) wop" where
  "finalize_slate b v =
     (let slate = be_from b v in
      seqw (upstream WalletError (be_finalize_post b slate)) (\<lambda>tx.
      seqw (slate_kernel_excess b (be_id b tx)) (\<lambda>excess.
      seqw (given (case be_into b tx (be_version b v) of Inl e \<Rightarrow> Inl (WalletError e) | Inr x \<Rightarrow> Inr x)) (\<lambda>out.
        ret (out, \<lparr>fin_slate_id = be_id b slate, fin_amount = be_amount b slate, fin_kernel_excess = excess\<rparr>)))))"

definition cancel_slate :: "('w, 's, 'v, 'n) backend \<Rightarrow> string \<Rightarrow> ('w, unit) wop" where
  "cancel_slate b sid =
     seqw (given (case be_parse_uuid b sid of
                    Inl e \<Rightarrow> Inl (WalletError (''bad slate id `'' @ sid @ ''`: '' @ e)) | Inr u \<Rightarrow> Inr u)) (\<lambda>uuid.
       upstream WalletError (be_cancel b uuid))"

subsection \<open>Opening\<close>

record 'w lifecycle =
  lc_setup :: "string + unit"
  lc_exists :: "'w \<Rightarrow> string + bool"
  lc_mnemonic :: "string \<Rightarrow> 'w \<Rightarrow> string + string"
  lc_create :: "string \<Rightarrow> string \<Rightarrow> 'w \<Rightarrow> (string + unit) \<times> 'w"
  lc_open :: "string \<Rightarrow> 'w \<Rightarrow> (string + unit) \<times> 'w"

text \<open>The file system calls, the debug texts of a path and of a chain, the node client's URL check.\<close>

record host =
  create_dir_all :: "string \<Rightarrow> string + unit"
  set_mode :: "string \<Rightarrow> nat \<Rightarrow> string + unit"
  dbg_path :: "string \<Rightarrow> string"
  dbg_chain :: "chain_t \<Rightarrow> string"
  http_client :: "string \<Rightarrow> string + unit"

definition join_path :: "string \<Rightarrow> string \<Rightarrow> string" where
  "join_path d s = (if d = [] then s else if last d = CHR ''/'' then d @ s else d @ ''/'' @ s)"

definition restrict_permissions :: "host \<Rightarrow> string \<Rightarrow> nat \<Rightarrow> wallet_error + unit" where
  "restrict_permissions h path mode =
     (case set_mode h path mode of
        Inl e \<Rightarrow> Inl (ConfigError (''cannot chmod '' @ dbg_path h path @ '': '' @ e))
      | Inr u \<Rightarrow> Inr u)"

text \<open>The chain is process state (\<open>OnceLock\<close>): the first component of the state.\<close>

definition init_chain_type :: "host \<Rightarrow> chain_t \<Rightarrow> (chain_t option \<times> 'w, unit) wop" where
  "init_chain_type h ct st =
     (case fst st of
        None \<Rightarrow> (Inr (), (Some ct, snd st))
      | Some cur \<Rightarrow>
          if cur \<noteq> ct
          then (Inl (ConfigError (''chain type already initialized to '' @ dbg_chain h cur @ '', cannot switch to '' @
                   dbg_chain h ct)), st)
          else (Inr (), st))"

definition on_wallet :: "('w, 'a) wop \<Rightarrow> ('c \<times> 'w, 'a) wop" where
  "on_wallet m st = (case m (snd st) of (r, w') \<Rightarrow> (r, (fst st, w')))"

definition load_seed ::
  "host \<Rightarrow> 'w lifecycle \<Rightarrow> string \<Rightarrow> string option \<Rightarrow> string \<Rightarrow> ('w, unit) wop" where
  "load_seed h lc top_dir seed password =
     seqw (reads WalletError (lc_exists lc)) (\<lambda>present.
       if present then
         (case seed of
            None \<Rightarrow> ret ()
          | Some m \<Rightarrow> seqw (reads WalletError (lc_mnemonic lc password)) (\<lambda>existing.
              if existing \<noteq> m
              then fail (ConfigError (''data dir '' @ dbg_path h top_dir @
                     '' already holds a wallet created from a different mnemonic; refusing to open''))
              else ret ()))
       else
         (case seed of
            None \<Rightarrow> fail (ConfigError (''first-run wallet creation requires GP_MNEMONIC (or '' @
                      ''GP_MNEMONIC_FILE); none was provided and no wallet exists yet at this data dir''))
          | Some m \<Rightarrow> upstream WalletError (lc_create lc m password)))"

definition open_at ::
  "host \<Rightarrow> 'w lifecycle \<Rightarrow> string \<Rightarrow> string option \<Rightarrow> string \<Rightarrow> string \<Rightarrow> chain_t \<Rightarrow> (chain_t option \<times> 'w, unit) wop" where
  "open_at h lc dir seed password url ct =
     (let top_dir = join_path dir ''wallet''; wdata = join_path top_dir ''wallet_data'' in
      seqw (init_chain_type h ct) (\<lambda>_.
      seqw (given (case create_dir_all h top_dir of
                     Inl e \<Rightarrow> Inl (ConfigError (''cannot create '' @ dbg_path h top_dir @ '': '' @ e)) | Inr u \<Rightarrow> Inr u)) (\<lambda>_.
      seqw (given (restrict_permissions h dir 0x1C0)) (\<lambda>_.
      seqw (given (restrict_permissions h top_dir 0x1C0)) (\<lambda>_.
      seqw (given (case http_client h url of
                     Inl e \<Rightarrow> Inl (ConfigError (''bad node URL `'' @ url @ ''`: '' @ e)) | Inr u \<Rightarrow> Inr u)) (\<lambda>_.
      seqw (given (case lc_setup lc of Inl e \<Rightarrow> Inl (WalletError e) | Inr u \<Rightarrow> Inr u)) (\<lambda>_.
      seqw (on_wallet (load_seed h lc top_dir seed password)) (\<lambda>_.
      seqw (on_wallet (upstream WalletError (lc_open lc password))) (\<lambda>_.
      seqw (given (restrict_permissions h wdata 0x1C0)) (\<lambda>_.
      seqw (given (restrict_permissions h (join_path wdata ''wallet.seed'') 0x180)) (\<lambda>_.
        ret ())))))))))))"

definition open_wallet_cfg :: "host \<Rightarrow> 'w lifecycle \<Rightarrow> config \<Rightarrow> (chain_t option \<times> 'w, unit) wop" where
  "open_wallet_cfg h lc cfg =
     (case wallet_password cfg of
        None \<Rightarrow> fail (ConfigError (''GP_WALLET_PASSWORD (or GP_WALLET_PASSWORD_FILE) is required to '' @
                  ''open the wallet (it decrypts the seed at rest)''))
      | Some pw \<Rightarrow> open_at h lc (data_dir cfg) (mnemonic cfg) pw (node_url cfg) (chain cfg))"

subsection \<open>Only a standard send is received\<close>

lemma slate_kernel_excess_Inr:
  "slate_kernel_excess b sid w = (Inr k, w') \<Longrightarrow> w' = w"
  by (auto simp: slate_kernel_excess_def wop_Inr)

lemma build_proof_Inr:
  assumes "build_proof ed to_json info amount excess = Inr (Some j)"
  shows "\<exists>p. to_json p = Inr j \<and> verify_receiver_proof ed p \<and> rp_amount p = amount \<and> rp_kernel_excess p = excess"
  using assms by (auto simp: build_proof_def Let_def split: option.splits if_splits sum.splits)

lemma receive_s1_Inr:
  assumes "receive_s1 ed to_json b slate w = (Inr (s2, r), w')"
  shows "be_receive b slate w = (Inr s2, w') \<and> rcv_amount r = be_amount b slate \<and> rcv_slate_id r = be_id b s2 \<and>
    build_proof ed to_json (be_proof b s2) (be_amount b slate) (rcv_kernel_excess r) = Inr (rcv_proof r)"
  using assms by (auto simp: receive_s1_def wop_Inr dest!: slate_kernel_excess_Inr)

text \<open>C20: the wallet records a receive only for a standard send: the slatepack decoded to an S1, the
  recorded amount is the one that S1 carries, and a stored proof is one this server verified, for
  that amount and that kernel; any other slate is refused with the wallet untouched.\<close>

theorem only_s1_is_received:
  assumes "receive_slatepack ed to_json b armor w = (r, w')"
  shows "case r of
     Inr rcv \<Rightarrow> \<exists>slate. be_read b (trim armor) w = Inr slate \<and> be_state b slate = Standard1 \<and>
       rcv_amount rcv = be_amount b slate \<and>
       (case rcv_proof rcv of
          None \<Rightarrow> True
        | Some j \<Rightarrow> \<exists>p. to_json p = Inr j \<and> verify_receiver_proof ed p \<and> rp_amount p = rcv_amount rcv \<and>
            rp_kernel_excess p = rcv_kernel_excess rcv)
   | Inl _ \<Rightarrow> w' = w \<or> (\<exists>slate. be_read b (trim armor) w = Inr slate \<and> be_state b slate = Standard1)"
proof (cases r)
  case (Inl e)
  have "w' = w" if "\<nexists>slate. be_read b (trim armor) w = Inr slate \<and> be_state b slate = Standard1"
    using assms that
    by (cases "be_read b (trim armor) w") (auto simp: receive_slatepack_def seqw_def reads_def fail_def)
  with Inl show ?thesis by auto
next
  case (Inr rcv)
  then obtain slate s2 where s: "be_read b (trim armor) w = Inr slate" "be_state b slate = Standard1"
      "receive_s1 ed to_json b slate w = (Inr (s2, rcv), w')"
    using assms by (auto simp: receive_slatepack_def wop_Inr fail_def split: if_splits)
  note p = receive_s1_Inr [OF s(3)]
  have "\<exists>p. to_json p = Inr j \<and> verify_receiver_proof ed p \<and> rp_amount p = rcv_amount rcv \<and>
      rp_kernel_excess p = rcv_kernel_excess rcv" if "rcv_proof rcv = Some j" for j
    using build_proof_Inr [of ed to_json "be_proof b s2"] p that by auto
  with Inr s p show ?thesis by (auto split: option.split)
qed

text \<open>The two receive paths agree: a slate sent as JSON over the Foreign API and the same slate
  pasted as a slatepack leave the wallet in the same state and record the same payment, whenever the
  reply converts to the sender's slate version.\<close>

lemma receive_paths_agree:
  assumes "be_read b (trim armor) w = Inr (be_from b v)" "\<And>s2. \<exists>out. be_into b s2 (be_version b v) = Inr out"
  shows "snd (receive_slate ed to_json b v w) = snd (receive_slatepack ed to_json b armor w) \<and>
    (\<forall>rcv. (\<exists>out. fst (receive_slate ed to_json b v w) = Inr (out, rcv)) \<longleftrightarrow>
           fst (receive_slatepack ed to_json b armor w) = Inr rcv)"
proof (cases "be_state b (be_from b v) = Standard1")
  case False
  then show ?thesis
    using assms(1) by (auto simp: receive_slate_def receive_slatepack_def seqw_def reads_def fail_def)
next
  case True
  obtain r w1 where r: "receive_s1 ed to_json b (be_from b v) w = (r, w1)" by fastforce
  show ?thesis
  proof (cases r)
    case (Inl e)
    with r True assms(1) show ?thesis
      by (auto simp: receive_slate_def receive_slatepack_def seqw_def reads_def)
  next
    case (Inr p)
    obtain s2 rcv where "p = (s2, rcv)" by fastforce
    moreover obtain out where "be_into b s2 (be_version b v) = Inr out" using assms(2) by blast
    ultimately show ?thesis using r Inr True assms(1)
      by (auto simp: receive_slate_def receive_slatepack_def seqw_def reads_def given_def ret_def)
  qed
qed

definition sample_backend ::
  "(string list, string \<times> slate_state \<times> u64, string \<times> slate_state \<times> u64, unit) backend" where
  "sample_backend =
     \<lparr>be_id = fst, be_state = (\<lambda>s. fst (snd s)), be_amount = (\<lambda>s. snd (snd s)), be_proof = (\<lambda>_. None),
      be_state_name = (\<lambda>s. case s of Standard1 \<Rightarrow> ''S1'' | Invoice1 \<Rightarrow> ''I1'' | Invoice2 \<Rightarrow> ''I2'' | OtherState n \<Rightarrow> n),
      be_state_dbg = (\<lambda>s. case s of Standard1 \<Rightarrow> ''Standard1'' | Invoice1 \<Rightarrow> ''Invoice1''
                                   | Invoice2 \<Rightarrow> ''Invoice2'' | OtherState n \<Rightarrow> n),
      be_read = (\<lambda>s _. if s = ''s1'' then Inr (''p'', Standard1, 700)
                      else if s = ''i2'' then Inr (''sl'', Invoice2, 0) else Inl ''unreadable''),
      be_armor = (\<lambda>s _. Inr (''armor '' @ fst s)), be_excesses = (\<lambda>_ _. Inr [None, Some [1, 2]]),
      be_receive = (\<lambda>s w. (Inr s, w)),
      be_issue = (\<lambda>a w. (Inr (''sl'', Invoice1, a), ''sl'' # w)),
      be_finalize = (\<lambda>s w. if fst s \<in> set w then (Inr s, filter (\<lambda>x. x \<noteq> fst s) w) else (Inl ''no context'', w)),
      be_finalize_post = (\<lambda>s w. if fst s \<in> set w then (Inr s, filter (\<lambda>x. x \<noteq> fst s) w) else (Inl ''no context'', w)),
      be_open_client = Inr (), be_post = (\<lambda>_ w. (Inr (), w)), be_parse_uuid = Inr,
      be_cancel = (\<lambda>u w. if u \<in> set w then (Inr (), filter (\<lambda>x. x \<noteq> u) w) else (Inl ''unknown'', w)),
      be_from = (\<lambda>v. v), be_version = (\<lambda>_. ()), be_into = (\<lambda>s _. Inr s)\<rparr>"

definition sample_ed :: dalek where
  "sample_ed = \<lparr>key_from_bytes = (\<lambda>_. True), sig_from_bytes = (\<lambda>_. True), ed_verify = (\<lambda>_ _ _. True)\<rparr>"

definition no_json :: "receiver_proof \<Rightarrow> string + string" where
  "no_json p = Inr []"

lemma sample_receive:
  "receive_slatepack sample_ed no_json sample_backend '' s1 '' [] =
     (Inr \<lparr>rcv_slate_id = ''p'', rcv_amount = 700, rcv_s2_armor = ''armor p'',
           rcv_kernel_excess = ''0102'', rcv_proof = None\<rparr>, [])"
  by code_simp

theorem only_s1_is_received_witness:
  "\<exists>slate. be_read sample_backend (trim '' s1 '') [] = Inr slate \<and> be_state sample_backend slate = Standard1 \<and>
     be_amount sample_backend slate = 700"
  using only_s1_is_received [OF sample_receive] by auto

subsection \<open>A cancelled or settled slate is not finalized again\<close>

text \<open>A late payer cannot settle an expired invoice, and a replayed response cannot post twice. With
  the wallet's stored contexts behaving as grin-wallet documents (finalizing needs the slate's
  context and consumes it, cancelling removes it, posting and reading leave them), a response for a slate
  that was cancelled, or already finalized, is an error that leaves the wallet as it was.\<close>

lemma finalize_needs_live_context:
  assumes "\<And>s v. be_id b s \<notin> ctxs v \<Longrightarrow> \<exists>e. be_finalize b s v = (Inl e, v)"
    and "\<And>s v x v'. be_finalize b s v = (Inr x, v') \<Longrightarrow> ctxs v' = ctxs v - {be_id b s}"
    and "\<And>u v v'. be_cancel b u v = (Inr (), v') \<Longrightarrow> ctxs v' = ctxs v - {u}"
    and "\<And>x v. ctxs (snd (be_post b x v)) = ctxs v"
    and "be_parse_uuid b sid = Inr sid"
    and "cancel_slate b sid w = (Inr (), w') \<or>
         (\<exists>a fin. finalize_invoice_slatepack url b a w = (Inr fin, w') \<and> fin_slate_id fin = sid)"
    and "be_read b (trim armor) w' = Inr i2" "be_id b i2 = sid"
  shows "\<exists>e. finalize_invoice_slatepack url b armor w' = (Inl e, w')"
proof -
  have "sid \<notin> ctxs w'" using assms(6)
  proof
    assume "cancel_slate b sid w = (Inr (), w')"
    then show ?thesis using assms(3,5) by (auto simp: cancel_slate_def wop_Inr)
  next
    assume "\<exists>a fin. finalize_invoice_slatepack url b a w = (Inr fin, w') \<and> fin_slate_id fin = sid"
    then obtain a fin where f: "finalize_invoice_slatepack url b a w = (Inr fin, w')" "fin_slate_id fin = sid" by blast
    then obtain i2 tx w1 where "be_finalize b i2 w = (Inr tx, w1)" "be_post b tx w1 = (Inr (), w')" "be_id b i2 = sid"
      by (auto simp: finalize_invoice_slatepack_def wop_Inr fail_def split: if_splits dest!: slate_kernel_excess_Inr)
    then show ?thesis using assms(2) assms(4) [of tx w1] by auto
  qed
  then obtain e where "be_finalize b i2 w' = (Inl e, w')" using assms(1,8) by blast
  then show ?thesis using assms(7)
    by (auto simp: finalize_invoice_slatepack_def seqw_def reads_def upstream_def fail_def)
qed

subsection \<open>The seed is written once\<close>

lemma on_wallet_Inr: "on_wallet m st = (Inr x, st') \<longleftrightarrow> m (snd st) = (Inr x, snd st') \<and> fst st' = fst st"
  by (cases st') (auto simp: on_wallet_def split: prod.splits)

lemma init_chain_wallet: "init_chain_type h ct st = (r, st') \<Longrightarrow> snd st' = snd st"
  by (auto simp: init_chain_type_def split: option.splits if_splits)

lemma load_seed_present:
  assumes "lc_exists lc w = Inr True" "load_seed h lc d seed pw w = (r, w')"
  shows "w' = w \<and> (r = Inr () \<longrightarrow> (case seed of None \<Rightarrow> True | Some m \<Rightarrow> lc_mnemonic lc pw w = Inr m))"
  using assms
  by (auto simp: load_seed_def seqw_def reads_def ret_def fail_def split: option.splits sum.splits if_splits)

lemma load_seed_absent:
  assumes "lc_exists lc w = Inr False"
  shows "load_seed h lc d seed pw w =
     (case seed of
        None \<Rightarrow> (Inl (ConfigError (''first-run wallet creation requires GP_MNEMONIC (or '' @
                  ''GP_MNEMONIC_FILE); none was provided and no wallet exists yet at this data dir'')), w)
      | Some m \<Rightarrow> upstream WalletError (lc_create lc m pw) w)"
  using assms by (auto simp: load_seed_def seqw_def reads_def ret_def fail_def split: option.splits)

lemma present_wallet_kept:
  assumes "lc_exists lc w = Inr True"
  shows "snd (snd (open_at h lc dir seed pw url ct (g, w))) \<in> {w, snd (lc_open lc pw w)}"
proof -
  define ok where "ok st \<longleftrightarrow> snd st \<in> {w, snd (lc_open lc pw w)}" for st :: "chain_t option \<times> 'a"
  have at: "ok st" if "snd st = w" for st using that by (simp add: ok_def)
  have keep: "ok (snd (seqw (given r) k st))" if "ok st" "\<And>x. ok (snd (k x st))"
    for r :: "wallet_error + unit" and k :: "unit \<Rightarrow> (chain_t option \<times> 'a, unit) wop" and st
    using that by (cases r) (simp_all add: seqw_def given_def)
  have start: "ok (snd (seqw (init_chain_type h ct) k st))"
    if "snd st = w" "\<And>x st'. snd st' = w \<Longrightarrow> ok (snd (k x st'))"
    for k :: "unit \<Rightarrow> (chain_t option \<times> 'a, unit) wop" and st
    using that init_chain_wallet [of h ct st] at by (auto simp: seqw_def split: prod.splits sum.splits)
  have load: "ok (snd (seqw (on_wallet (load_seed h lc d seed pw)) k st))"
    if "snd st = w" "\<And>x st'. snd st' = w \<Longrightarrow> ok (snd (k x st'))"
    for d and k :: "unit \<Rightarrow> (chain_t option \<times> 'a, unit) wop" and st
    using that load_seed_present [OF assms, of h d seed pw] at
    by (auto simp: seqw_def on_wallet_def split: prod.splits sum.splits)
  have unlock: "ok (snd (seqw (on_wallet (upstream WalletError (lc_open lc pw))) k st))"
    if "snd st = w" "\<And>x st'. ok st' \<Longrightarrow> ok (snd (k x st'))"
    for k :: "unit \<Rightarrow> (chain_t option \<times> 'a, unit) wop" and st
  proof (cases "lc_open lc pw w")
    case (Pair r w')
    then have "ok (fst st, w')" by (simp add: ok_def)
    with that Pair show ?thesis
      by (cases r) (simp_all add: seqw_def on_wallet_def upstream_def)
  qed
  have "ok (snd (open_at h lc dir seed pw url ct (g, w)))"
    unfolding open_at_def Let_def
    by (rule start, simp, (rule keep, erule at)+, rule load, assumption, rule unlock, assumption,
        (rule keep, assumption)+, simp add: ret_def)
  then show ?thesis by (simp add: ok_def)
qed

text \<open>The seed is created once and never overwritten. On a data directory that holds a wallet,
  opening creates nothing and succeeds only when no mnemonic is supplied or the supplied one is the
  one at rest; on an empty one it succeeds only by creating from a supplied mnemonic. A failed opening of an
  existing wallet has at most unlocked it.\<close>

lemma seed_written_once:
  assumes "open_at h lc dir seed pw url ct (g, w) = (r, st')"
  shows "(lc_exists lc w = Inr True \<longrightarrow> snd st' \<in> {w, snd (lc_open lc pw w)}) \<and> (r = Inr () \<longrightarrow>
         (lc_exists lc w = Inr True \<and> lc_open lc pw w = (Inr (), snd st') \<and>
            (seed = None \<or> lc_mnemonic lc pw w = Inr (the seed))) \<or>
         (lc_exists lc w = Inr False \<and>
            (\<exists>m w1. seed = Some m \<and> lc_create lc m pw w = (Inr (), w1) \<and> lc_open lc pw w1 = (Inr (), snd st'))))"
proof (intro conjI impI)
  assume "lc_exists lc w = Inr True"
  from present_wallet_kept [OF this, of h dir seed pw url ct g] assms
  show "snd st' \<in> {w, snd (lc_open lc pw w)}" by simp
next
  assume "r = Inr ()"
  with assms have opened: "open_at h lc dir seed pw url ct (g, w) = (Inr (), st')" by simp
  obtain g1 w1 where l: "load_seed h lc (join_path dir ''wallet'') seed pw w = (Inr (), w1)"
      "lc_open lc pw w1 = (Inr (), snd st')"
    using opened unfolding open_at_def Let_def wop_Inr
    by (auto simp: on_wallet_Inr upstream_Inr dest!: init_chain_wallet)
  have "\<exists>b. lc_exists lc w = Inr b" using l(1)
    by (auto simp: load_seed_def seqw_def reads_def split: sum.splits)
  then consider "lc_exists lc w = Inr True" | "lc_exists lc w = Inr False" by (metis (full_types))
  then show "(lc_exists lc w = Inr True \<and> lc_open lc pw w = (Inr (), snd st') \<and>
            (seed = None \<or> lc_mnemonic lc pw w = Inr (the seed))) \<or>
         (lc_exists lc w = Inr False \<and>
            (\<exists>m w1. seed = Some m \<and> lc_create lc m pw w = (Inr (), w1) \<and> lc_open lc pw w1 = (Inr (), snd st')))"
  proof cases
    case 1
    with load_seed_present [OF 1 l(1)] l(2) show ?thesis by (auto split: option.splits)
  next
    case 2
    with l show ?thesis unfolding load_seed_absent [OF 2]
      by (auto simp: upstream_Inr split: option.splits)
  qed
qed

definition sample_host :: host where
  "sample_host =
     \<lparr>create_dir_all = (\<lambda>_. Inr ()), set_mode = (\<lambda>_ _. Inr ()), dbg_path = (\<lambda>p. p),
      dbg_chain = (\<lambda>c. case c of Mainnet \<Rightarrow> ''Mainnet'' | Testnet \<Rightarrow> ''Testnet''), http_client = (\<lambda>_. Inr ())\<rparr>"

definition sample_lifecycle :: "string option lifecycle" where
  "sample_lifecycle =
     \<lparr>lc_setup = Inr (), lc_exists = (\<lambda>w. Inr (w \<noteq> None)),
      lc_mnemonic = (\<lambda>_ w. case w of None \<Rightarrow> Inl ''none'' | Some m \<Rightarrow> Inr m),
      lc_create = (\<lambda>m _ _. (Inr (), Some m)), lc_open = (\<lambda>_ w. (Inr (), w))\<rparr>"

lemma sample_refused:
  "open_at sample_host sample_lifecycle ''d'' (Some ''other'') ''pw'' ''u'' Mainnet (None, Some ''seed'') =
     (Inl (ConfigError ''data dir d/wallet already holds a wallet created from a different mnemonic; refusing to open''),
      (Some Mainnet, Some ''seed''))"
  by code_simp

subsection \<open>What a proof signs\<close>

lemma to_be_bytes_inj:
  assumes "to_be_bytes a = to_be_bytes b"
  shows "a = b"
proof (rule bit_word_eqI)
  fix n assume "n < LENGTH(64)"
  then have n: "n < 64" by simp
  let ?byte = "\<lambda>w i. (ucast (drop_bit (8 * i) (w :: u64)) :: u8)"
  have "?byte a 0 = ?byte b 0 \<and> ?byte a 1 = ?byte b 1 \<and> ?byte a 2 = ?byte b 2 \<and> ?byte a 3 = ?byte b 3 \<and>
      ?byte a 4 = ?byte b 4 \<and> ?byte a 5 = ?byte b 5 \<and> ?byte a 6 = ?byte b 6 \<and> ?byte a 7 = ?byte b 7"
    using assms by (simp add: to_be_bytes_def)
  moreover have "n div 8 \<in> {0, 1, 2, 3, 4, 5, 6, 7}" using n by auto
  ultimately have "?byte a (n div 8) = ?byte b (n div 8)" by auto
  then have "bit (?byte a (n div 8)) (n mod 8) \<longleftrightarrow> bit (?byte b (n div 8)) (n mod 8)" by simp
  then show "bit a n \<longleftrightarrow> bit b n" by (simp add: bit_ucast_iff bit_drop_bit_eq)
qed

lemma trim_hex_encode: "trim (hex_encode bs) = hex_encode bs"
proof (cases bs)
  case Nil
  then show ?thesis by (simp add: hex_encode_def trim_id)
next
  case (Cons b bs')
  have "list_all (\<lambda>c. of_char c < (128 :: nat) \<and> \<not> ws1 c) (hex_encode xs)" for xs :: bytes
  proof (induction xs)
    case Nil
    then show ?case by (simp add: hex_encode_def)
  next
    case (Cons x xs)
    have "unat x div 16 < 16" "unat x mod 16 < 16" using unat_u8 [of x] by auto
    with Cons hex_digit_plain show ?case by (simp add: hex_encode_def hex_byte_def)
  qed
  moreover have "hex_encode bs \<noteq> []" using Cons by (simp add: hex_encode_def hex_byte_def)
  ultimately have "trim (hex_encode bs @ []) = hex_encode bs @ trim_end []" by (rule trim_solid)
  then show ?thesis by (simp add: trim_end_id)
qed

lemma decode_fixed_encode: "length bs = n \<Longrightarrow> decode_fixed n (hex_encode bs) = Some bs"
  by (simp add: decode_fixed_def trim_hex_encode length_hex_encode decode_hex_encode Let_def)



end
