(* ===== verification/Receiver.thy ===== *)
theory Receiver
  imports Ingest Wallet
begin

text \<open>
  \<open>crates/gp-server/src/ingest.rs\<close>: the \<open>SlatepackReceiver\<close> the server plugs into the Nostr
  pipeline, over the wallet and the payment table. The state is the pair of both.
\<close>

subsection \<open>Operations\<close>

record wallet_receiver =
  wr_default_mode :: match_mode_t
  wr_webhook :: "(string \<times> string) option"

definition receiver_new :: wallet_receiver where
  "receiver_new = \<lparr>wr_default_mode = MemoMode, wr_webhook = None\<rparr>"

definition receiver_with_matching :: "match_mode_t \<Rightarrow> string option \<Rightarrow> string option \<Rightarrow> wallet_receiver" where
  "receiver_with_matching mode url sec =
     \<lparr>wr_default_mode = mode,
      wr_webhook = (case (url, sec) of (Some u, Some s) \<Rightarrow> Some (u, s) | _ \<Rightarrow> None)\<rparr>"

definition receive_error_of :: "wallet_error \<Rightarrow> receive_error" where
  "receive_error_of e =
     (case e of
        SlatepackError m \<Rightarrow> RejectedSlate m
      | WalletError m \<Rightarrow> if contains ''already been received'' m then DuplicateSlate else FailedReceive (show_wallet_error e)
      | ConfigError m \<Rightarrow> FailedReceive (show_wallet_error e))"

definition mismatch_text :: "amount_mismatch \<Rightarrow> string" where
  "mismatch_text m = ''payment pays '' @ show_nat (unat (am_received m)) @
     '' nanogrin but the invoice expects exactly '' @ show_nat (unat (am_expected m)) @ '' nanogrin''"

definition wallet_receive ::
  "(webhook_payload \<Rightarrow> 'b) \<Rightarrow> dalek \<Rightarrow> (receiver_proof \<Rightarrow> string + string) \<Rightarrow> ('w, 's, 'v, 'n) backend
   \<Rightarrow> wallet_receiver \<Rightarrow> string \<Rightarrow> int \<Rightarrow> string \<Rightarrow> incoming_context \<Rightarrow> 'w \<times> 'b db
   \<Rightarrow> (receive_error + received_payment) \<times> 'w \<times> 'b db" where
  "wallet_receive to_body ed to_json b wr rid now s1 ctx st =
     (case receive_slatepack ed to_json b s1 (fst st) of
        (Inl e, w') \<Rightarrow> (Inl (receive_error_of e), w', snd st)
      | (Inr rcv, w') \<Rightarrow>
          (case persist_and_match to_body rid now rcv (Some (ic_payer_hex ctx)) (ic_recipient_hex ctx)
                  (ic_memo ctx) (wr_default_mode wr) (wr_webhook wr) (snd st) of
             (Rejected m, d') \<Rightarrow> (Inl (RejectedSlate (mismatch_text m)), w', d')
           | (Matched _, d') \<Rightarrow>
               (Inr \<lparr>rp_slate_id = rcv_slate_id rcv, rp_amount = rcv_amount rcv, rp_s2_armor = rcv_s2_armor rcv\<rparr>,
                w', d')))"

text \<open>\<open>UPDATE payment SET status = 'replied' WHERE slate_id = ?1\<close>, whatever the status was.\<close>

definition mark_replied :: "string \<Rightarrow> 'b db \<Rightarrow> 'b db" where
  "mark_replied sid d =
     d\<lparr>payments := update_where (\<lambda>p. pay_slate_id p = Some sid) (\<lambda>p. p\<lparr>pay_status := ''replied''\<rparr>) (payments d)\<rparr>"

definition unreplied_row :: "payment \<Rightarrow> unreplied_payment option" where
  "unreplied_row p =
     (case (pay_slate_id p, payer p, Db.s2_armor p) of
        (Some sid, Some ph, Some a) \<Rightarrow>
          if pay_status p = ''received''
          then Some \<lparr>up_slate_id = sid, up_payer_hex = ph, up_s2_armor = a,
                     up_recipient_hex = (case recipient p of Some r \<Rightarrow> r | None \<Rightarrow> [])\<rparr>
          else None
      | _ \<Rightarrow> None)"

definition unreplied :: "'b db \<Rightarrow> unreplied_payment list" where
  "unreplied d = List.map_filter unreplied_row (payments d)"

subsection \<open>The seam's contract\<close>

text \<open>
  What the pipeline relies on. \<open>ok\<close> is the provider's invariant and \<open>fresh\<close> says that a
  slatepack carries a slate this server has not recorded (grin-wallet refuses a slate it has
  already received): a successful receive leaves its reply pending, a refused one leaves the
  pending replies alone, and none is forgotten before it is marked as dispatched.
\<close>

locale slatepack_receiver =
  fixes receive :: "string \<Rightarrow> incoming_context \<Rightarrow> 'r \<Rightarrow> (receive_error + received_payment) \<times> 'r"
    and pending :: "'r \<Rightarrow> unreplied_payment list"
    and replied :: "string \<Rightarrow> 'r \<Rightarrow> 'r"
    and ok :: "'r \<Rightarrow> bool"
    and fresh :: "string \<Rightarrow> 'r \<Rightarrow> bool"
  assumes receive_pending: "ok st \<Longrightarrow> fresh a st \<Longrightarrow> receive a c st = (Inr p, st') \<Longrightarrow>
      pending st' = pending st @ [\<lparr>up_slate_id = rp_slate_id p, up_payer_hex = ic_payer_hex c,
                                   up_s2_armor = rp_s2_armor p, up_recipient_hex = ic_recipient_hex c\<rparr>]"
    and refused_pending: "ok st \<Longrightarrow> fresh a st \<Longrightarrow> receive a c st = (Inl e, st') \<Longrightarrow> pending st' = pending st"
    and receive_ok: "ok st \<Longrightarrow> ok (snd (receive a c st))"
    and replied_ok: "ok st \<Longrightarrow> ok (replied sid st)"
    and replied_pending: "pending (replied sid st) = filter (\<lambda>u. up_slate_id u \<noteq> sid) (pending st)"
begin

lemma rumor_step:
  assumes "ie_receive env = receive" "ok (rx s)"
    and "\<And>a. extract_slatepack (rm_content (uw_rumor u)) = Some a \<Longrightarrow> fresh a (rx s)"
    and "handle_rumor env now wid key u s = (out, s')"
  shows "case out of
     ReceivedWrap sid amt rep \<Rightarrow>
       \<exists>a. pending (rx s') = pending (rx s) @ [\<lparr>up_slate_id = sid, up_payer_hex = rep_payer rep,
              up_s2_armor = a, up_recipient_hex = ie_pub_hex env (rep_from rep)\<rparr>] \<and>
           rep = build_reply (rep_from rep) (rep_payer rep) a
   | _ \<Rightarrow> pending (rx s') = pending (rx s)"
proof (cases "extract_slatepack (rm_content (uw_rumor u))")
  case None
  with assms(4) show ?thesis
    by (auto simp: handle_rumor_def Let_def decide_def mark_def split: if_splits)
next
  case (Some a)
  note fresh = assms(3) [OF Some]
  show ?thesis
    using assms(1,4) Some receive_pending [OF assms(2) fresh] refused_pending [OF assms(2) fresh]
    by (auto simp: handle_rumor_def Let_def mark_def build_reply_def
        split: ingest_decision.splits prod.splits bool.splits sum.splits receive_error.splits)
qed

end

subsection \<open>The wallet receiver honours it\<close>

lemma unreplied_cong: "payments d' = payments d \<Longrightarrow> unreplied d' = unreplied d"
  by (simp add: unreplied_def)

lemma unreplied_snoc:
  "payments d' = payments d @ [p] \<Longrightarrow>
     unreplied d' = unreplied d @ (case unreplied_row p of None \<Rightarrow> [] | Some u \<Rightarrow> [u])"
  by (simp add: unreplied_def List.map_filter_def split: option.split)

lemma unreplied_replied:
  "unreplied (mark_replied sid d) = filter (\<lambda>u. up_slate_id u \<noteq> sid) (unreplied d)"
proof -
  have row: "unreplied_row (p\<lparr>pay_status := ''replied''\<rparr>) = None" for p
    by (simp add: unreplied_row_def split: option.split)
  have own: "unreplied_row p = Some u \<Longrightarrow> pay_slate_id p = Some (up_slate_id u)" for p u
    by (auto simp: unreplied_row_def split: option.splits if_splits)
  have "List.map_filter unreplied_row (update_where (\<lambda>p. pay_slate_id p = Some sid) (\<lambda>p. p\<lparr>pay_status := ''replied''\<rparr>) ps) =
      filter (\<lambda>u. up_slate_id u \<noteq> sid) (List.map_filter unreplied_row ps)" for ps
  proof (induction ps)
    case Nil
    show ?case by (simp add: List.map_filter_def update_where_def)
  next
    case (Cons p ps)
    show ?case
    proof (cases "unreplied_row p")
      case None
      with Cons row show ?thesis by (simp add: List.map_filter_simps update_where_def)
    next
      case (Some u)
      from own [OF this] Some Cons row show ?thesis by (simp add: List.map_filter_simps update_where_def)
    qed
  qed
  then show ?thesis by (simp add: unreplied_def mark_replied_def)
qed

definition fresh_slate ::
  "dalek \<Rightarrow> (receiver_proof \<Rightarrow> string + string) \<Rightarrow> ('w, 's, 'v, 'n) backend \<Rightarrow> string \<Rightarrow> 'w \<times> 'b db \<Rightarrow> bool" where
  "fresh_slate ed to_json b a st \<longleftrightarrow>
     (case fst (receive_slatepack ed to_json b a (fst st)) of
        Inr rcv \<Rightarrow> rcv_slate_id rcv \<notin> pay_id ` set (payments (snd st))
      | Inl _ \<Rightarrow> True)"

definition receiver_ok :: "'w \<times> 'b db \<Rightarrow> bool" where
  "receiver_ok st \<longleftrightarrow> book_wf (invoices (snd st))"

lemma wallet_receive_Inr:
  assumes "receiver_ok st" "fresh_slate ed to_json b a st"
    and "wallet_receive to_body ed to_json b wr rid now a c st = (Inr p, st')"
  shows "unreplied (snd st') = unreplied (snd st) @ [\<lparr>up_slate_id = rp_slate_id p, up_payer_hex = ic_payer_hex c,
           up_s2_armor = rp_s2_armor p, up_recipient_hex = ic_recipient_hex c\<rparr>]"
proof -
  obtain rcv w' m d' where r: "receive_slatepack ed to_json b a (fst st) = (Inr rcv, w')"
      "persist_and_match to_body rid now rcv (Some (ic_payer_hex c)) (ic_recipient_hex c) (ic_memo c)
         (wr_default_mode wr) (wr_webhook wr) (snd st) = (Matched m, d')"
      "p = \<lparr>rp_slate_id = rcv_slate_id rcv, rp_amount = rcv_amount rcv, rp_s2_armor = rcv_s2_armor rcv\<rparr>"
      "st' = (w', d')"
    using assms(3) by (auto simp: wallet_receive_def split: prod.splits sum.splits persist_outcome.splits)
  have "distinct (map inv_id (invoices (snd st)))" using assms(1) by (simp add: receiver_ok_def book_wf_def)
  moreover have "rcv_slate_id rcv \<notin> pay_id ` set (payments (snd st))"
    using assms(2) r(1) by (simp add: fresh_slate_def)
  ultimately have "payments d' = payments (snd st) @
      [linked_row now rcv (Some (ic_payer_hex c)) (ic_recipient_hex c) m]"
    using accepted_recorded [OF _ _ r(2)] by blast
  from unreplied_snoc [OF this] r show ?thesis
    by (simp add: unreplied_row_def linked_row_def received_row_def)
qed

lemma wallet_receive_Inl:
  assumes "receiver_ok st" "fresh_slate ed to_json b a st"
    and "wallet_receive to_body ed to_json b wr rid now a c st = (Inl e, st')"
  shows "snd st' = snd st"
proof (cases "receive_slatepack ed to_json b a (fst st)")
  case (Pair r w')
  show ?thesis
  proof (cases r)
    case (Inl x)
    with Pair assms(3) show ?thesis by (auto simp: wallet_receive_def)
  next
    case (Inr rcv)
    then obtain m d' where p: "persist_and_match to_body rid now rcv (Some (ic_payer_hex c)) (ic_recipient_hex c)
        (ic_memo c) (wr_default_mode wr) (wr_webhook wr) (snd st) = (Rejected m, d')" "st' = (w', d')"
      using Pair assms(3) by (auto simp: wallet_receive_def split: prod.splits persist_outcome.splits)
    have "distinct (map inv_id (invoices (snd st)))" using assms(1) by (simp add: receiver_ok_def book_wf_def)
    moreover have "rcv_slate_id rcv \<notin> pay_id ` set (payments (snd st))"
      using assms(2) Pair Inr by (simp add: fresh_slate_def)
    ultimately show ?thesis using rejected_no_trace [OF _ _ p(1)] p(2) by simp
  qed
qed

lemma wallet_receive_ok:
  assumes "receiver_ok st"
  shows "receiver_ok (snd (wallet_receive to_body ed to_json b wr rid now a c st))"
proof -
  have "good_step (snd st) (snd (persist_and_match to_body rid now rcv ph rcpt m dflt hook (snd st)))"
    for rcv ph rcpt m dflt hook by (rule good_step_persist)
  then show ?thesis
    using assms
    by (auto simp: wallet_receive_def receiver_ok_def good_step_def split: prod.splits sum.splits persist_outcome.splits)
      (metis snd_conv)+
qed

interpretation till: slatepack_receiver "wallet_receive to_body ed to_json b wr rid now" "\<lambda>st. unreplied (snd st)"
    "\<lambda>sid st. (fst st, mark_replied sid (snd st))" receiver_ok "fresh_slate ed to_json b"
  for to_body :: "webhook_payload \<Rightarrow> 'b" and ed to_json and b :: "('w, 's, 'v, 'n) backend" and wr rid now
proof unfold_locales
  fix st st' :: "'w \<times> 'b db" and a c p
  assume "receiver_ok st" "fresh_slate ed to_json b a st"
    "wallet_receive to_body ed to_json b wr rid now a c st = (Inr p, st')"
  then show "unreplied (snd st') = unreplied (snd st) @ [\<lparr>up_slate_id = rp_slate_id p, up_payer_hex = ic_payer_hex c,
           up_s2_armor = rp_s2_armor p, up_recipient_hex = ic_recipient_hex c\<rparr>]"
    by (rule wallet_receive_Inr)
next
  fix st st' :: "'w \<times> 'b db" and a c e
  assume "receiver_ok st" "fresh_slate ed to_json b a st"
    "wallet_receive to_body ed to_json b wr rid now a c st = (Inl e, st')"
  then have "snd st' = snd st" by (rule wallet_receive_Inl)
  then show "unreplied (snd st') = unreplied (snd st)" by simp
next
  fix st :: "'w \<times> 'b db" and a c
  assume "receiver_ok st"
  then show "receiver_ok (snd (wallet_receive to_body ed to_json b wr rid now a c st))" by (rule wallet_receive_ok)
qed (simp_all add: receiver_ok_def mark_replied_def unreplied_replied [unfolded mark_replied_def])


definition sample_till :: "(string, string list \<times> string db) ingest_env" where
  "sample_till =
     \<lparr>ie_master_hex = ie_master_hex sample_ingest, ie_resolve = ie_resolve sample_ingest,
      ie_pub_hex = ie_pub_hex sample_ingest, ie_unwrap = ie_unwrap sample_ingest, ie_event_id = ie_event_id sample_ingest,
      ie_receive = wallet_receive event_id sample_ed no_json
        (sample_backend\<lparr>be_read := \<lambda>_ _. Inr (''p'', Standard1, 700)\<rparr>) receiver_new ''e1'' 9\<rparr>"

lemma sample_till_receive:
  "\<exists>st'. wallet_receive event_id sample_ed no_json (sample_backend\<lparr>be_read := \<lambda>_ _. Inr (''p'', Standard1, 700)\<rparr>)
      receiver_new ''e1'' 9 a \<lparr>ic_payer_hex = ''alice'', ic_recipient_hex = ''m'', ic_memo = None\<rparr> ([], empty_db) =
      (Inr \<lparr>rp_slate_id = ''p'', rp_amount = 700, rp_s2_armor = ''armor p''\<rparr>, st')"
proof -
  have "receive_slatepack sample_ed no_json (sample_backend\<lparr>be_read := \<lambda>_ _. Inr (''p'', Standard1, 700)\<rparr>) a [] =
     (Inr \<lparr>rcv_slate_id = ''p'', rcv_amount = 700, rcv_s2_armor = ''armor p'',
           rcv_kernel_excess = ''0102'', rcv_proof = None\<rparr>, [])"
    by code_simp
  moreover have "\<exists>m d. persist_and_match event_id ''e1'' 9 \<lparr>rcv_slate_id = ''p'', rcv_amount = 700, rcv_s2_armor = ''armor p'',
           rcv_kernel_excess = ''0102'', rcv_proof = None\<rparr> (Some ''alice'') ''m'' None MemoMode None empty_db = (Matched m, d)"
    by (simp add: persist_and_match_def insert_payment_def empty_db_def match_payment_def resolve_def resolve_derived_def
        resolve_memo_def resolve_amount_def oldest_def Let_def)
  ultimately show ?thesis by (auto simp: wallet_receive_def receiver_new_def)
qed


end
