(* ===== verification/Setup.thy ===== *)
theory Setup
  imports Config Webhook
begin

text \<open>
  \<open>crates/gp-core/src/setup.rs\<close>, the pure half of the \<open>gp-server setup\<close> wizard (answers,
  secrets, rendered files), and the two decisions \<open>crates/gp-server/src/setup.rs\<close> takes on
  its outputs: whether a bare start offers the wizard, and booting from the file it wrote.
  \<open>lower\<close> is Unicode lowercasing; the bytes of the CSPRNG are an argument of the generators.
\<close>

subsection \<open>Constants\<close>

definition CURATED_NODES :: "string list" where
  "CURATED_NODES = [''https://main.gri.mw'', ''https://api.grin.money'', ''https://grincoin.org'']"

definition DEFAULT_RELAYS :: "string list" where
  "DEFAULT_RELAYS = [''wss://relay.floonet.dev'', ''wss://offchain.pub'']"

definition DEFAULT_CURRENCY :: string where "DEFAULT_CURRENCY = ''usd''"
definition WEBHOOK_PATH :: string where "WEBHOOK_PATH = ''/wp-json/goblinpay/v1/webhook''"
definition DEFAULT_ENV_FILE :: string where "DEFAULT_ENV_FILE = ''/etc/goblinpay.env''"
definition RUNTIME_WALLET_PASSWORD_FILE :: string where
  "RUNTIME_WALLET_PASSWORD_FILE = ''/run/goblinpay/wallet_password''"
definition ENCRYPTED_WALLET_PASSWORD_FILE :: string where
  "ENCRYPTED_WALLET_PASSWORD_FILE = ''/etc/goblinpay/secrets/wallet_password.cred''"
definition CREDENTIALS_WALLET_PASSWORD_PATH :: string where
  "CREDENTIALS_WALLET_PASSWORD_PATH = ''/run/credentials/gp-server.service/gp_wallet_password''"

subsection \<open>Generated secrets\<close>

definition random_hex :: "nat \<Rightarrow> u8 list \<Rightarrow> string" where
  "random_hex n bs = concat (map hex_byte (take n bs))"

definition prefixed_secret :: "string \<Rightarrow> u8 list \<Rightarrow> string" where
  "prefixed_secret prefix bs = prefix @ random_hex 16 bs"

definition gen_api_token :: "u8 list \<Rightarrow> string" where
  "gen_api_token bs = prefixed_secret ''gp_live_'' bs"

definition gen_admin_token :: "u8 list \<Rightarrow> string" where
  "gen_admin_token bs = prefixed_secret ''gpadm_'' bs"

definition gen_webhook_secret :: "u8 list \<Rightarrow> string" where
  "gen_webhook_secret bs = prefixed_secret ''whsec_'' bs"

subsection \<open>Answers\<close>

definition validate_password :: "string \<Rightarrow> string + unit" where
  "validate_password pw = (if pw = [] then Inl ''password must not be empty'' else Inr ())"

definition passwords_match :: "string \<Rightarrow> string \<Rightarrow> bool" where
  "passwords_match first second \<longleftrightarrow> first = second"

datatype restart_mode = Unattended | Manual

definition restart_mode_str :: "restart_mode \<Rightarrow> string" where
  "restart_mode_str m = (case m of Unattended \<Rightarrow> ''unattended'' | Manual \<Rightarrow> ''manual'')"

definition parse_restart_mode_default ::
  "(string \<Rightarrow> string) \<Rightarrow> string \<Rightarrow> restart_mode \<Rightarrow> restart_mode" where
  "parse_restart_mode_default lower input dflt =
     (let a = lower (trim input) in
      if a \<in> {''1'', ''u'', ''unattended''} then Unattended
      else if a \<in> {''2'', ''m'', ''manual''} then Manual
      else dflt)"

definition parse_restart_mode :: "(string \<Rightarrow> string) \<Rightarrow> string \<Rightarrow> restart_mode" where
  "parse_restart_mode lower input = parse_restart_mode_default lower input Unattended"

definition parse_ack :: "(string \<Rightarrow> string) \<Rightarrow> string \<Rightarrow> bool" where
  "parse_ack lower input \<longleftrightarrow> lower (trim input) \<in> {''y'', ''yes''}"

definition parse_yes_no :: "(string \<Rightarrow> string) \<Rightarrow> string \<Rightarrow> bool \<Rightarrow> bool" where
  "parse_yes_no lower input dflt =
     (let a = lower (trim input) in
      if a = [] then dflt
      else if a \<in> {''y'', ''yes''} then True
      else if a \<in> {''n'', ''no''} then False
      else dflt)"

definition normalize_url :: "string \<Rightarrow> string + string" where
  "normalize_url input =
     (let t = trim_end_matches (CHR ''/'') (trim input) in
      if t = [] then Inl ''a URL is required''
      else if \<not> starts_with ''http://'' t \<and> \<not> starts_with ''https://'' t
      then Inl (''URL must start with http:// or https:// (got `'' @ t @ ''`)'')
      else Inr t)"

definition webhook_url_from_shop :: "string \<Rightarrow> string + string" where
  "webhook_url_from_shop shop = and_then (normalize_url shop) (\<lambda>u. Inr (u @ WEBHOOK_PATH))"

definition base_path :: "string \<Rightarrow> string" where
  "base_path url =
     (let after_scheme = (case split_once ''://'' url of Some (_, rest) \<Rightarrow> rest | None \<Rightarrow> url) in
      case find_sub ''/'' after_scheme of
        Some i \<Rightarrow> trim_end_matches (CHR ''/'') (drop i after_scheme)
      | None \<Rightarrow> [])"

definition normalize_bind :: "string \<Rightarrow> string" where
  "normalize_bind input = (let t = trim input in if t = [] then DEFAULT_BIND else t)"

definition setup_parse_currencies :: "(string \<Rightarrow> string) \<Rightarrow> string \<Rightarrow> string list" where
  "setup_parse_currencies lower input =
     (let l = filter (\<lambda>s. s \<noteq> []) (map (\<lambda>s. lower (trim s)) (split_on (CHR '','') input)) in
      if l = [] then [DEFAULT_CURRENCY] else l)"

definition select_node :: "string list \<Rightarrow> (string \<Rightarrow> bool) \<Rightarrow> string option" where
  "select_node candidates probe = find probe candidates"

subsection \<open>The env file: lines, pairs\<close>

text \<open>\<open>str::lines\<close>: split after each line feed, and drop it with a carriage return before it.\<close>

definition strip_cr :: "string \<Rightarrow> string" where
  "strip_cr l = (if l \<noteq> [] \<and> last l = CHR 0x0D then butlast l else l)"

definition str_lines :: "string \<Rightarrow> string list" where
  "str_lines s =
     (let ps = split_on (CHR 0x0A) s in
      map strip_cr (butlast ps) @ (if last ps = [] then [] else [last ps]))"

definition parse_env_line :: "string \<Rightarrow> (string \<times> string) list" where
  "parse_env_line raw =
     (let line = trim raw in
      if line = [] \<or> starts_with ''#'' line then []
      else case split_once ''='' line of
             None \<Rightarrow> []
           | Some (k, v) \<Rightarrow> if trim k = [] then [] else [(trim k, trim v)])"

definition parse_env_file :: "string \<Rightarrow> (string \<times> string) list" where
  "parse_env_file contents = concat (map parse_env_line (str_lines contents))"

subsection \<open>The rendered files\<close>

record setup_params =
  sp_bind :: string
  sp_public_url :: string
  sp_webhook_url :: string
  sp_node_url :: string
  sp_relays :: "string list"
  sp_currencies :: "string list"
  sp_grin1_rail :: bool
  sp_api_token :: string
  sp_admin_token :: string
  sp_webhook_secret :: string
  sp_data_dir :: string
  sp_db_path :: string
  sp_wallet_password_file :: string
  sp_restart_mode :: restart_mode
  sp_unattended_encrypted :: bool

definition unlines :: "string list \<Rightarrow> string" where
  "unlines ls = concat (map (\<lambda>l. l @ [CHR 0x0A]) ls)"

definition assign :: "string \<Rightarrow> string \<Rightarrow> string" where
  "assign key v = key @ CHR ''='' # v"

definition env_header :: "string list" where
  "env_header =
     [''# GoblinPay configuration, generated by `gp-server setup`.'',
      ''# Non-secret config plus bearer tokens (root-owned, mode 0640).'',
      ''# The wallet password is a separate 0400 credential file; the Grin'',
      ''# seed is NOT here (it lives encrypted at rest and in your written backup).'']"

definition password_lines :: "restart_mode \<Rightarrow> bool \<Rightarrow> string list" where
  "password_lines m encrypted =
     (case m of
        Unattended \<Rightarrow>
          if encrypted then
            [''# --- wallet password: restart mode UNATTENDED (ENCRYPTED at rest) ---'',
             ''# You chose this password; it was sealed to THIS host with'',
             ''# `systemd-creds encrypt` (see the gp-server.service.d/encrypted.conf'',
             ''# drop-in). The file on disk is CIPHERTEXT, not plaintext, so a stolen'',
             ''# or copied disk yields no wallet key; systemd decrypts it into a tmpfs'',
             ''# credentials dir at each start, so the service still auto-restarts.'',
             ''# Honest trade-off: a compromise of the RUNNING host still means wallet'',
             ''# compromise (systemd can decrypt it there), so keep the till a small hot'',
             ''# float and sweep to your own wallet regularly. The GP_WALLET_PASSWORD_FILE'',
             ''# below is the runtime (decrypted) credential path; the systemd unit sets'',
             ''# it too.'']
          else
            [''# --- wallet password: restart mode UNATTENDED (plaintext fallback) ---'',
             ''# WARNING: `systemd-creds` was not available at setup, so the chosen'',
             ''# password fell back to a root-owned 0400 PLAINTEXT file (below). It is'',
             ''# off the world-readable env file, but it is still plaintext at rest.'',
             ''# For encryption at rest, install systemd >= 250 with a host credential'',
             ''# key and re-run `gp-server setup --reconfigure`. Honest trade-off: a'',
             ''# full-machine compromise means wallet compromise; keep the till a small'',
             ''# hot float and sweep to your own wallet regularly.'']
      | Manual \<Rightarrow>
            [''# --- wallet password: restart mode MANUAL (nothing on disk) ---'',
             ''# You chose this password; it is NOT stored on disk. You re-enter it'',
             ''# after every restart, into the tmpfs credential below (see the'',
             ''# gp-server.service.d/manual.conf drop-in). Max protection against'',
             ''# disk/machine theft; the service will not auto-restart on its own.''])"

definition env_lines :: "setup_params \<Rightarrow> string list" where
  "env_lines p =
     env_header @
     [[],
      ''# --- local listen address (loopback; keep it behind your proxy) ---'',
      assign ''GP_BIND'' (sp_bind p),
      [],
      ''# --- public URL customers reach this till at ---'',
      assign ''GP_PUBLIC_URL'' (sp_public_url p),
      [],
      ''# --- relays (external vetted pool; swap for your own if you like) ---'',
      assign ''GP_RELAY_MODE'' ''external'',
      assign ''GP_RELAYS'' (join '','' (sp_relays p)),
      [],
      ''# --- Grin node (read-only: confirmations + balance), health-probed at setup ---'',
      assign ''GP_NODE_URL'' (sp_node_url p),
      [],
      ''# --- pricing ---'',
      assign ''GP_RATE_CURRENCIES'' (join '','' (sp_currencies p)),
      assign ''GP_MATCH_MODE'' ''derived'',
      [],
      ''# --- connector + admin bearer tokens (capabilities) ---'',
      assign ''GP_API_TOKEN'' (sp_api_token p),
      assign ''GP_ADMIN_TOKEN'' (sp_admin_token p),
      [],
      ''# --- webhook to your shop (HMAC-signed) ---'',
      assign ''GP_WEBHOOK_URL'' (sp_webhook_url p),
      assign ''GP_WEBHOOK_SECRET'' (sp_webhook_secret p),
      []] @
     password_lines (sp_restart_mode p) (sp_unattended_encrypted p) @
     [assign ''GP_WALLET_PASSWORD_FILE'' (sp_wallet_password_file p),
      [],
      ''# --- managed state ---'',
      assign ''GP_DATA_DIR'' (sp_data_dir p),
      assign ''GP_DB_PATH'' (sp_db_path p),
      [],
      ''# --- grin1 / Tor rail (advanced; default off) ---'',
      (if sp_grin1_rail p then ''GP_GRIN1_RAIL=on'' else ''#GP_GRIN1_RAIL=on'')]"

definition render_env :: "setup_params \<Rightarrow> string" where
  "render_env p = unlines (env_lines p)"

definition woo_paste_block :: "setup_params \<Rightarrow> string" where
  "woo_paste_block p = join [CHR 0x0A]
     [''Now finish in WooCommerce -> Settings -> Payments -> GoblinPay (Grin):'',
      [],
      ''  GoblinPay URL:   '' @ sp_public_url p,
      ''  API Token:       '' @ sp_api_token p,
      ''  Webhook Secret:  '' @ sp_webhook_secret p,
      ''  Matching mode:   Per-invoice identity (recommended)'',
      [],
      ''The plugin's Webhook Secret field shows the webhook URL to confirm; it is:'',
      ''  '' @ sp_webhook_url p,
      [],
      ''Admin dashboard token (keep private): '' @ sp_admin_token p]"

definition render_encrypted_dropin :: "string \<Rightarrow> string" where
  "render_encrypted_dropin src = unlines
     [''# GoblinPay UNATTENDED restart mode, ENCRYPTED at rest (the secure default),'',
      ''# generated by `gp-server setup`. The wallet password was sealed to THIS host'',
      ''# with `systemd-creds encrypt` (host key, plus the TPM when present), so the'',
      ''# file below is ciphertext, not plaintext: a stolen or copied disk yields no'',
      ''# wallet key. systemd decrypts it into the tmpfs credentials directory at each'',
      ''# start, so the service still auto-restarts with no human.'',
      ''#'',
      ''# Honest trade-off (unchanged): whoever fully controls this RUNNING host can'',
      ''# still have systemd decrypt the credential, so a live-machine compromise means'',
      ''# wallet compromise. Keep the till a small hot float and sweep regularly.'',
      ''[Service]'',
      ''# Reset the base unit's plaintext credential, then read the sealed one.'',
      ''LoadCredential='',
      ''LoadCredentialEncrypted='',
      ''LoadCredentialEncrypted=gp_wallet_password:'' @ src]"

definition render_manual_dropin :: "string \<Rightarrow> string" where
  "render_manual_dropin rt = unlines
     [''# GoblinPay MANUAL restart mode, generated by `gp-server setup`.'',
      ''# The wallet password is NOT stored on disk. Re-enter it after every'',
      ''# restart (and after every reboot), which populates a tmpfs credential:'',
      ''#'',
      ''#   sudo install -d -m0700 /run/goblinpay'',
      ''#   systemd-ask-password '' @ [CHR 0x22] @ ''GoblinPay wallet password:'' @ [CHR 0x22, CHR 0x20, CHR 0x5C],
      ''#     | sudo install -m0400 /dev/stdin '' @ rt,
      ''#   sudo systemctl start gp-server'',
      ''#'',
      ''# /run is tmpfs, so the password vanishes on reboot: a stolen or'',
      ''# powered-off disk holds no wallet key. The service will NOT come back'',
      ''# on its own after a restart until you re-enter the password.'',
      ''[Service]'',
      ''# Reset the base unit's persistent credential, then read the tmpfs one.'',
      ''LoadCredential='',
      ''LoadCredential=gp_wallet_password:'' @ rt]"

subsection \<open>Starting the server\<close>

text \<open>\<open>HashMap\<close> collection: a later pair replaces an earlier one of the same key.\<close>

definition config_from_written_env ::
  "(string \<Rightarrow> string) \<Rightarrow> (string \<Rightarrow> string + string) \<Rightarrow> string \<Rightarrow> string + config" where
  "config_from_written_env lower read_file path =
     (case read_file path of
        Inl e \<Rightarrow> Inl (''cannot read '' @ path @ '': '' @ e)
      | Inr contents \<Rightarrow> from_lookup lower read_file (map_of (rev (parse_env_file contents))))"

definition needs_first_run_setup :: "config \<Rightarrow> bool \<Rightarrow> bool \<Rightarrow> bool" where
  "needs_first_run_setup cfg seed_exists env_file_exists \<longleftrightarrow>
     ingest cfg \<and> mnemonic cfg = None \<and> wallet_password cfg = None \<and>
     \<not> seed_exists \<and> \<not> env_file_exists"

subsection \<open>Reading a rendered file back\<close>

definition clean_value :: "string \<Rightarrow> bool" where
  "clean_value v \<longleftrightarrow> trim v = v \<and> CHR 0x0A \<notin> set v"

definition env_key :: "string \<Rightarrow> bool" where
  "env_key k \<longleftrightarrow> k \<noteq> [] \<and> list_all (\<lambda>c. of_char c < (128 :: nat) \<and> \<not> ws1 c \<and> c \<noteq> CHR ''='' \<and> c \<noteq> CHR ''#'') k"

lemma split_on_unlines:
  "\<forall>l \<in> set ls. CHR 0x0A \<notin> set l \<Longrightarrow> split_on (CHR 0x0A) (unlines ls) = ls @ [[]]"
  by (induction ls) (simp_all add: unlines_def split_on_append)

lemma str_lines_unlines:
  "\<forall>l \<in> set ls. CHR 0x0A \<notin> set l \<Longrightarrow> str_lines (unlines ls) = map strip_cr ls"
  by (simp add: str_lines_def split_on_unlines)

lemma parse_comment [text_simps]: "parse_env_line (CHR ''#'' # s) = []"
  by (simp add: parse_env_line_def trim_Cons ws1_def starts_with_def)

lemma parse_blank [text_simps]: "parse_env_line [] = []"
  by (simp add: parse_env_line_def trim_id)

lemma parse_assign:
  assumes "env_key k" "clean_value v"
  shows "parse_env_line (assign k v) = [(k, v)]"
proof -
  have k: "list_all (\<lambda>c. of_char c < (128 :: nat) \<and> \<not> ws1 c) k" "k \<noteq> []"
    "CHR ''='' \<notin> set k" "CHR ''#'' \<notin> set k"
    using assms(1) by (auto simp: env_key_def list_all_iff)
  have v: "trim_end v = v" "trim v = v" using assms(2) trim_fixed by (auto simp: clean_value_def)
  have "trim k = k" using trim_solid [OF k(1,2), of "[]"] by (simp add: trim_end_id)
  moreover have "trim (assign k v) = assign k v"
    using trim_solid [OF k(1,2), of "CHR ''='' # v"] v by (simp add: assign_def trim_end_Cons ws1_def)
  moreover have "\<not> starts_with ''#'' (assign k v)"
    using k(2,4) by (cases k) (auto simp: starts_with_def assign_def)
  ultimately show ?thesis
    using k(2) v find_sub_char [OF k(3), of v]
    by (simp add: parse_env_line_def split_once_def assign_def)
qed

text \<open>Lines that \<open>str::lines\<close> gives back as they were written.\<close>

definition plain_line :: "string \<Rightarrow> bool" where
  "plain_line l \<longleftrightarrow> CHR 0x0A \<notin> set l \<and> (l = [] \<or> last l \<noteq> CHR 0x0D)"

lemma parse_unlines:
  assumes "list_all plain_line ls"
  shows "parse_env_file (unlines ls) = concat (map parse_env_line ls)"
proof -
  have "map strip_cr ls = ls" using assms
    by (induction ls) (auto simp: strip_cr_def plain_line_def)
  then show ?thesis using assms
    by (simp add: parse_env_file_def str_lines_unlines list_all_iff plain_line_def)
qed

lemma env_key_line: "env_key k \<Longrightarrow> CHR 0x0A \<notin> set k"
  by (auto simp: env_key_def list_all_iff ws1_def)

lemma plain_assign:
  assumes "env_key k" "clean_value v"
  shows "plain_line (assign k v)"
proof (cases "v = []")
  case True
  with env_key_line [OF assms(1)] show ?thesis by (simp add: plain_line_def assign_def)
next
  case False
  have "trim_end v = v" using assms(2) trim_fixed by (auto simp: clean_value_def)
  then have "last v \<noteq> CHR 0x0D" using trim_end_last [OF _ False] by (auto simp: ws1_def)
  with assms False env_key_line [OF assms(1)] show ?thesis
    by (simp add: plain_line_def assign_def clean_value_def)
qed

text \<open>Every answer the wizard renders is one trimmed line.\<close>

definition clean_params :: "setup_params \<Rightarrow> bool" where
  "clean_params p \<longleftrightarrow>
     list_all clean_value
       [sp_bind p, sp_public_url p, sp_webhook_url p, sp_node_url p, join '','' (sp_relays p),
        join '','' (sp_currencies p), sp_api_token p, sp_admin_token p, sp_webhook_secret p,
        sp_data_dir p, sp_db_path p, sp_wallet_password_file p]"

definition env_pairs :: "setup_params \<Rightarrow> (string \<times> string) list" where
  "env_pairs p =
     [(''GP_BIND'', sp_bind p), (''GP_PUBLIC_URL'', sp_public_url p), (''GP_RELAY_MODE'', ''external''),
      (''GP_RELAYS'', join '','' (sp_relays p)), (''GP_NODE_URL'', sp_node_url p),
      (''GP_RATE_CURRENCIES'', join '','' (sp_currencies p)), (''GP_MATCH_MODE'', ''derived''),
      (''GP_API_TOKEN'', sp_api_token p), (''GP_ADMIN_TOKEN'', sp_admin_token p),
      (''GP_WEBHOOK_URL'', sp_webhook_url p), (''GP_WEBHOOK_SECRET'', sp_webhook_secret p),
      (''GP_WALLET_PASSWORD_FILE'', sp_wallet_password_file p), (''GP_DATA_DIR'', sp_data_dir p),
      (''GP_DB_PATH'', sp_db_path p)] @
     (if sp_grin1_rail p then [(''GP_GRIN1_RAIL'', ''on'')] else [])"

lemma literal_lines_plain:
  "list_all plain_line env_header" "list_all plain_line (password_lines m e)"
proof -
  show "list_all plain_line env_header" by code_simp
  show "list_all plain_line (password_lines m e)" by (cases m; cases e; simp only:; code_simp)
qed

lemma literal_lines_silent:
  "map parse_env_line env_header = [[], [], [], []]"
  "concat (map parse_env_line (password_lines m e)) = []"
  by (simp_all add: env_header_def password_lines_def text_simps split: restart_mode.split)

lemma fixed_values: "clean_value ''external''" "clean_value ''derived''" "clean_value ''on''"
  by code_simp+

lemma env_keys:
  "list_all env_key
     [''GP_BIND'', ''GP_PUBLIC_URL'', ''GP_RELAY_MODE'', ''GP_RELAYS'', ''GP_NODE_URL'',
      ''GP_RATE_CURRENCIES'', ''GP_MATCH_MODE'', ''GP_API_TOKEN'', ''GP_ADMIN_TOKEN'',
      ''GP_WEBHOOK_URL'', ''GP_WEBHOOK_SECRET'', ''GP_WALLET_PASSWORD_FILE'', ''GP_DATA_DIR'',
      ''GP_DB_PATH'', ''GP_GRIN1_RAIL'']"
  by code_simp

lemma section_titles_plain:
  "list_all plain_line
     [[], ''# --- local listen address (loopback; keep it behind your proxy) ---'',
      ''# --- public URL customers reach this till at ---'',
      ''# --- relays (external vetted pool; swap for your own if you like) ---'',
      ''# --- Grin node (read-only: confirmations + balance), health-probed at setup ---'',
      ''# --- pricing ---'', ''# --- connector + admin bearer tokens (capabilities) ---'',
      ''# --- webhook to your shop (HMAC-signed) ---'', ''# --- managed state ---'',
      ''# --- grin1 / Tor rail (advanced; default off) ---'', ''GP_GRIN1_RAIL=on'', ''#GP_GRIN1_RAIL=on'']"
  by code_simp

lemma env_lines_plain:
  assumes "clean_params p"
  shows "list_all plain_line (env_lines p)"
  using assms literal_lines_plain section_titles_plain env_keys fixed_values
  by (simp only: env_lines_def clean_params_def list_all_append list.pred_inject plain_assign
        split: if_split) simp

lemma rail_line: "parse_env_line ''GP_GRIN1_RAIL=on'' = [(''GP_GRIN1_RAIL'', ''on'')]"
  by code_simp

lemma parse_render_env:
  assumes "clean_params p"
  shows "parse_env_file (render_env p) = env_pairs p"
proof -
  have "parse_env_file (render_env p) = concat (map parse_env_line (env_lines p))"
    using parse_unlines [OF env_lines_plain [OF assms]] by (simp add: render_env_def)
  also have "\<dots> = env_pairs p"
    using assms literal_lines_silent env_keys fixed_values rail_line
    by (simp only: env_lines_def env_pairs_def clean_params_def list_all_append list.pred_inject
          parse_assign map_append concat_append list.map concat.simps append.simps append_Nil2
          parse_comment parse_blank split: if_split) simp
  finally show ?thesis .
qed

subsection \<open>Booting from the written file\<close>

definition list_answer :: "(string \<Rightarrow> string) \<Rightarrow> string list \<Rightarrow> bool" where
  "list_answer lower ws \<longleftrightarrow>
     ws \<noteq> [] \<and> list_all (\<lambda>w. w \<noteq> [] \<and> trim w = w \<and> lower w = w \<and> CHR '','' \<notin> set w) ws"

definition usable_params :: "(string \<Rightarrow> string) \<Rightarrow> setup_params \<Rightarrow> bool" where
  "usable_params lower p \<longleftrightarrow>
     clean_params p \<and> sp_bind p \<noteq> [] \<and> sp_db_path p \<noteq> [] \<and> sp_data_dir p \<noteq> [] \<and>
     sp_webhook_url p \<noteq> [] \<and> trim_end_matches (CHR ''/'') (sp_public_url p) \<noteq> [] \<and>
     (starts_with ''http://'' (sp_node_url p) \<or> starts_with ''https://'' (sp_node_url p)) \<and>
     list_answer (\<lambda>w. w) (sp_relays p) \<and> list_answer lower (sp_currencies p)"

lemma list_answer_split:
  "list_answer lower ws \<Longrightarrow> split_on (CHR '','') (join '','' ws) = ws"
  unfolding list_answer_def by (rule split_on_join) (auto simp: list_all_iff)

lemma list_answer_map:
  "list_answer lower ws \<Longrightarrow>
     filter (\<lambda>w. w \<noteq> []) (map (\<lambda>w. lower (trim w)) (split_on (CHR '','') (join '','' ws))) = ws"
  by (simp add: list_answer_split) (induction ws; fastforce simp: list_answer_def)

definition booted_config :: "setup_params \<Rightarrow> string \<Rightarrow> config" where
  "booted_config p pw =
     default_config
       \<lparr>bind_addr := sp_bind p, db_path := sp_db_path p, data_dir := sp_data_dir p,
        node_url := sp_node_url p, relay_mode := External, relays := sp_relays p,
        cfg_match_mode := DerivedMode, wallet_password := Some pw,
        public_url := trim_end_matches (CHR ''/'') (sp_public_url p),
        api_token := Some (sp_api_token p), admin_token := Some (sp_admin_token p),
        webhook_url := Some (sp_webhook_url p), webhook_secret := Some (sp_webhook_secret p),
        rate_currencies := sp_currencies p, grin1_rail := sp_grin1_rail p\<rparr>"

definition written_lookup :: "setup_params \<Rightarrow> lookup" where
  "written_lookup p = map_of (rev (env_pairs p))"

lemma written_lookup_simps:
  "written_lookup p ''GP_BIND'' = Some (sp_bind p)"
  "written_lookup p ''GP_PUBLIC_URL'' = Some (sp_public_url p)"
  "written_lookup p ''GP_RELAY_MODE'' = Some ''external''"
  "written_lookup p ''GP_RELAYS'' = Some (join '','' (sp_relays p))"
  "written_lookup p ''GP_NODE_URL'' = Some (sp_node_url p)"
  "written_lookup p ''GP_RATE_CURRENCIES'' = Some (join '','' (sp_currencies p))"
  "written_lookup p ''GP_MATCH_MODE'' = Some ''derived''"
  "written_lookup p ''GP_API_TOKEN'' = Some (sp_api_token p)"
  "written_lookup p ''GP_ADMIN_TOKEN'' = Some (sp_admin_token p)"
  "written_lookup p ''GP_WEBHOOK_URL'' = Some (sp_webhook_url p)"
  "written_lookup p ''GP_WEBHOOK_SECRET'' = Some (sp_webhook_secret p)"
  "written_lookup p ''GP_WALLET_PASSWORD_FILE'' = Some (sp_wallet_password_file p)"
  "written_lookup p ''GP_DATA_DIR'' = Some (sp_data_dir p)"
  "written_lookup p ''GP_DB_PATH'' = Some (sp_db_path p)"
  "written_lookup p ''GP_GRIN1_RAIL'' = (if sp_grin1_rail p then Some ''on'' else None)"
  by (simp_all add: written_lookup_def env_pairs_def)

lemma unset_keys:
  "list_all (\<lambda>k. k \<notin> set
     [''GP_BIND'', ''GP_PUBLIC_URL'', ''GP_RELAY_MODE'', ''GP_RELAYS'', ''GP_NODE_URL'',
      ''GP_RATE_CURRENCIES'', ''GP_MATCH_MODE'', ''GP_API_TOKEN'', ''GP_ADMIN_TOKEN'',
      ''GP_WEBHOOK_URL'', ''GP_WEBHOOK_SECRET'', ''GP_WALLET_PASSWORD_FILE'', ''GP_DATA_DIR'',
      ''GP_DB_PATH'', ''GP_GRIN1_RAIL''])
     [''GP_TLS'', ''GP_CHAIN'', ''GP_INGEST'', ''GP_MNEMONIC'', ''GP_MNEMONIC_FILE'',
     ''GP_WALLET_PASSWORD'', ''GP_NSEC'', ''GP_NSEC_FILE'', ''GP_NCRYPTSEC'', ''GP_NCRYPTSEC_FILE'',
     ''GP_API_TOKEN_FILE'', ''GP_ADMIN_TOKEN_FILE'', ''GP_WEBHOOK_SECRET_FILE'',
     ''GP_NOTIFY_MERCHANT_DM'', ''GP_NOTIFY_PAYER_RECEIPT'', ''GP_ENDPUB_ROTATE_INTERVAL'',
     ''GP_ENDPUB_OVERLAP_EPOCHS'', ''GP_RATE_SOURCE'', ''GP_RATE_CACHE_TTL'', ''GP_QUOTE_TTL'',
     ''GP_RATE_STALE_MAX'', ''GP_CONFIRMATIONS'', ''GP_GRIN1_FOREIGN_PORT'', ''GP_QR_LOGO'',
     ''GP_MERCHANT_NPUB'', ''GP_BUNDLED_RELAY_URL'', ''GP_CHECKOUT_METHODS'']"
  by code_simp

lemma written_lookup_None:
  assumes "k \<notin> set
     [''GP_BIND'', ''GP_PUBLIC_URL'', ''GP_RELAY_MODE'', ''GP_RELAYS'', ''GP_NODE_URL'',
      ''GP_RATE_CURRENCIES'', ''GP_MATCH_MODE'', ''GP_API_TOKEN'', ''GP_ADMIN_TOKEN'',
      ''GP_WEBHOOK_URL'', ''GP_WEBHOOK_SECRET'', ''GP_WALLET_PASSWORD_FILE'', ''GP_DATA_DIR'',
      ''GP_DB_PATH'', ''GP_GRIN1_RAIL'']"
  shows "written_lookup p k = None"
proof -
  have "k \<notin> fst ` set (env_pairs p)"
    using assms unfolding env_pairs_def by (cases "sp_grin1_rail p") simp_all
  then show ?thesis by (simp add: written_lookup_def map_of_eq_None_iff)
qed

lemma written_lookup_unset:
  "list_all (\<lambda>k. written_lookup p k = None)
     [''GP_TLS'', ''GP_CHAIN'', ''GP_INGEST'', ''GP_MNEMONIC'', ''GP_MNEMONIC_FILE'',
     ''GP_WALLET_PASSWORD'', ''GP_NSEC'', ''GP_NSEC_FILE'', ''GP_NCRYPTSEC'', ''GP_NCRYPTSEC_FILE'',
     ''GP_API_TOKEN_FILE'', ''GP_ADMIN_TOKEN_FILE'', ''GP_WEBHOOK_SECRET_FILE'',
     ''GP_NOTIFY_MERCHANT_DM'', ''GP_NOTIFY_PAYER_RECEIPT'', ''GP_ENDPUB_ROTATE_INTERVAL'',
     ''GP_ENDPUB_OVERLAP_EPOCHS'', ''GP_RATE_SOURCE'', ''GP_RATE_CACHE_TTL'', ''GP_QUOTE_TTL'',
     ''GP_RATE_STALE_MAX'', ''GP_CONFIRMATIONS'', ''GP_GRIN1_FOREIGN_PORT'', ''GP_QR_LOGO'',
     ''GP_MERCHANT_NPUB'', ''GP_BUNDLED_RELAY_URL'', ''GP_CHECKOUT_METHODS'']"
  using unset_keys by (rule list.pred_mono_strong) (rule written_lookup_None)

lemma written_secrets:
  assumes "rf (sp_wallet_password_file p) = Inr content" "trim_newlines content \<noteq> []"
  shows "secret rf (written_lookup p) ''GP_MNEMONIC'' = Inr None"
    "secret rf (written_lookup p) ''GP_WALLET_PASSWORD'' = Inr (Some (trim_newlines content))"
    "secret rf (written_lookup p) ''GP_NSEC'' = Inr None"
    "secret rf (written_lookup p) ''GP_NCRYPTSEC'' = Inr None"
    "secret rf (written_lookup p) ''GP_API_TOKEN'' = Inr (Some (sp_api_token p))"
    "secret rf (written_lookup p) ''GP_ADMIN_TOKEN'' = Inr (Some (sp_admin_token p))"
    "secret rf (written_lookup p) ''GP_WEBHOOK_SECRET'' = Inr (Some (sp_webhook_secret p))"
  using assms written_lookup_unset [of p, simplified list.pred_inject]
  by (simp_all add: secret_def written_lookup_simps)

lemma written_settings:
  assumes "usable_params lower p"
  shows "parse_tls (written_lookup p) = Inr TlsOff"
    "parse_chain (written_lookup p) = Inr Mainnet"
    "parse_relay_mode (written_lookup p) = Inr External"
    "parse_ingest (written_lookup p) = Inr True"
    "parse_match_mode (written_lookup p) = Inr DerivedMode"
    "parse_rate_source (written_lookup p) = Inr CoinGecko"
    "parse_currencies lower (written_lookup p) = Inr (sp_currencies p)"
    "parse_foreign_port (written_lookup p) = Inr DEFAULT_GRIN1_FOREIGN_PORT"
    "parse_qr_logo (written_lookup p) = None"
    "parse_bundled_relay (written_lookup p) = DEFAULT_BUNDLED_RELAY"
    "parse_public_url (written_lookup p) b = trim_end_matches (CHR ''/'') (sp_public_url p)"
    "comma_list (or_default (written_lookup p ''GP_RELAYS'') []) = sp_relays p"
    "non_blank (written_lookup p ''GP_WEBHOOK_URL'') = Some (sp_webhook_url p)"
    "parse_bool (written_lookup p) ''GP_GRIN1_RAIL'' False = Inr (sp_grin1_rail p)"
proof -
  note unset = written_lookup_unset [of p, simplified list.pred_inject]
  show "parse_tls (written_lookup p) = Inr TlsOff" "parse_chain (written_lookup p) = Inr Mainnet"
    "parse_relay_mode (written_lookup p) = Inr External" "parse_ingest (written_lookup p) = Inr True"
    "parse_match_mode (written_lookup p) = Inr DerivedMode"
    "parse_rate_source (written_lookup p) = Inr CoinGecko"
    "parse_foreign_port (written_lookup p) = Inr DEFAULT_GRIN1_FOREIGN_PORT"
    "parse_qr_logo (written_lookup p) = None"
    "parse_bundled_relay (written_lookup p) = DEFAULT_BUNDLED_RELAY"
    "parse_bool (written_lookup p) ''GP_GRIN1_RAIL'' False = Inr (sp_grin1_rail p)"
    using unset
    by (simp_all add: parse_tls_def parse_chain_def parse_relay_mode_def parse_ingest_def
        parse_match_mode_def parse_rate_source_def parse_foreign_port_def parse_qr_logo_def
        parse_bundled_relay_def parse_bool_def or_default_def written_lookup_simps)
  have cur: "list_answer lower (sp_currencies p)" and rel: "list_answer (\<lambda>w. w) (sp_relays p)"
    using assms by (auto simp: usable_params_def)
  show "parse_currencies lower (written_lookup p) = Inr (sp_currencies p)"
    using cur by (simp add: parse_currencies_def written_lookup_simps list_answer_map Let_def) (simp add: list_answer_def)
  show "comma_list (or_default (written_lookup p ''GP_RELAYS'') []) = sp_relays p"
    using list_answer_map [OF rel] by (simp add: comma_list_def or_default_def written_lookup_simps)
  show "parse_public_url (written_lookup p) b = trim_end_matches (CHR ''/'') (sp_public_url p)"
    "non_blank (written_lookup p ''GP_WEBHOOK_URL'') = Some (sp_webhook_url p)"
    using assms
    by (simp_all add: parse_public_url_def non_blank_def written_lookup_simps usable_params_def
        clean_params_def clean_value_def)
qed

lemma booted_valid:
  assumes "usable_params lower p"
  shows "validate (booted_config p pw) = Inr ()"
  using assms trim_default_relay
  by (simp add: validate_def booted_config_def default_config_def usable_params_def list_answer_def
      DEFAULT_QUOTE_TTL_def DEFAULT_RATE_CACHE_TTL_def DEFAULT_CONFIRMATIONS_def)

lemma from_lookup_written:
  assumes "usable_params lower p" "rf (sp_wallet_password_file p) = Inr content" "trim_newlines content \<noteq> []"
  shows "from_lookup lower rf (written_lookup p) = Inr (booted_config p (trim_newlines content))"
proof -
  note unset = written_lookup_unset [of p, simplified list.pred_inject]
  have "and_then (validate (booted_config p (trim_newlines content))) (\<lambda>_. Inr (booted_config p (trim_newlines content))) =
      Inr (booted_config p (trim_newlines content))"
    using booted_valid [OF assms(1)] by simp
  then show ?thesis
    using written_settings [OF assms(1)] written_secrets [of rf p content, OF assms(2,3)] unset
    by (simp add: from_lookup_def Let_def parse_bool_def parse_i64_def booted_config_def
        default_config_def parse_checkout_methods_def DEPRECATED_INLINE_SECRETS_def
        written_lookup_simps or_default_def non_blank_def)
qed

text \<open>The file the wizard writes is the configuration the server boots from. For answers that
  are single trimmed lines, reading the rendered file back (comments, blank lines and all) and
  loading it gives exactly the answers, the external relay pool, derived matching and defaults
  for the rest, with the password taken from the credential file; when that file cannot be read
  or is blank (a MANUAL till, a sealed credential before systemd runs), the load is refused with
  the reason and nothing else goes wrong.\<close>

lemma written_env_loads:
  assumes "usable_params lower p" "rf path = Inr (render_env p)"
  shows "config_from_written_env lower rf path =
     (case rf (sp_wallet_password_file p) of
        Inl e \<Rightarrow> Inl (''GP_WALLET_PASSWORD_FILE `'' @ sp_wallet_password_file p @ ''` unreadable: '' @ e)
      | Inr pw \<Rightarrow>
          if trim_newlines pw = []
          then Inl (''GP_WALLET_PASSWORD_FILE `'' @ sp_wallet_password_file p @ ''` is empty'')
          else Inr (booted_config p (trim_newlines pw)))"
proof -
  have loaded: "config_from_written_env lower rf path = from_lookup lower rf (written_lookup p)"
    using assms parse_render_env by (simp add: config_from_written_env_def usable_params_def written_lookup_def)
  note unset = written_lookup_unset [of p, simplified list.pred_inject]
  note refused = from_lookup_def Let_def secret_def [of rf "written_lookup p"] written_lookup_simps
  show ?thesis
  proof (cases "rf (sp_wallet_password_file p)")
    case (Inl e)
    then show ?thesis
      using loaded written_settings(1-5) [OF assms(1)] unset by (simp add: refused)
  next
    case (Inr pw)
    then show ?thesis
      using loaded written_settings(1-5) [OF assms(1)] unset
        from_lookup_written [of lower p rf pw, OF assms(1)]
      by (cases "trim_newlines pw = []") (simp_all add: refused)
  qed
qed

definition sample_params :: setup_params where
  "sample_params =
     \<lparr>sp_bind = ''127.0.0.1:8080'', sp_public_url = ''https://myshop.com/pay/'',
      sp_webhook_url = ''https://myshop.com/wp-json/goblinpay/v1/webhook'',
      sp_node_url = ''https://main.gri.mw'', sp_relays = DEFAULT_RELAYS, sp_currencies = [''usd'', ''eur''],
      sp_grin1_rail = True, sp_api_token = ''gp_live_00'', sp_admin_token = ''gpadm_01'',
      sp_webhook_secret = ''whsec_02'', sp_data_dir = ''/var/lib/goblinpay'',
      sp_db_path = ''/var/lib/goblinpay/goblinpay.db'',
      sp_wallet_password_file = CREDENTIALS_WALLET_PASSWORD_PATH, sp_restart_mode = Unattended,
      sp_unattended_encrypted = True\<rparr>"

lemma sample_params_usable: "usable_params id sample_params"
  unfolding usable_params_def clean_params_def by code_simp

subsection \<open>Links and choices\<close>

text \<open>A till mounted under a path of an existing site links below that path: the prefix put
  before every link is the URL's path without trailing slashes, and empty for a bare host.\<close>

lemma base_path_prefix:
  assumes "CHR '':'' \<notin> set scheme" "CHR ''/'' \<notin> set host" "path = [] \<or> hd path = CHR ''/''"
  shows "base_path (scheme @ ''://'' @ host @ path) = trim_end_matches (CHR ''/'') path"
proof -
  have "find_sub ''://'' (scheme @ ''://'' @ host @ path) = Some (length scheme)"
    using assms(1) by (induction scheme) (auto simp: starts_with_def)
  then have rest: "split_once ''://'' (scheme @ ''://'' @ host @ path) = Some (scheme, host @ path)"
    by (simp add: split_once_def)
  show ?thesis
  proof (cases path)
    case Nil
    have "find_sub ''/'' host = None" using assms(2) by (induction host) (auto simp: starts_with_def)
    then show ?thesis using rest Nil by (simp add: base_path_def trim_end_matches_def)
  next
    case (Cons c s)
    then have "find_sub ''/'' (host @ path) = Some (length host)"
      using assms(2,3) find_sub_char [of "CHR ''/''" host s] by simp
    then show ?thesis using rest by (simp add: base_path_def)
  qed
qed

lemma base_path_prefix_witness: "base_path ''https://myshop.com/pay/'' = ''/pay''"
  using base_path_prefix [of "''https''" "''myshop.com''" "''/pay/''"] by (simp add: trim_end_matches_def)

lemma select_node_first:
  "select_node candidates probe = Some n \<Longrightarrow>
     \<exists>a b. candidates = a @ n # b \<and> probe n \<and> (\<forall>x \<in> set a. \<not> probe x)"
  unfolding select_node_def
proof (induction candidates)
  case (Cons c cs)
  show ?case
  proof (cases "probe c")
    case True
    with Cons.prems have "c # cs = [] @ n # cs" "probe n" by auto
    then show ?thesis by fastforce
  next
    case False
    with Cons obtain a b where "cs = a @ n # b" "probe n" "\<forall>x \<in> set a. \<not> probe x" by auto
    with False have "c # cs = (c # a) @ n # b \<and> probe n \<and> (\<forall>x \<in> set (c # a). \<not> probe x)" by simp
    then show ?thesis by blast
  qed
qed simp

lemma webhook_url_scheme:
  "webhook_url_from_shop shop = Inr u \<Longrightarrow>
     starts_with ''http://'' u \<or> starts_with ''https://'' u"
  unfolding webhook_url_from_shop_def and_then_Inr normalize_url_def Let_def
  by (auto simp: starts_with_iff split: if_splits)

lemma generated_secret_length:
  "16 \<le> length bs \<Longrightarrow> length (gen_api_token bs) = 40"
  using length_hex_encode [of "take 16 bs"]
  by (simp add: gen_api_token_def prefixed_secret_def random_hex_def hex_encode_def [symmetric])

text \<open>A space between the host and its trailing slash survives the normalisation.\<close>

lemma normalize_url_keeps_space: "normalize_url ''http://x /'' = Inr ''http://x ''"
  by code_simp

end
