(* ===== verification/Checkout.thy ===== *)
theory Checkout
  imports Wallet Setup Protocol
begin

text \<open>
  \<open>crates/gp-server/src/checkout.rs\<close>: what the hosted page presents for an invoice, its method
  tabs, its status, and the paste form. nostr-sdk's keys and encodings are a \<open>nostr_sdk\<close>, the QR
  renderer is \<open>svg\<close>; the HTML of the two templates is not modelled, a page is its data.
\<close>

subsection \<open>Nostr encodings (\<open>crates/gp-nostr/src/lib.rs\<close>)\<close>

record 'pk nostr_sdk =
  pk_from_hex :: "string \<Rightarrow> 'pk option"
  pk_from_bech32 :: "string \<Rightarrow> 'pk option"
  pk_bech32 :: "'pk \<Rightarrow> string option"
  relay_parses :: "string \<Rightarrow> bool"
  profile_bech32 :: "'pk \<Rightarrow> string list \<Rightarrow> string option"

definition npub_of :: "'pk nostr_sdk \<Rightarrow> 'pk \<Rightarrow> string" where
  "npub_of n pk = or_default (pk_bech32 n pk) []"

definition pubkey_from_str :: "'pk nostr_sdk \<Rightarrow> string \<Rightarrow> 'pk option" where
  "pubkey_from_str n s =
     (case pk_from_bech32 n (trim s) of Some pk \<Rightarrow> Some pk | None \<Rightarrow> pk_from_hex n (trim s))"

definition nprofile :: "'pk nostr_sdk \<Rightarrow> 'pk \<Rightarrow> string list \<Rightarrow> string" where
  "nprofile n pk rs = or_default (profile_bech32 n pk (filter (relay_parses n) rs)) []"

subsection \<open>The pay URI\<close>

definition unreserved :: "char \<Rightarrow> bool" where
  "unreserved c \<longleftrightarrow>
     (let n = (of_char c :: nat) in
      (65 \<le> n \<and> n \<le> 90) \<or> (97 \<le> n \<and> n \<le> 122) \<or> (48 \<le> n \<and> n \<le> 57) \<or>
      c = CHR ''-'' \<or> c = CHR ''.'' \<or> c = CHR ''_'' \<or> c = CHR ''~'')"

definition escape_byte :: "char \<Rightarrow> string" where
  "escape_byte c =
     (if unreserved c then [c]
      else [CHR ''%'', hex_digit_upper (of_char c div 16), hex_digit_upper (of_char c mod 16)])"

definition percent_encode :: "string \<Rightarrow> string" where
  "percent_encode s = concat (map escape_byte s)"

definition pay_uri :: "string \<Rightarrow> invoice \<Rightarrow> string" where
  "pay_uri profile i =
     (let amount = (case expected_amount i of
                      Some nano \<Rightarrow> if 0 < nano then ''?amount='' @ nanogrin_to_grin (as_u64 nano) else []
                    | None \<Rightarrow> []);
          sep = (if amount = [] then ''?'' else ''&'');
          note = (case memo i of
                    Some m \<Rightarrow> if trim m = [] then [] else sep @ ''memo='' @ percent_encode (trim m)
                  | None \<Rightarrow> [])
      in ''goblin:'' @ profile @ amount @ note)"

definition amount_display :: "invoice \<Rightarrow> string" where
  "amount_display i =
     (case (expected_amount i, fiat_amount i, fiat_currency i) of
        (Some nano, Some amount, Some currency) \<Rightarrow>
          amount @ '' '' @ currency @ '' (~'' @ nanogrin_to_grin (as_u64 nano) @ '' GRIN)''
      | (Some nano, _, _) \<Rightarrow> nanogrin_to_grin (as_u64 nano) @ '' GRIN''
      | (None, Some amount, Some currency) \<Rightarrow> amount @ '' '' @ currency @ '' (Grin quote pending)''
      | _ \<Rightarrow> ''any amount'')"

subsection \<open>What the page presents\<close>

record checkout_info =
  ci_invoice_id :: string
  ci_token :: string
  ci_base :: string
  ci_pay_url :: string
  ci_recipient_pubkey :: string
  ci_npub :: string
  ci_nprofile :: string
  ci_qr_svg :: string
  ci_pay_link :: string
  ci_slatepack_manual :: bool
  ci_slatepack_address :: "string option"
  ci_slatepack_qr_svg :: "string option"
  ci_invoice_slatepack :: "string option"
  ci_invoice_slatepack_qr_svg :: "string option"
  ci_amount_display :: string
  ci_status :: string
  ci_memo :: "string option"
  ci_order_ref :: "string option"

definition build_info ::
  "'pk nostr_sdk \<Rightarrow> (string \<Rightarrow> logo \<Rightarrow> string option) \<Rightarrow> invoice \<Rightarrow> config \<Rightarrow> string option \<Rightarrow> string option
   \<Rightarrow> bool \<Rightarrow> checkout_info" where
  "build_info n svg i cfg addr i1 plain_ok =
     (let rs = resolve_relays (relay_mode cfg) (bundled_relay_url cfg) (relays cfg);
          rcpt = or_default (recipient_pubkey i) [];
          (npub, profile) =
            (if checkout_nostr cfg
             then (case pk_from_hex n rcpt of Some pk \<Rightarrow> (npub_of n pk, nprofile n pk rs) | None \<Rightarrow> ([], []))
             else ([], []));
          payload = (if profile = [] then profile else pay_uri profile i);
          pay_logo = (case qr_logo cfg of NoLogo \<Rightarrow> Builtin | other \<Rightarrow> other);
          wallet_loaded = (case addr of Some a \<Rightarrow> a \<noteq> [] | None \<Rightarrow> False);
          manual = (checkout_slatepack cfg \<and> wallet_loaded);
          grin_rail_on = (grin1_rail cfg \<and> checkout_slatepack cfg);
          (sp_addr, sp_qr) =
            (case addr of
               Some a \<Rightarrow> if manual \<and> plain_ok \<and> a \<noteq> [] then (Some a, Some (or_default (svg a pay_logo) [])) else (None, None)
             | None \<Rightarrow> (None, None));
          (inv_sp, inv_qr) =
            (case i1 of
               Some a \<Rightarrow> if grin_rail_on \<and> a \<noteq> [] then (Some a, Some (or_default (svg a pay_logo) [])) else (None, None)
             | None \<Rightarrow> (None, None));
          tok = or_default (token i) []
      in \<lparr>ci_invoice_id = inv_id i, ci_token = tok, ci_base = base_path (public_url cfg),
          ci_pay_url = public_url cfg @ ''/pay/'' @ tok, ci_recipient_pubkey = rcpt, ci_npub = npub,
          ci_nprofile = profile, ci_qr_svg = or_default (svg payload pay_logo) [], ci_pay_link = payload,
          ci_slatepack_manual = manual, ci_slatepack_address = sp_addr, ci_slatepack_qr_svg = sp_qr,
          ci_invoice_slatepack = inv_sp, ci_invoice_slatepack_qr_svg = inv_qr,
          ci_amount_display = amount_display i, ci_status = inv_status i, ci_memo = memo i,
          ci_order_ref = order_ref i\<rparr>)"

subsection \<open>Method tabs\<close>

record method_tab =
  mt_key :: string
  mt_label :: string
  mt_active :: bool

definition METHODS :: "(string \<times> string) list" where
  "METHODS = [(''goblin'', ''Pay with Goblin''), (''invoice'', ''Grin invoice''),
              (''address'', ''Send to address''), (''slatepack'', ''Paste a slatepack'')]"

definition method_available :: "checkout_info \<Rightarrow> string \<Rightarrow> bool" where
  "method_available info key =
     (if key = ''goblin'' then ci_nprofile info \<noteq> []
      else if key = ''invoice'' then ci_invoice_slatepack info \<noteq> None
      else if key = ''address'' then ci_slatepack_address info \<noteq> None
      else if key = ''slatepack'' then ci_slatepack_manual info
      else False)"

definition build_tabs :: "checkout_info \<Rightarrow> string option \<Rightarrow> method_tab list \<times> string" where
  "build_tabs info requested =
     (let available = filter (\<lambda>(k, _). method_available info k) METHODS;
          first = (case available of [] \<Rightarrow> [] | (k, _) # _ \<Rightarrow> k);
          active = (case requested of
                      Some r \<Rightarrow> if \<exists>(k, _) \<in> set available. k = r then r else first
                    | None \<Rightarrow> first)
      in (map (\<lambda>(k, l). \<lparr>mt_key = k, mt_label = l, mt_active = (k = active)\<rparr>) available, active))"

subsection \<open>The page and its status\<close>

record pay_page_data =
  pg_info :: checkout_info
  pg_is_open :: bool
  pg_is_paid :: bool
  pg_is_confirmed :: bool
  pg_is_expired :: bool
  pg_confirmations :: int
  pg_confirmations_required :: int
  pg_tabs :: "method_tab list"
  pg_active_method :: string
  pg_refresh_url :: string

text \<open>\<open>addr\<close> is the loaded wallet's \<open>slatepack_address\<close>, if it could be derived.\<close>

definition pay_page ::
  "'pk nostr_sdk \<Rightarrow> (string \<Rightarrow> logo \<Rightarrow> string option) \<Rightarrow> config \<Rightarrow> string option \<Rightarrow> int \<Rightarrow> string \<Rightarrow> string option
   \<Rightarrow> 'b db \<Rightarrow> pay_page_data option \<times> 'b db" where
  "pay_page n svg cfg addr now tok requested d =
     (case get_by_token now tok d of
        (None, d') \<Rightarrow> (None, d')
      | (Some i, d') \<Rightarrow>
          let info = build_info n svg i cfg addr (slatepack i) (plain_send_allowed i d');
              (tabs, active) = build_tabs info requested
          in (Some \<lparr>pg_info = info, pg_is_open = (status_of i = Open), pg_is_paid = (status_of i = Paid),
                    pg_is_confirmed = (status_of i = Confirmed), pg_is_expired = (status_of i = Expired),
                    pg_confirmations = invoice_confirmations (inv_id i) d',
                    pg_confirmations_required = confirmations_required cfg, pg_tabs = tabs,
                    pg_active_method = active,
                    pg_refresh_url = ci_base info @ ''/pay/'' @ ci_token info @ ''?method='' @ active\<rparr>, d'))"

record pay_status_json =
  st_invoice_id :: string
  st_status :: string
  st_expected_amount :: "int option"
  st_paid_payment_id :: "string option"
  st_confirmations :: int
  st_confirmations_required :: int

definition pay_status :: "config \<Rightarrow> int \<Rightarrow> string \<Rightarrow> 'b db \<Rightarrow> pay_status_json option \<times> 'b db" where
  "pay_status cfg now tok d =
     (case get_by_token now tok d of
        (None, d') \<Rightarrow> (None, d')
      | (Some i, d') \<Rightarrow>
          (Some \<lparr>st_invoice_id = inv_id i, st_status = inv_status i, st_expected_amount = expected_amount i,
                 st_paid_payment_id = paid_payment_id i, st_confirmations = invoice_confirmations (inv_id i) d',
                 st_confirmations_required = confirmations_required cfg\<rparr>, d'))"

subsection \<open>The paste form\<close>

datatype paste_route = ReceiveS1 | FinalizeI2 | RejectPaste string

definition route_paste :: "string \<Rightarrow> string \<Rightarrow> invoice \<Rightarrow> paste_route" where
  "route_paste state sid i =
     (if state = ''S1'' then ReceiveS1
      else if state = ''I2'' then
        (if status_of i \<noteq> Open
         then RejectPaste (''This invoice has already been paid or is no longer open; '' @
                ''nothing more to submit.'')
         else if is_grin1 i \<and> inv_slate_id i = Some sid then FinalizeI2
         else RejectPaste (''That looks like an invoice response, but it does not belong to '' @
                ''this invoice. Check you pasted the response for the invoice on this page.''))
      else RejectPaste (''That slatepack is in state '' @ state @ ''; expected a payment (S1) or an '' @
             ''invoice response (I2).''))"

record paste_result =
  pr_base :: string
  pr_token :: string
  pr_ok :: bool
  pr_message :: string
  pr_s2_armor :: string

definition MSG_RECEIVED :: string where
  "MSG_RECEIVED = ''Payment received, but it is not complete yet. Copy the '' @
     ''response slatepack below back into your wallet to finalize '' @
     ''and broadcast it. The payment only settles once your wallet posts it to the chain.''"

definition MSG_FINALIZED :: string where
  "MSG_FINALIZED = ''Invoice response received: the payment has been finalized '' @
     ''and posted to the chain. Nothing more to paste; this page '' @
     ''will show confirmations as they arrive.''"

definition msg_mismatch :: "amount_mismatch \<Rightarrow> string" where
  "msg_mismatch m = ''This invoice must be paid in full: it expects exactly '' @ nanogrin_to_grin (am_expected m) @
     '' GRIN, but the slatepack you pasted pays '' @ nanogrin_to_grin (am_received m) @ '' GRIN. '' @
     ''Nothing was recorded. Send the exact amount and paste that slatepack instead.''"

text \<open>
  \<open>blocking\<close> runs the finalize on the blocking pool: its answer, or the panic of the task with
  whatever the wallet was left in. \<open>rid\<close> is the id of the webhook event of this request.
\<close>

definition paste_outcome ::
  "(webhook_payload \<Rightarrow> 'b) \<Rightarrow> dalek \<Rightarrow> (receiver_proof \<Rightarrow> string + string) \<Rightarrow> ('w, 's, 'v, 'n) backend \<Rightarrow> string
   \<Rightarrow> ((wallet_error + finalized_invoice) \<times> 'w \<Rightarrow> (string + (wallet_error + finalized_invoice)) \<times> 'w)
   \<Rightarrow> config \<Rightarrow> string \<Rightarrow> int \<Rightarrow> invoice \<Rightarrow> string \<Rightarrow> paste_route \<Rightarrow> 'w \<Rightarrow> 'b db
   \<Rightarrow> (bool \<times> string \<times> string) \<times> 'w \<times> 'b db" where
  "paste_outcome to_body ed to_json b url blocking cfg rid now i armor route w d =
     (let hook = webhook_pair (webhook_url cfg) (webhook_secret cfg) in
      case route of
        RejectPaste msg \<Rightarrow> ((False, msg, []), w, d)
      | ReceiveS1 \<Rightarrow>
          (case receive_slatepack ed to_json b armor w of
             (Inr rcv, w') \<Rightarrow>
               (case persist_and_match to_body rid now rcv None (or_default (recipient_pubkey i) []) (order_ref i)
                       (cfg_match_mode cfg) hook d of
                  (Matched _, d') \<Rightarrow> ((True, MSG_RECEIVED, rcv_s2_armor rcv), w', d')
                | (Rejected m, d') \<Rightarrow> ((False, msg_mismatch m, []), w', d'))
           | (Inl e, w') \<Rightarrow> ((False, ''That slatepack could not be received: '' @ show_wallet_error e, []), w', d))
      | FinalizeI2 \<Rightarrow>
          (case blocking (finalize_invoice_slatepack url b armor w) of
             (Inr (Inr fin), w') \<Rightarrow> ((True, MSG_FINALIZED, []), w', settle_finalized to_body rid now fin hook d)
           | (Inr (Inl e), w') \<Rightarrow>
               ((False, ''That invoice response could not be finalized: '' @ show_wallet_error e, []), w', d)
           | (Inl _, w') \<Rightarrow> ((False, ''Internal error while finalizing; please try again.'', []), w', d)))"

definition manual_slatepack ::
  "(webhook_payload \<Rightarrow> 'b) \<Rightarrow> dalek \<Rightarrow> (receiver_proof \<Rightarrow> string + string) \<Rightarrow> ('w, 's, 'v, 'n) backend \<Rightarrow> string
   \<Rightarrow> ((wallet_error + finalized_invoice) \<times> 'w \<Rightarrow> (string + (wallet_error + finalized_invoice)) \<times> 'w)
   \<Rightarrow> config \<Rightarrow> string \<Rightarrow> int \<Rightarrow> string \<Rightarrow> string \<Rightarrow> 'w option \<Rightarrow> 'b db \<Rightarrow> paste_result option \<times> 'w option \<times> 'b db" where
  "manual_slatepack to_body ed to_json b url blocking cfg rid now tok pasted wallet d =
     (case get_by_token now tok d of
        (None, d1) \<Rightarrow> (None, wallet, d1)
      | (Some i, d1) \<Rightarrow>
          let base = base_path (public_url cfg) in
          (case wallet of
             None \<Rightarrow>
               (Some \<lparr>pr_base = base, pr_token = tok, pr_ok = False,
                      pr_message = ''Manual receive is unavailable on this instance (wallet not loaded).'',
                      pr_s2_armor = []\<rparr>, None, d1)
           | Some w \<Rightarrow>
               let armor = trim pasted;
                   route = (case fst (slatepack_kind b armor w) of
                              Inr (sid, state) \<Rightarrow> route_paste state sid i
                            | Inl e \<Rightarrow> RejectPaste (''That slatepack could not be read: '' @ show_wallet_error e));
                   ((ok, msg, s2), w', d') = paste_outcome to_body ed to_json b url blocking cfg rid now i armor route w d1
               in (Some \<lparr>pr_base = base, pr_token = tok, pr_ok = ok, pr_message = msg, pr_s2_armor = s2\<rparr>, Some w', d')))"

subsection \<open>Percent-encoding\<close>

fun percent_decode :: "string \<Rightarrow> string" where
  "percent_decode [] = []"
| "percent_decode [c] = [c]"
| "percent_decode [c, a] = [c, a]"
| "percent_decode (c # a # e # s) =
     (if c = CHR ''%''
      then (case (hex_digit_val a, hex_digit_val e) of
              (Some x, Some y) \<Rightarrow> char_of (16 * x + y) # percent_decode s
            | _ \<Rightarrow> c # percent_decode (a # e # s))
      else c # percent_decode (a # e # s))"

lemma hex_digit_upper_val: "d < 16 \<Longrightarrow> hex_digit_val (hex_digit_upper d) = Some d"
  by (auto simp: hex_digit_val_def hex_digit_upper_def Let_def take_bit_eq_mod)

lemma hex_digit_upper_unreserved: "d < 16 \<Longrightarrow> unreserved (hex_digit_upper d)"
  by (auto simp: unreserved_def hex_digit_upper_def Let_def take_bit_eq_mod)

lemma percent_decode_plain: "c \<noteq> CHR ''%'' \<Longrightarrow> percent_decode (c # s) = c # percent_decode s"
  by (cases s rule: percent_decode.cases) simp_all

lemma char_div: "of_char c div 16 < (16 :: nat)"
  by (rule less_mult_imp_div_less) simp

lemma percent_decode_escape: "percent_decode (escape_byte c @ s) = c # percent_decode s"
proof (cases "unreserved c")
  case True
  then have "c \<noteq> CHR ''%''" by (auto simp: unreserved_def)
  with True show ?thesis by (simp add: escape_byte_def percent_decode_plain)
next
  case False
  have "16 * (of_char c div 16) + of_char c mod 16 = (of_char c :: nat)" by simp
  then show ?thesis using False char_div [of c] by (simp add: escape_byte_def hex_digit_upper_val)
qed

lemma percent_decode_encode: "percent_decode (percent_encode s) = s"
  by (induction s) (simp_all add: percent_encode_def percent_decode_escape)

lemma escape_byte_chars: "x \<in> set (escape_byte c) \<Longrightarrow> unreserved x \<or> x = CHR ''%''"
  using char_div [of c] hex_digit_upper_unreserved by (auto simp: escape_byte_def split: if_splits)

lemma percent_encode_chars: "x \<in> set (percent_encode s) \<Longrightarrow> unreserved x \<or> x = CHR ''%''"
  using escape_byte_chars by (auto simp: percent_encode_def)

text \<open>The scanned pay link says what the invoice says, and no memo can add or change a parameter:
  the link is the recipient's profile, the exact amount when there is a positive one, and the
  memo in a form that contains none of the separators and decodes to the memo as displayed.\<close>

lemma pay_link_faithful:
  "\<exists>amount note. pay_uri profile i = ''goblin:'' @ profile @ amount @ note \<and>
     amount = (case expected_amount i of
                 Some nano \<Rightarrow> if 0 < nano then ''?amount='' @ nanogrin_to_grin (as_u64 nano) else []
               | None \<Rightarrow> []) \<and>
     (case memo i of
        None \<Rightarrow> note = []
      | Some m \<Rightarrow>
          if trim m = [] then note = []
          else \<exists>e. note = (if amount = [] then ''?memo='' else ''&memo='') @ e \<and> percent_decode e = trim m \<and>
                 CHR ''&'' \<notin> set e \<and> CHR ''?'' \<notin> set e \<and> CHR ''#'' \<notin> set e \<and> CHR ''='' \<notin> set e)"
proof -
  have sep: "CHR ''&'' \<notin> set (percent_encode m)" "CHR ''?'' \<notin> set (percent_encode m)"
    "CHR ''#'' \<notin> set (percent_encode m)" "CHR ''='' \<notin> set (percent_encode m)" for m
    using percent_encode_chars [of _ m] by (auto simp: unreserved_def dest!: percent_encode_chars)
  show ?thesis
    unfolding pay_uri_def Let_def
    by (intro exI conjI) (auto simp: percent_decode_encode sep split: option.split)
qed

subsection \<open>Tabs\<close>

lemma METHODS_keys: "map fst METHODS = [''goblin'', ''invoice'', ''address'', ''slatepack'']"
  by (simp add: METHODS_def)

lemma available_key: "method_available info r \<Longrightarrow> r \<in> fst ` set METHODS"
  by (auto simp: method_available_def METHODS_def split: if_splits)

text \<open>The method tabs never lead to an empty panel: every tab, and the active method, is one whose
  panel renders; the active tab is the active method; a requested method is honoured exactly when
  it is available, and without one the first available method is shown.\<close>

lemma tabs_sound:
  "let (tabs, active) = build_tabs info requested in
     list_all (\<lambda>t. method_available info (mt_key t) \<and> mt_active t = (mt_key t = active)) tabs \<and>
     map mt_key tabs = filter (method_available info) (map fst METHODS) \<and>
     active = (case requested of
                 Some r \<Rightarrow> if method_available info r then r
                           else (case tabs of [] \<Rightarrow> [] | t # _ \<Rightarrow> mt_key t)
               | None \<Rightarrow> (case tabs of [] \<Rightarrow> [] | t # _ \<Rightarrow> mt_key t))"
proof -
  let ?av = "filter (\<lambda>(k, _). method_available info k) METHODS"
  have keys: "map fst ?av = filter (method_available info) (map fst METHODS)"
    by (simp add: filter_map comp_def case_prod_unfold)
  have mem: "(\<exists>(k, _) \<in> set ?av. k = r) \<longleftrightarrow> method_available info r" for r
    using available_key [of info r] by (auto simp: case_prod_beta) force
  have first: "(case map (\<lambda>(k, l). \<lparr>mt_key = k, mt_label = l, mt_active = (k = a)\<rparr>) ?av of
      [] \<Rightarrow> [] | t # _ \<Rightarrow> mt_key t) = (case ?av of [] \<Rightarrow> [] | (k, _) # _ \<Rightarrow> k)" for a
    by (auto split: list.split)
  show ?thesis
    unfolding build_tabs_def Let_def prod.case mem first
    by (auto simp: list_all_iff keys [symmetric] split: option.split)
qed

subsection \<open>The paste form is safe\<close>

lemma paste_refused:
  assumes "distinct (map inv_id (invoices d))"
    and "\<And>rcv w1. receive_slatepack ed to_json b armor w = (Inr rcv, w1) \<Longrightarrow> rcv_slate_id rcv \<notin> pay_id ` set (payments d)"
    and "paste_outcome to_body ed to_json b url blocking cfg rid now i armor route w d = ((False, msg, s2), w', d')"
  shows "s2 = [] \<and> d' = d"
  using assms(3) rejected_no_trace [OF assms(1) assms(2)]
  by (auto simp: paste_outcome_def Let_def split: paste_route.splits sum.splits prod.splits persist_outcome.splits)

lemma paste_reply:
  assumes "paste_outcome to_body ed to_json b url blocking cfg rid now i armor route w d = ((ok, msg, s2), w', d')"
    and "s2 \<noteq> []"
  shows "ok \<and> route = ReceiveS1 \<and> (\<exists>rcv m. receive_slatepack ed to_json b armor w = (Inr rcv, w') \<and>
     s2 = rcv_s2_armor rcv \<and>
     persist_and_match to_body rid now rcv None (or_default (recipient_pubkey i) []) (order_ref i) (cfg_match_mode cfg)
       (webhook_pair (webhook_url cfg) (webhook_secret cfg)) d = (Matched m, d'))"
  using assms
  by (auto simp: paste_outcome_def Let_def split: paste_route.splits sum.splits prod.splits persist_outcome.splits)

lemma get_by_token_ids:
  "map inv_id (invoices (snd (get_by_token now tok d))) = map inv_id (invoices d)"
  "payments (snd (get_by_token now tok d)) = payments d"
  by (simp_all add: get_by_token_def Let_def map_update_where set_expired_def)


definition checkout_db :: "string db" where
  "checkout_db = empty_db\<lparr>invoices := [(sample_invoice ''a'' ''pk'' (Some 500))\<lparr>token := Some ''t''\<rparr>]\<rparr>"

lemma sample_underpaid:
  "manual_slatepack event_id sample_ed no_json sample_backend ''u'' (\<lambda>(r, w). (Inr r, w))
     (default_config\<lparr>public_url := ''https://shop/pay''\<rparr>) ''ev'' 10 ''t'' ''s1'' (Some []) checkout_db =
   (Some \<lparr>pr_base = ''/pay'', pr_token = ''t'', pr_ok = False,
          pr_message = msg_mismatch \<lparr>am_expected = 500, am_received = 700\<rparr>, pr_s2_armor = []\<rparr>, Some [], checkout_db)"
  by code_simp


text \<open>An I2 is finalized only from the page of the open invoice its slate was issued for.\<close>

lemma route_finalize_iff:
  "route_paste state sid i = FinalizeI2 \<longleftrightarrow>
     state = ''I2'' \<and> status_of i = Open \<and> is_grin1 i \<and> inv_slate_id i = Some sid"
  by (auto simp: route_paste_def)

text \<open>A plain S1 is routed to the receive path whatever the invoice's status.\<close>

lemma closed_page_still_receives: "route_paste ''S1'' sid i = ReceiveS1"
  by (simp add: route_paste_def)

end
