(* ===== verification/Ids.thy ===== *)
theory Ids
  imports Text
begin

text \<open>
  \<open>crates/gp-core/src/ids.rs\<close> and \<open>ct_eq\<close> of \<open>lib.rs\<close>: the random identifiers and the checkout
  token, which is a bearer capability. The bytes the CSPRNG draws are an argument, so what is
  shown is that the encoding loses none of their entropy and needs no escaping in a URL.
\<close>

unbundle bit_operations_syntax

type_synonym u32 = "32 word"

definition ALPHABET :: string where
  "ALPHABET = ''ABCDEFGHIJKLMNOPQRSTUVWXYZabcdefghijklmnopqrstuvwxyz0123456789-_''"

definition pack_chunk :: "u8 \<Rightarrow> u8 \<Rightarrow> u8 \<Rightarrow> u32" where
  "pack_chunk b0 b1 b2 = push_bit 16 (ucast b0) OR push_bit 8 (ucast b1) OR ucast b2"

definition sextet :: "nat \<Rightarrow> u32 \<Rightarrow> u32" where
  "sextet k n = drop_bit k n AND 0x3f"

definition symbol :: "nat \<Rightarrow> u32 \<Rightarrow> char" where
  "symbol k n = ALPHABET ! unat (sextet k n)"

text \<open>The loop over \<open>input.chunks(3)\<close>; a short last chunk reads 0 for its missing bytes.\<close>

fun base64_url_nopad :: "u8 list \<Rightarrow> string" where
  "base64_url_nopad [] = []"
| "base64_url_nopad [a] = (let n = pack_chunk a 0 0 in [symbol 18 n, symbol 12 n])"
| "base64_url_nopad [a, b] = (let n = pack_chunk a b 0 in [symbol 18 n, symbol 12 n, symbol 6 n])"
| "base64_url_nopad (a # b # c # rest) =
     (let n = pack_chunk a b c
      in symbol 18 n # symbol 12 n # symbol 6 n # symbol 0 n # base64_url_nopad rest)"

definition random_id :: "u8 list \<Rightarrow> string" where
  "random_id bytes = hex_encode (take 16 bytes)"

definition checkout_token :: "u8 list \<Rightarrow> string" where
  "checkout_token bytes = base64_url_nopad (take 32 bytes)"

text \<open>\<open>slice_eq\<close> is the \<open>subtle\<close> crate's comparison of equally long slices.\<close>

definition ct_eq :: "(u8 list \<Rightarrow> u8 list \<Rightarrow> bool) \<Rightarrow> u8 list \<Rightarrow> u8 list \<Rightarrow> bool" where
  "ct_eq slice_eq a b \<longleftrightarrow> length a = length b \<and> slice_eq a b"

subsection \<open>Encoding loses nothing\<close>

lemma bit_sextet: "bit (sextet k n) j \<longleftrightarrow> j < 6 \<and> bit n (k + j)"
proof -
  have m: "(0x3f :: u32) = mask 6" by (simp add: mask_eq_exp_minus_1)
  show ?thesis
    unfolding sextet_def m by (auto simp: bit_and_iff bit_drop_bit_eq bit_mask_iff dest: bit_imp_le_length)
qed

lemma sextet_less: "unat (sextet k n) < 64"
proof -
  have m: "(0x3f :: u32) = mask 6" by (simp add: mask_eq_exp_minus_1)
  have "unat (take_bit 6 (drop_bit k n)) < 2 ^ 6"
    unfolding unsigned_take_bit_eq by (rule take_bit_nat_less_exp)
  then show ?thesis by (simp add: sextet_def m flip: take_bit_eq_mask)
qed

lemma alphabet_length: "length ALPHABET = 64"
  by (simp add: ALPHABET_def)

lemma alphabet_distinct: "distinct ALPHABET"
  by code_simp

lemma symbol_inj: "symbol k m = symbol k n \<longleftrightarrow> sextet k m = sextet k n"
  using alphabet_distinct sextet_less [of k m] sextet_less [of k n]
  by (auto simp: symbol_def nth_eq_iff_index_eq alphabet_length simp flip: word_unat_eq_iff)

lemma symbol_alphabet: "symbol k n \<in> set ALPHABET"
  using sextet_less [of k n] by (simp add: symbol_def alphabet_length)

lemma bit_pack:
  "bit (pack_chunk b0 b1 b2) i \<longleftrightarrow>
     (if i < 8 then bit b2 i else if i < 16 then bit b1 (i - 8) else if i < 24 then bit b0 (i - 16) else False)"
  by (auto simp: pack_chunk_def bit_or_iff bit_push_bit_iff bit_ucast_iff dest: bit_imp_le_length)

lemma sextet_bits:
  assumes "sextet k m = sextet k n" "k \<le> i" "i < k + 6"
  shows "bit m i \<longleftrightarrow> bit n i"
  using assms bit_sextet [of k m "i - k"] bit_sextet [of k n "i - k"] by auto

lemma byte_eqI: "(\<And>i. i < 8 \<Longrightarrow> bit a i = bit b i) \<Longrightarrow> a = (b :: u8)"
  by (rule bit_word_eqI) simp

lemma pack_first:
  assumes "sextet 18 (pack_chunk a b c) = sextet 18 (pack_chunk a' b' c')"
    and "sextet 12 (pack_chunk a b c) = sextet 12 (pack_chunk a' b' c')"
  shows "a = a'"
proof (rule byte_eqI)
  fix i :: nat assume "i < 8"
  then show "bit a i = bit a' i"
    using sextet_bits [OF assms(1), of "i + 16"] sextet_bits [OF assms(2), of "i + 16"]
    by (cases "i < 2") (simp_all add: bit_pack)
qed

lemma pack_second:
  assumes "sextet 12 (pack_chunk a b c) = sextet 12 (pack_chunk a' b' c')"
    and "sextet 6 (pack_chunk a b c) = sextet 6 (pack_chunk a' b' c')"
  shows "b = b'"
proof (rule byte_eqI)
  fix i :: nat assume "i < 8"
  then show "bit b i = bit b' i"
    using sextet_bits [OF assms(1), of "i + 8"] sextet_bits [OF assms(2), of "i + 8"]
    by (cases "i < 4") (simp_all add: bit_pack)
qed

lemma pack_third:
  assumes "sextet 6 (pack_chunk a b c) = sextet 6 (pack_chunk a' b' c')"
    and "sextet 0 (pack_chunk a b c) = sextet 0 (pack_chunk a' b' c')"
  shows "c = c'"
proof (rule byte_eqI)
  fix i :: nat assume "i < 8"
  then show "bit c i = bit c' i"
    using sextet_bits [OF assms(1), of i] sextet_bits [OF assms(2), of i]
    by (cases "i < 6") (simp_all add: bit_pack)
qed

lemma base64_length: "length (base64_url_nopad xs) = (4 * length xs + 2) div 3"
  by (induction xs rule: base64_url_nopad.induct) (simp_all add: Let_def)

lemma base64_alphabet: "set (base64_url_nopad xs) \<subseteq> set ALPHABET"
  by (induction xs rule: base64_url_nopad.induct) (simp_all add: Let_def symbol_alphabet)

lemma base64_inj: "base64_url_nopad xs = base64_url_nopad ys \<Longrightarrow> xs = ys"
proof (induction xs arbitrary: ys rule: base64_url_nopad.induct)
  case 1
  then show ?case by (cases ys rule: base64_url_nopad.cases) (simp_all add: Let_def)
next
  case (2 a)
  then show ?case
    by (cases ys rule: base64_url_nopad.cases) (auto simp: Let_def symbol_inj dest: pack_first)
next
  case (3 a b)
  then show ?case
    by (cases ys rule: base64_url_nopad.cases) (auto simp: Let_def symbol_inj dest: pack_first pack_second)
next
  case (4 a b c rest)
  then show ?case
    by (cases ys rule: base64_url_nopad.cases)
       (auto simp: Let_def symbol_inj dest: pack_first pack_second pack_third)
qed

text \<open>A checkout token is a faithful capability: it is 43 URL-safe characters, and two tokens are
  equal only when all 256 drawn bits are, so no entropy is lost in the encoding.\<close>

lemma checkout_token_faithful:
  assumes "length xs = 32" "length ys = 32"
  shows "length (checkout_token xs) = 43 \<and> set (checkout_token xs) \<subseteq> set ALPHABET \<and>
    (checkout_token xs = checkout_token ys \<longleftrightarrow> xs = ys)"
  using assms base64_inj [of xs ys] base64_length [of xs] base64_alphabet [of xs]
  by (auto simp: checkout_token_def)

lemma random_id_inj:
  "length xs = 16 \<Longrightarrow> length ys = 16 \<Longrightarrow> random_id xs = random_id ys \<longleftrightarrow> xs = ys"
  using hex_encode_inj by (auto simp: random_id_def)

lemma known_vectors:
  "base64_url_nopad [0x66, 0x6f, 0x6f] = ''Zm9v''" "base64_url_nopad [0x66] = ''Zg''"
  by (simp_all add: Let_def symbol_def sextet_def pack_chunk_def ALPHABET_def)

end
