(* ===== verification/Rates.thy ===== *)
theory Rates
  imports Json
begin

text \<open>
  \<open>crates/gp-core/src/rates.rs\<close>: the price oracle. Instants and durations are nanoseconds;
  the HTTP client, the JSON parser, Unicode lowercasing (\<open>lower\<close>) and the shortest decimal of a
  double (\<open>show_f64\<close>, used in error texts) are parameters. The cache mutex serialises the
  accesses; it is never poisoned because nothing panics while holding it.
\<close>

subsection \<open>Errors and quotes\<close>

datatype rate_error =
  UnsupportedCurrency string | BadAmount string | SourceUnavailable string | RateConfig string

definition show_rate_error :: "rate_error \<Rightarrow> string" where
  "show_rate_error e =
     (case e of
        UnsupportedCurrency c \<Rightarrow> ''currency `'' @ c @ ''` is not enabled (see GP_RATE_CURRENCIES)''
      | BadAmount a \<Rightarrow> ''fiat amount `'' @ a @ ''` is not a valid decimal''
      | SourceUnavailable m \<Rightarrow> ''price oracle unavailable: '' @ m
      | RateConfig m \<Rightarrow> ''rate oracle misconfigured: '' @ m)"

record quote =
  q_nanogrin :: u64
  q_currency :: string
  q_fiat_per_grin :: f64
  q_source :: string
  q_stale :: bool

subsection \<open>Conversion\<close>

definition parse_fiat_amount :: "string \<Rightarrow> rate_error + f64" where
  "parse_fiat_amount amount =
     (case parse_f64 (trim amount) of
        None \<Rightarrow> Inl (BadAmount amount)
      | Some v \<Rightarrow> if \<not> is_finite v \<or> is_neg v then Inl (BadAmount amount) else Inr v)"

text \<open>\<open>fiat_per_grin <= 0.0\<close> on a finite value.\<close>

definition fiat_to_nanogrin :: "(f64 \<Rightarrow> string) \<Rightarrow> f64 \<Rightarrow> f64 \<Rightarrow> rate_error + u64" where
  "fiat_to_nanogrin show_f64 fiat rate =
     (if \<not> is_finite rate \<or> \<not> greater_lit rate 0
      then Inl (SourceUnavailable (''non-positive rate '' @ show_f64 rate))
      else if \<not> is_finite fiat \<or> is_neg fiat then Inl (BadAmount (show_f64 fiat))
      else
        let nano = fround (fmul (fdiv fiat rate) (Fin 1000000000)) in
        if \<not> is_finite nano \<or> is_neg nano \<or> greater_lit nano (2 ^ 64)
        then Inl (BadAmount (''amount '' @ show_f64 fiat @ '' at rate '' @ show_f64 rate @ '' overflows nanogrin''))
        else Inr (as_u64_sat nano))"

definition format_rate :: "f64 \<Rightarrow> string" where
  "format_rate rate =
     (let trimmed = trim_end_matches (CHR ''.'') (trim_end_matches (CHR ''0'') (format_10 rate))
      in if trimmed = [] then ''0'' else trimmed)"

definition COINGECKO_GRIN_ID :: string where "COINGECKO_GRIN_ID = ''grin''"
definition COINGECKO_BASE :: string where
  "COINGECKO_BASE = ''https://api.coingecko.com/api/v3/simple/price''"

definition parse_coingecko ::
  "(string \<Rightarrow> string + json) \<Rightarrow> (string \<Rightarrow> string) \<Rightarrow> string \<Rightarrow> string \<Rightarrow> rate_error + f64" where
  "parse_coingecko from_str lower body currency =
     (case from_str body of
        Inl e \<Rightarrow> Inl (SourceUnavailable (''bad JSON from coingecko: '' @ e))
      | Inr v \<Rightarrow>
          let cur = lower currency;
              price = (case get_key COINGECKO_GRIN_ID v of
                         None \<Rightarrow> None
                       | Some m \<Rightarrow> (case get_key cur m of None \<Rightarrow> None | Some p \<Rightarrow> as_f64 p))
          in (case price of
                Some p \<Rightarrow>
                  if is_finite p \<and> greater_lit p 0 then Inr p
                  else Inl (SourceUnavailable (''coingecko returned no `'' @ cur @ ''` price for grin''))
              | None \<Rightarrow> Inl (SourceUnavailable (''coingecko returned no `'' @ cur @ ''` price for grin''))))"

text \<open>\<open>saturating_add\<close> on i64.\<close>

definition sat_add_i64 :: "int \<Rightarrow> int \<Rightarrow> int" where
  "sat_add_i64 a b = max (- (2 ^ 63)) (min (2 ^ 63 - 1) (a + b))"

definition quote_valid :: "int \<Rightarrow> int \<Rightarrow> int \<Rightarrow> bool" where
  "quote_valid quoted_at ttl now \<longleftrightarrow> quoted_at \<le> now \<and> now < sat_add_i64 quoted_at ttl"

subsection \<open>The oracle\<close>

record cached_rate =
  cr_rate :: f64
  cr_fetched :: nat

record price_oracle =
  or_source :: string
  or_currencies :: "string list"
  or_cache_ttl :: nat
  or_stale_max :: nat
  or_quote_ttl :: int
  or_cache :: "string \<rightharpoonup> cached_rate"
  or_client :: bool

definition secs :: "int \<Rightarrow> nat" where
  "secs n = nat (max n 0) * 10 ^ 9"

text \<open>\<open>Oracle::from_config\<close> on the five settings it reads; \<open>built\<close> says the client was built.\<close>

definition oracle_from :: "bool \<Rightarrow> string \<Rightarrow> string list \<Rightarrow> int \<Rightarrow> int \<Rightarrow> int \<Rightarrow> price_oracle" where
  "oracle_from built source currencies cache_ttl stale_max quote_ttl =
     \<lparr>or_source = source, or_currencies = currencies, or_cache_ttl = secs cache_ttl,
      or_stale_max = secs stale_max, or_quote_ttl = quote_ttl, or_cache = Map.empty, or_client = built\<rparr>"

definition oracle_fixed :: "(string \<Rightarrow> string) \<Rightarrow> nat \<Rightarrow> string list \<Rightarrow> f64 \<Rightarrow> int \<Rightarrow> price_oracle" where
  "oracle_fixed lower now currencies rate quote_ttl =
     \<lparr>or_source = ''coingecko'', or_currencies = map lower currencies, or_cache_ttl = (2 ^ 32 - 1) * 10 ^ 9,
      or_stale_max = 0, or_quote_ttl = quote_ttl,
      or_cache = (\<lambda>c. if c \<in> set (map lower currencies) then Some \<lparr>cr_rate = rate, cr_fetched = now\<rparr> else None),
      or_client = False\<rparr>"

definition supports :: "(string \<Rightarrow> string) \<Rightarrow> price_oracle \<Rightarrow> string \<Rightarrow> bool" where
  "supports lower orc currency \<longleftrightarrow> lower currency \<in> set (or_currencies orc)"

definition is_fresh :: "nat \<Rightarrow> nat \<Rightarrow> bool" where
  "is_fresh age ttl \<longleftrightarrow> ttl \<noteq> 0 \<and> age \<le> ttl"

text \<open>The response of the GET: a request error, or a status with the body (or its read error).\<close>

type_synonym http_get = "string \<Rightarrow> string + (nat \<times> (string + string))"

definition fetch ::
  "(string \<Rightarrow> string + json) \<Rightarrow> (string \<Rightarrow> string) \<Rightarrow> http_get \<Rightarrow> price_oracle \<Rightarrow> string \<Rightarrow> rate_error + f64" where
  "fetch from_str lower http orc cur =
     (if \<not> or_client orc then Inl (SourceUnavailable ''HTTP client unavailable'')
      else
        (case http (COINGECKO_BASE @ ''?ids='' @ COINGECKO_GRIN_ID @ ''&vs_currencies='' @ cur) of
           Inl e \<Rightarrow> Inl (SourceUnavailable (''coingecko request failed: '' @ e))
         | Inr (code, body) \<Rightarrow>
             if \<not> (200 \<le> code \<and> code < 300) then Inl (SourceUnavailable (''coingecko HTTP '' @ show_nat code))
             else (case body of
                     Inl e \<Rightarrow> Inl (SourceUnavailable (''coingecko body read failed: '' @ e))
                   | Inr text \<Rightarrow> parse_coingecko from_str lower text cur)))"

definition rate_for ::
  "(string \<Rightarrow> string + json) \<Rightarrow> (string \<Rightarrow> string) \<Rightarrow> http_get \<Rightarrow> nat \<Rightarrow> string \<Rightarrow> price_oracle
   \<Rightarrow> (rate_error + f64 \<times> bool) \<times> price_oracle" where
  "rate_for from_str lower http now cur orc =
     (let live = (case fetch from_str lower http orc cur of
                    Inr rate \<Rightarrow>
                      (Inr (rate, False),
                       orc\<lparr>or_cache := (or_cache orc)(cur \<mapsto> \<lparr>cr_rate = rate, cr_fetched = now\<rparr>)\<rparr>)
                  | Inl e \<Rightarrow>
                      (case or_cache orc cur of
                         Some c \<Rightarrow>
                           if or_stale_max orc \<noteq> 0 \<and> is_fresh (now - cr_fetched c) (or_stale_max orc)
                           then (Inr (cr_rate c, True), orc) else (Inl e, orc)
                       | None \<Rightarrow> (Inl e, orc)))
      in (case or_cache orc cur of
            Some c \<Rightarrow>
              if is_fresh (now - cr_fetched c) (or_cache_ttl orc) then (Inr (cr_rate c, False), orc) else live
          | None \<Rightarrow> live))"

definition quote_amount ::
  "(string \<Rightarrow> string + json) \<Rightarrow> (string \<Rightarrow> string) \<Rightarrow> (f64 \<Rightarrow> string) \<Rightarrow> http_get \<Rightarrow> nat
   \<Rightarrow> string \<Rightarrow> string \<Rightarrow> price_oracle \<Rightarrow> (rate_error + quote) \<times> price_oracle" where
  "quote_amount from_str lower show_f64 http now fiat_amount currency orc =
     (if \<not> supports lower orc currency then (Inl (UnsupportedCurrency currency), orc)
      else (case parse_fiat_amount fiat_amount of
              Inl e \<Rightarrow> (Inl e, orc)
            | Inr amount \<Rightarrow>
                (case rate_for from_str lower http now (lower currency) orc of
                   (Inl e, orc') \<Rightarrow> (Inl e, orc')
                 | (Inr (rate, stale), orc') \<Rightarrow>
                     (case fiat_to_nanogrin show_f64 amount rate of
                        Inl e \<Rightarrow> (Inl e, orc')
                      | Inr nano \<Rightarrow>
                          (Inr \<lparr>q_nanogrin = nano, q_currency = lower currency, q_fiat_per_grin = rate,
                                q_source = or_source orc, q_stale = stale\<rparr>, orc')))))"

subsection \<open>The conversion is accurate\<close>

lemma max_u64: "w = (- 1 :: u64) \<Longrightarrow> unat w = 18446744073709551615"
  by (simp add: unsigned_minus_1_eq_mask mask_eq_exp_minus_1)

lemma as_u64_sat_int:
  assumes "0 \<le> k" "k \<le> 2 ^ 64"
  shows "\<bar>of_nat (unat (as_u64_sat (Fin (of_int k)))) - of_int k\<bar> \<le> (1 :: rat)"
proof -
  consider "k = 0" | "0 < k" "k < 2 ^ 64 - 1" | "k = 2 ^ 64 - 1" | "k = 2 ^ 64" using assms by linarith
  then show ?thesis
  proof cases
    case 2
    have "\<not> (2 ^ 64 - 1 \<le> (of_int k :: rat))"
    proof -
      have "(of_int k :: rat) < of_int (2 ^ 64 - 1)" using 2(2) by (simp only: of_int_less_iff)
      then show ?thesis by simp
    qed
    then have "as_u64_sat (Fin (of_int k)) = word_of_int k" using 2 by simp
    then have "int (unat (as_u64_sat (Fin (of_int k)))) = k" using 2 by (simp add: uint_word_of_int)
    then have "(of_nat (unat (as_u64_sat (Fin (of_int k)))) :: rat) = of_int k"
      by (metis of_int_of_nat_eq)
    then show ?thesis by simp
  next
    case 3
    then have e: "unat (as_u64_sat (Fin (of_int k))) = 18446744073709551615" by (intro max_u64) simp
    show ?thesis unfolding e using 3 by simp
  next
    case 4
    then have e: "unat (as_u64_sat (Fin (of_int k))) = 18446744073709551615" by (intro max_u64) simp
    show ?thesis unfolding e using 4 by simp
  qed simp
qed

lemma relative_error_twice:
  fixes x y z u :: rat
  assumes "\<bar>y - x\<bar> \<le> x * u" "\<bar>z - y * c\<bar> \<le> y * c * u" "0 < x" "0 < c" "0 \<le> u"
  shows "\<bar>z - x * c\<bar> \<le> x * c * (2 * u + u * u)"
proof -
  have y: "y \<le> x + x * u" using assms(1) by (simp add: abs_le_iff)
  have a: "\<bar>y * c - x * c\<bar> \<le> x * u * c"
    using mult_right_mono [OF assms(1), of c] assms(4) by (simp add: abs_mult left_diff_distrib [symmetric])
  have "y * c * u \<le> (x + x * u) * c * u" using y assms(4,5) by (intro mult_right_mono) auto
  then have b: "\<bar>z - y * c\<bar> \<le> (x + x * u) * c * u" using assms(2) by simp
  have "\<bar>z - x * c\<bar> \<le> \<bar>z - y * c\<bar> + \<bar>y * c - x * c\<bar>" by simp
  also have "\<dots> \<le> (x + x * u) * c * u + x * u * c" using a b by simp
  also have "\<dots> = x * c * (2 * u + u * u)" by (simp add: algebra_simps)
  finally show ?thesis .
qed

text \<open>C26: the Grin amount an invoice is locked at is the exact fiat quotient up to rounding: within
  one and a half nanogrin plus two units in the 52nd bit, for every finite amount and rate whose
  quotient is a normal double.\<close>

theorem fiat_conversion_accurate:
  assumes "fiat_to_nanogrin show_f64 (Fin f) (Fin r) = Inr n" "pow2 (- 1022) \<le> f / r"
  shows "\<bar>of_nat (unat n) - f / r * 10 ^ 9\<bar> \<le> 3 / 2 + f / r * 10 ^ 9 / 2 ^ 51"
proof -
  define x where "x = f / r"
  let ?u = "1 / 2 ^ 53 :: rat"
  have lo: "pow2 (- 1022) \<le> x" using assms(2) by (simp add: x_def)
  then have x0: "0 < x" using pow2_pos [of "- 1022"] by linarith
  have r0: "0 < r" using assms(1) by (auto simp: fiat_to_nanogrin_def greater_lit_def split: if_splits)
  let ?nano = "fround (fmul (round_dbl x) (Fin 1000000000))"
  have nano: "is_finite ?nano" "\<not> is_neg ?nano" "\<not> greater_lit ?nano (2 ^ 64)" "n = as_u64_sat ?nano"
    using assms(1) r0 by (auto simp: fiat_to_nanogrin_def Let_def x_def split: if_splits)
  obtain y where y: "round_dbl x = Fin y"
    using nano(1) by (cases "round_dbl x") (auto simp: is_finite_def)
  have ye: "\<bar>y - x\<bar> \<le> x * ?u"
    using round_dbl_error [OF x0 _ y] ilog2_ge [OF lo] by simp
  obtain z where z: "round_dbl (y * 1000000000) = Fin z"
    using nano(1) y by (cases "round_dbl (y * 1000000000)") (auto simp: is_finite_def)
  have half: "x / 2 \<le> y"
  proof -
    have "x * ?u \<le> x / 2" using x0 by (simp add: divide_le_cancel)
    then show ?thesis using ye by (simp only: abs_le_iff) linarith
  qed
  then have "pow2 (- 1022) \<le> y * 1000000000" using lo x0 by linarith
  then have lz: "- 1022 \<le> ilog2 (y * 1000000000)" by (rule ilog2_ge)
  have y0: "0 < y" using half x0 by linarith
  have ze: "\<bar>z - y * 1000000000\<bar> \<le> y * 1000000000 * ?u"
    using round_dbl_error [OF _ lz z] y0 by simp
  have zx: "\<bar>z - x * 1000000000\<bar> \<le> x * 1000000000 * (2 * ?u + ?u * ?u)"
    by (rule relative_error_twice [OF ye ze x0]) simp_all
  have z0: "0 \<le> z" using round_dbl_nonneg [OF _ z] y0 by simp
  obtain w where w: "fround (Fin z) = Fin w" by simp
  obtain k where k: "w = of_int k" "\<bar>w - z\<bar> \<le> 1 / 2" using fround_error [OF w z0] by blast
  have nanow: "?nano = Fin w" using y z w by simp
  have "0 \<le> k" "k \<le> 2 ^ 64"
  proof -
    have "\<not> of_int k < (0 :: rat)" using nano(2) nanow k(1) by (simp add: is_neg_def less_lit_def)
    then show "0 \<le> k" by simp
    have "\<not> (2 ^ 64 < (of_int k :: rat))" using nano(3) nanow k(1) by (simp add: greater_lit_def)
    then have "(of_int k :: rat) \<le> of_int (2 ^ 64)" by simp
    then show "k \<le> 2 ^ 64" by (simp only: of_int_le_iff)
  qed
  then have "\<bar>of_nat (unat n) - w\<bar> \<le> 1"
    using as_u64_sat_int [of k] nano(4) nanow k(1) by simp
  with k(2) have "\<bar>of_nat (unat n) - z\<bar> \<le> 3 / 2" by (simp only: abs_le_iff) linarith
  moreover have "x * 1000000000 * (2 * ?u + ?u * ?u) \<le> x * 1000000000 * (1 / 2 ^ 51)"
    using x0 by (intro mult_left_mono) simp_all
  ultimately have "\<bar>of_nat (unat n) - x * 1000000000\<bar> \<le> 3 / 2 + x * 1000000000 * (1 / 2 ^ 51)"
    using zx by (simp only: abs_le_iff) linarith
  then show ?thesis by (simp add: x_def)
qed

text \<open>A concrete quote, used by the example: 19 units of fiat at 4 per Grin.\<close>

lemma round_dbl_quarter: "round_dbl (19 / 4) = Fin (19 / 4)"
proof -
  have "ilog2 (19 / 4) = 2" by (rule ilog2_eq) (simp_all add: pow2_def)
  then show ?thesis by (simp add: round_dbl_def round_half_even_def pow2_def Let_def)
qed

lemma round_dbl_product: "round_dbl 4750000000 = Fin 4750000000"
proof -
  have "ilog2 4750000000 = 32" by (rule ilog2_eq) (simp_all add: pow2_def)
  then show ?thesis by (simp add: round_dbl_def round_half_even_def pow2_def Let_def)
qed

theorem fiat_conversion_accurate_witness:
  "\<bar>of_nat (unat (4750000000 :: u64)) - 19 / 4 * 10 ^ 9\<bar> \<le> 3 / 2 + 19 / 4 * 10 ^ 9 / (2 ^ 51 :: rat)"
proof (rule fiat_conversion_accurate [of "\<lambda>_. []"])
  have "\<lfloor>4750000000 + 1 / 2 :: rat\<rfloor> = 4750000000" by linarith
  then show "fiat_to_nanogrin (\<lambda>_. []) (Fin 19) (Fin 4) = Inr 4750000000"
    by (simp add: fiat_to_nanogrin_def round_dbl_quarter round_dbl_product is_finite_def is_neg_def less_lit_def
        greater_lit_def Let_def)
  show "pow2 (- 1022) \<le> 19 / 4" using pow2_mono [of "- 1022" 0] by (simp add: pow2_def)
qed

text \<open>The guard on the upper end compares with the double \<open>2 ^ 64\<close>, one more than the largest u64.\<close>

lemma round_dbl_boundary:
  "round_dbl (18446744073709551616 / 1000000000) = Fin (4835703278458517 / 262144)"
  "round_dbl (4835703278458517 / 262144 * 1000000000) = Fin 18446744073709551616"
proof -
  have "ilog2 (18446744073709551616 / 1000000000) = 34" by (rule ilog2_eq) (simp_all add: pow2_def)
  moreover have "\<lfloor>9444732965739290427392 / 1953125 :: rat\<rfloor> = 4835703278458516" by (rule floor_unique) simp_all
  ultimately show "round_dbl (18446744073709551616 / 1000000000) = Fin (4835703278458517 / 262144)"
    by (simp add: round_dbl_def round_half_even_def pow2_def Let_def)
  have "ilog2 (4835703278458517 / 262144 * 1000000000) = 64" by (rule ilog2_eq) (simp_all add: pow2_def)
  moreover have "\<lfloor>9444732965739291015625 / 2097152 :: rat\<rfloor> = 4503599627370496" by (rule floor_unique) simp_all
  ultimately show "round_dbl (4835703278458517 / 262144 * 1000000000) = Fin 18446744073709551616"
    by (simp add: round_dbl_def round_half_even_def pow2_def Let_def)
qed

lemma overflow_guard_off_by_one:
  "fiat_to_nanogrin show_f64 (Fin (2 ^ 64)) (Fin 1000000000) = Inr (- 1)"
proof -
  have "fmul (fdiv (Fin (2 ^ 64)) (Fin 1000000000)) (Fin 1000000000) = Fin (2 ^ 64)"
    using round_dbl_boundary by simp
  moreover have "\<lfloor>18446744073709551616 + 1 / 2 :: rat\<rfloor> = 18446744073709551616" by (rule floor_unique) simp_all
  ultimately show ?thesis
    unfolding fiat_to_nanogrin_def
    by (simp add: is_finite_def is_neg_def less_lit_def greater_lit_def Let_def)
qed

subsection \<open>Which rate the oracle serves\<close>

text \<open>A served rate is always accounted for: either the fresh cached one, or the one just
  fetched (which is then cached at this instant), or, flagged stale and only when the fetch failed
  and the operator allows it, a cached one no older than the bound. The cache is otherwise
  unchanged; when none applies the caller gets the fetch's error.\<close>

lemma served_rate_accounted:
  assumes "rate_for from_str lower http now cur orc = (res, orc')"
  shows "(case res of
      Inr (rate, stale) \<Rightarrow>
        (\<not> stale \<and> orc' = orc \<and> (\<exists>c. or_cache orc cur = Some c \<and> cr_rate c = rate \<and>
            0 < or_cache_ttl orc \<and> now - cr_fetched c \<le> or_cache_ttl orc)) \<or>
        (\<not> stale \<and> fetch from_str lower http orc cur = Inr rate \<and>
            orc' = orc\<lparr>or_cache := (or_cache orc)(cur \<mapsto> \<lparr>cr_rate = rate, cr_fetched = now\<rparr>)\<rparr>) \<or>
        (stale \<and> orc' = orc \<and> (\<exists>e. fetch from_str lower http orc cur = Inl e) \<and>
            (\<exists>c. or_cache orc cur = Some c \<and> cr_rate c = rate \<and>
                 0 < or_stale_max orc \<and> now - cr_fetched c \<le> or_stale_max orc))
    | Inl e \<Rightarrow> orc' = orc \<and> fetch from_str lower http orc cur = Inl e)"
  using assms
  by (auto simp: rate_for_def is_fresh_def Let_def split: option.splits sum.splits if_splits)

text \<open>Every rate that enters the cache is finite and positive.\<close>

definition oracle_wf :: "price_oracle \<Rightarrow> bool" where
  "oracle_wf orc \<longleftrightarrow> (\<forall>cur c. or_cache orc cur = Some c \<longrightarrow> is_finite (cr_rate c) \<and> greater_lit (cr_rate c) 0)"

lemma parse_coingecko_positive:
  "parse_coingecko from_str lower body cur = Inr p \<Longrightarrow> is_finite p \<and> greater_lit p 0"
  by (auto simp: parse_coingecko_def Let_def split: sum.splits option.splits if_splits)

lemma fetch_positive: "fetch from_str lower http orc cur = Inr p \<Longrightarrow> is_finite p \<and> greater_lit p 0"
  by (auto simp: fetch_def parse_coingecko_positive split: if_splits sum.splits prod.splits)

lemma rate_for_positive:
  assumes "oracle_wf orc" "rate_for from_str lower http now cur orc = (res, orc')"
  shows "oracle_wf orc' \<and> (\<forall>rate stale. res = Inr (rate, stale) \<longrightarrow> is_finite rate \<and> greater_lit rate 0)"
  using assms fetch_positive [of from_str lower http orc cur]
  by (auto simp: rate_for_def oracle_wf_def Let_def split: option.splits sum.splits if_splits)

lemma oracle_wf_from: "oracle_wf (oracle_from built source currencies cache_ttl stale_max quote_ttl)"
  by (simp add: oracle_wf_def oracle_from_def)

text \<open>A quote fails before any network traffic when the currency is not enabled or the amount is
  malformed, and a quote that succeeds was made at a finite positive rate; the oracle keeps
  holding only such rates.\<close>

lemma quote_uses_positive_rate:
  assumes "oracle_wf orc"
    and "quote_amount from_str lower show_f64 http now amount cur orc = (res, orc')"
  shows "oracle_wf orc' \<and>
    (\<forall>q. res = Inr q \<longrightarrow> lower cur \<in> set (or_currencies orc) \<and> is_finite (q_fiat_per_grin q) \<and>
        greater_lit (q_fiat_per_grin q) 0 \<and>
        (\<exists>a. parse_fiat_amount amount = Inr a \<and>
             fiat_to_nanogrin show_f64 a (q_fiat_per_grin q) = Inr (q_nanogrin q))) \<and>
    (lower cur \<notin> set (or_currencies orc) \<or> (\<exists>e. parse_fiat_amount amount = Inl e) \<longrightarrow>
        orc' = orc \<and> (\<forall>http'. quote_amount from_str lower show_f64 http' now amount cur orc = (res, orc)))"
proof (intro conjI)
  show "oracle_wf orc'"
    using assms rate_for_positive [OF assms(1)]
    by (auto simp: quote_amount_def split: if_splits sum.splits prod.splits)
  show "\<forall>q. res = Inr q \<longrightarrow> lower cur \<in> set (or_currencies orc) \<and> is_finite (q_fiat_per_grin q) \<and>
        greater_lit (q_fiat_per_grin q) 0 \<and>
        (\<exists>a. parse_fiat_amount amount = Inr a \<and>
             fiat_to_nanogrin show_f64 a (q_fiat_per_grin q) = Inr (q_nanogrin q))"
    using assms(2) rate_for_positive [OF assms(1)]
    by (auto simp: quote_amount_def supports_def split: if_splits sum.splits prod.splits)
  show "lower cur \<notin> set (or_currencies orc) \<or> (\<exists>e. parse_fiat_amount amount = Inl e) \<longrightarrow>
        orc' = orc \<and> (\<forall>http'. quote_amount from_str lower show_f64 http' now amount cur orc = (res, orc))"
    using assms(2) by (auto simp: quote_amount_def supports_def split: if_splits)
qed

end
