(* ===== verification/InvoiceApi.thy ===== *)
theory InvoiceApi
  imports Checkout Ids Rates
begin

text \<open>
  \<open>crates/gp-server/src/invoices.rs\<close>, \<open>auth.rs\<close> and \<open>crates/gp-core/src/store.rs\<close>: bearer
  authorization, the store connector seam, and the connector API that creates and reads
  invoices, with pricing by the oracle and arming on the grin1 rail.
\<close>

subsection \<open>Authorization\<close>

text \<open>\<open>header\<close> is the Authorization header, if present and readable as text.\<close>

definition strip_prefix :: "string \<Rightarrow> string \<Rightarrow> string option" where
  "strip_prefix pat s = (if starts_with pat s then Some (drop (length pat) s) else None)"

definition bearer :: "string option \<Rightarrow> string option" where
  "bearer header =
     (case header of
        None \<Rightarrow> None
      | Some v \<Rightarrow>
          map_option trim
            (case strip_prefix ''Bearer '' v of Some t \<Rightarrow> Some t | None \<Rightarrow> strip_prefix ''bearer '' v))"

definition authorized :: "(u8 list \<Rightarrow> u8 list \<Rightarrow> bool) \<Rightarrow> string option \<Rightarrow> string option \<Rightarrow> bool" where
  "authorized slice_eq header expected =
     (case (expected, bearer header) of
        (Some e, Some g) \<Rightarrow> ct_eq slice_eq (bytes_of g) (bytes_of e)
      | _ \<Rightarrow> False)"

subsection \<open>Store connectors\<close>

record create_invoice_request =
  req_order_ref :: "string option"
  req_amount :: amount_spec
  req_memo :: "string option"
  req_match_mode :: "match_mode_t option"
  req_expiry_secs :: "int option"

definition default_new_invoice :: "create_invoice_request \<Rightarrow> new_invoice" where
  "default_new_invoice r =
     \<lparr>ni_order_ref = req_order_ref r, ni_amount = req_amount r, ni_memo = req_memo r,
      ni_match_mode = req_match_mode r, ni_expiry_secs = req_expiry_secs r\<rparr>"

record rest_connector =
  rc_webhook_url :: "string option"

definition rest_id :: "rest_connector \<Rightarrow> string" where
  "rest_id c = ''rest''"

definition rest_new_invoice :: "rest_connector \<Rightarrow> create_invoice_request \<Rightarrow> new_invoice" where
  "rest_new_invoice c r = default_new_invoice r"

subsection \<open>Pricing\<close>

datatype api_reply =
    Unauthorized
  | Unavailable string
  | BadRequest string
  | BadGateway string
  | ServerError string
  | NotFound
  | CheckoutJson checkout_info int int

definition rate_error_response :: "rate_error \<Rightarrow> api_reply" where
  "rate_error_response e =
     (case e of
        UnsupportedCurrency _ \<Rightarrow> BadRequest (show_rate_error e)
      | BadAmount _ \<Rightarrow> BadRequest (show_rate_error e)
      | SourceUnavailable _ \<Rightarrow> BadGateway (show_rate_error e)
      | RateConfig _ \<Rightarrow> ServerError (show_rate_error e))"

text \<open>\<open>quote_op\<close> is \<open>oracle.quote\<close>: \<open>quote_amount\<close> of the oracle's theory with its parameters.\<close>

type_synonym quote_op = "string \<Rightarrow> string \<Rightarrow> price_oracle \<Rightarrow> (rate_error + quote) \<times> price_oracle"

definition clamp_expiry :: "int \<Rightarrow> int option \<Rightarrow> int" where
  "clamp_expiry ttl requested =
     (case requested of Some s \<Rightarrow> if 0 < s \<and> s < ttl then s else ttl | None \<Rightarrow> ttl)"

definition price_if_fiat :: "quote_op \<Rightarrow> new_invoice \<Rightarrow> price_oracle \<Rightarrow> (api_reply + new_invoice) \<times> price_oracle" where
  "price_if_fiat quote_op p orc =
     (case ni_amount p of
        Fiat amount currency \<Rightarrow>
          (case quote_op amount currency orc of
             (Inr q, orc') \<Rightarrow>
               (Inr (p\<lparr>ni_expiry_secs := Some (clamp_expiry (or_quote_ttl orc) (ni_expiry_secs p)),
                       ni_amount := FiatQuoted amount currency (q_nanogrin q) (format_rate (q_fiat_per_grin q)) (q_source q)\<rparr>), orc')
           | (Inl e, orc') \<Rightarrow> (Inl (rate_error_response e), orc'))
      | _ \<Rightarrow> (Inr p, orc))"

subsection \<open>The grin1 rail\<close>

text \<open>\<open>blocking\<close> runs the issue on the blocking pool (a panic is its left answer).\<close>

definition arm_grin1_rail ::
  "('w, 's, 'v, 'n) backend \<Rightarrow> ((wallet_error + issued) \<times> 'w \<Rightarrow> (string + (wallet_error + issued)) \<times> 'w)
   \<Rightarrow> config \<Rightarrow> int \<Rightarrow> invoice \<Rightarrow> 'w option \<Rightarrow> 'b db \<Rightarrow> invoice \<times> 'w option \<times> 'b db" where
  "arm_grin1_rail b blocking cfg now i wallet d =
     (if \<not> grin1_rail cfg then (i, wallet, d)
      else (case (wallet, expected_amount i) of
              (Some w, Some nano) \<Rightarrow>
                if nano \<le> 0 then (i, wallet, d)
                else (case blocking (issue_invoice b (as_u64 nano) w) of
                        (Inr (Inr iss), w') \<Rightarrow>
                          (case get now (inv_id i) (attach_grin1 (inv_id i) (iss_slate_id iss) (iss_i1_armor iss) d) of
                             (Some r, d') \<Rightarrow> (r, Some w', d')
                           | (None, d') \<Rightarrow> (i, Some w', d'))
                      | (_, w') \<Rightarrow> (i, Some w', d))
            | _ \<Rightarrow> (i, wallet, d)))"

subsection \<open>The handlers\<close>

record create_body =
  cb_order_ref :: "string option"
  cb_amount_grin :: "u64 option"
  cb_amount_fiat :: "string option"
  cb_currency :: "string option"
  cb_memo :: "string option"
  cb_match_mode :: "string option"
  cb_expiry_secs :: "int option"

definition parse_mode :: "string \<Rightarrow> match_mode_t option" where
  "parse_mode s =
     (if s = ''memo'' then Some MemoMode else if s = ''derived'' then Some DerivedMode
      else if s = ''amount'' then Some AmountMode else None)"

definition body_amount :: "create_body \<Rightarrow> amount_spec option" where
  "body_amount body =
     (case (cb_amount_grin body, cb_amount_fiat body, cb_currency body) of
        (Some nano, _, _) \<Rightarrow> Some (Grin nano)
      | (None, Some amount, Some currency) \<Rightarrow> Some (Fiat amount currency)
      | _ \<Rightarrow> None)"

definition body_mode :: "create_body \<Rightarrow> api_reply + match_mode_t option" where
  "body_mode body =
     (case cb_match_mode body of
        None \<Rightarrow> Inr None
      | Some m \<Rightarrow> (case parse_mode m of
                     Some mode \<Rightarrow> Inr (Some mode)
                   | None \<Rightarrow> Inl (BadRequest ''match_mode must be memo, derived, or amount'')))"

text \<open>What the rest of the server supplies to a request: clock, fresh id and token, keys, wallet.\<close>

record ('w, 's, 'v, 'n, 'pk) api_env =
  env_slice_eq :: "u8 list \<Rightarrow> u8 list \<Rightarrow> bool"
  env_nostr :: "'pk nostr_sdk"
  env_svg :: "string \<Rightarrow> logo \<Rightarrow> string option"
  env_shift :: "int \<Rightarrow> int \<Rightarrow> int option"
  env_quote :: quote_op
  env_backend :: "('w, 's, 'v, 'n) backend"
  env_blocking :: "(wallet_error + issued) \<times> 'w \<Rightarrow> (string + (wallet_error + issued)) \<times> 'w"

text \<open>\<open>signer\<close> is the identity: its public key and the derivation of a per-invoice public key.\<close>

definition create_invoice ::
  "('w, 's, 'v, 'n, 'pk) api_env \<Rightarrow> config \<Rightarrow> (string \<times> (string \<Rightarrow> string)) option \<Rightarrow> string option \<Rightarrow> create_body
   \<Rightarrow> string \<Rightarrow> string \<Rightarrow> int \<Rightarrow> int \<Rightarrow> int \<Rightarrow> price_oracle \<Rightarrow> 'w option \<Rightarrow> 'b db
   \<Rightarrow> api_reply \<times> price_oracle \<times> 'w option \<times> 'b db" where
  "create_invoice env cfg signer header body rid tok now now1 now2 orc wallet d =
     (if \<not> authorized (env_slice_eq env) header (api_token cfg) then (Unauthorized, orc, wallet, d)
      else (case signer of
        None \<Rightarrow> (Unavailable ''server identity not loaded (GP_INGEST=off)'', orc, wallet, d)
      | Some (master_hex, child_pub) \<Rightarrow>
          (case body_amount body of
             None \<Rightarrow> (BadRequest ''provide amount_grin, or amount_fiat + currency'', orc, wallet, d)
           | Some amount \<Rightarrow>
               (case body_mode body of
                  Inl r \<Rightarrow> (r, orc, wallet, d)
                | Inr mode \<Rightarrow>
                    let params = rest_new_invoice \<lparr>rc_webhook_url = webhook_url cfg\<rparr>
                          \<lparr>req_order_ref = cb_order_ref body, req_amount = amount, req_memo = cb_memo body,
                           req_match_mode = mode, req_expiry_secs = cb_expiry_secs body\<rparr>
                    in (case price_if_fiat (env_quote env) params orc of
                          (Inl r, orc') \<Rightarrow> (r, orc', wallet, d)
                        | (Inr p, orc') \<Rightarrow>
                            (case create (env_shift env) child_pub rid tok now now1 p master_hex (cfg_match_mode cfg) d of
                               (Inl _, d1) \<Rightarrow> (ServerError ''internal error'', orc', wallet, d1)
                             | (Inr i, d1) \<Rightarrow>
                                 (case arm_grin1_rail (env_backend env) (env_blocking env) cfg now2 i wallet d1 of
                                    (i', wallet', d2) \<Rightarrow>
                                      (CheckoutJson (build_info (env_nostr env) (env_svg env) i' cfg None None False) 0
                                         (confirmations_required cfg), orc', wallet', d2))))))))"

definition get_invoice ::
  "('w, 's, 'v, 'n, 'pk) api_env \<Rightarrow> config \<Rightarrow> string option \<Rightarrow> string \<Rightarrow> int \<Rightarrow> 'b db \<Rightarrow> api_reply \<times> 'b db" where
  "get_invoice env cfg header iid now d =
     (if \<not> authorized (env_slice_eq env) header (api_token cfg) then (Unauthorized, d)
      else (case get now iid d of
              (Some i, d') \<Rightarrow>
                (CheckoutJson (build_info (env_nostr env) (env_svg env) i cfg None None False)
                   (invoice_confirmations (inv_id i) d') (confirmations_required cfg), d')
            | (None, d') \<Rightarrow> (NotFound, d')))"

subsection \<open>Who may call\<close>

text \<open>A guarded route opens only to the configured token: it is authorized exactly when a token is
  configured and the header is \<open>Bearer\<close> (or \<open>bearer\<close>), one space, and that token up to the blanks
  around it; an unset token closes the route.\<close>

lemma authorized_exact:
  assumes "\<And>a b. length a = length b \<Longrightarrow> slice_eq a b \<longleftrightarrow> a = b"
  shows "authorized slice_eq header expected \<longleftrightarrow>
    (\<exists>e t. expected = Some e \<and> trim t = e \<and> (header = Some (''Bearer '' @ t) \<or> header = Some (''bearer '' @ t)))"
proof -
  have eq: "ct_eq slice_eq (bytes_of g) (bytes_of e) \<longleftrightarrow> g = e" for g e
    using assms bytes_of_inj by (auto simp: ct_eq_def)
  have b: "bearer (Some v) = Some g \<longleftrightarrow> (\<exists>t. trim t = g \<and> (v = ''Bearer '' @ t \<or> v = ''bearer '' @ t))" for v g
  proof
    assume "bearer (Some v) = Some g"
    then show "\<exists>t. trim t = g \<and> (v = ''Bearer '' @ t \<or> v = ''bearer '' @ t)"
      unfolding bearer_def strip_prefix_def
      by (auto simp: starts_with_iff split: if_splits option.splits)
  next
    assume "\<exists>t. trim t = g \<and> (v = ''Bearer '' @ t \<or> v = ''bearer '' @ t)"
    then show "bearer (Some v) = Some g" by (auto simp: bearer_def strip_prefix_def starts_with_def)
  qed
  show ?thesis
  proof (cases expected)
    case None
    then show ?thesis by (simp add: authorized_def)
  next
    case (Some e)
    show ?thesis
    proof (cases header)
      case None
      with Some show ?thesis by (simp add: authorized_def bearer_def)
    next
      case [simp]: (Some v)
      have "authorized slice_eq header expected \<longleftrightarrow> bearer (Some v) = Some e"
        using \<open>expected = Some e\<close> eq by (cases "bearer (Some v)") (auto simp: authorized_def)
      then show ?thesis using b \<open>expected = Some e\<close> by auto
    qed
  qed
qed

subsection \<open>A connector keeps the order's terms\<close>

text \<open>
  The contract of the seam: a connector may impose a matching mode or an expiry, but the order
  reference, the amount and the memo of the invoice are those of the store's request.
\<close>

locale store_connector =
  fixes new_invoice :: "create_invoice_request \<Rightarrow> new_invoice"
  assumes keeps_order: "ni_order_ref (new_invoice r) = req_order_ref r"
    and keeps_amount: "ni_amount (new_invoice r) = req_amount r"
    and keeps_memo: "ni_memo (new_invoice r) = req_memo r"
begin

lemma priced_terms:
  assumes "price_if_fiat qop (new_invoice r) orc = (Inr p, orc')"
  shows "ni_order_ref p = req_order_ref r \<and> ni_memo p = req_memo r \<and>
    (case req_amount r of
       Fiat a c \<Rightarrow>
         (\<exists>q. qop a c orc = (Inr q, orc') \<and>
            ni_amount p = FiatQuoted a c (q_nanogrin q) (format_rate (q_fiat_per_grin q)) (q_source q)) \<and>
         (\<exists>s. ni_expiry_secs p = Some s \<and> (0 < or_quote_ttl orc \<longrightarrow> 0 < s \<and> s \<le> or_quote_ttl orc))
     | _ \<Rightarrow> ni_amount p = req_amount r \<and> orc' = orc)"
  using assms
  by (auto simp: price_if_fiat_def keeps_order keeps_amount keeps_memo clamp_expiry_def
      split: amount_spec.splits prod.splits sum.splits option.splits)

lemma refused_price:
  assumes "price_if_fiat qop (new_invoice r) orc = (Inl e, orc')"
  shows "\<exists>a c x. req_amount r = Fiat a c \<and> qop a c orc = (Inl x, orc') \<and> e = rate_error_response x"
  using assms
  by (auto simp: price_if_fiat_def keeps_amount split: amount_spec.splits prod.splits sum.splits)

end

interpretation rest: store_connector "rest_new_invoice c" for c
  by unfold_locales (simp_all add: rest_new_invoice_def default_new_invoice_def)

subsection \<open>Creating an invoice\<close>

lemma new_row_key: "inv_id (new_row sh cp rid tok now p mp dflt) = rid"
  by (simp add: new_row_def Let_def split: prod.splits)

lemma create_cases:
  assumes "distinct (map inv_id (invoices d))" "create sh cp rid tok now now' p mp dflt d = (r, d')"
  shows "case r of
     Inl e \<Rightarrow> e = ConstraintViolation \<and> d' = d
   | Inr i \<Rightarrow> fixed_columns i = fixed_columns (new_row sh cp rid tok now p mp dflt) \<and>
       lookup_by inv_id rid (invoices d) = None \<and> lookup_by inv_id rid (invoices d') = Some i \<and>
       (\<forall>k. k \<noteq> rid \<longrightarrow> lookup_by inv_id k (invoices d') = lookup_by inv_id k (invoices d))"
proof (cases "rid \<in> inv_id ` set (invoices d) \<or> Some tok \<in> token ` set (invoices d)")
  case True
  with assms show ?thesis by (auto simp: create_def)
next
  case False
  let ?r = "new_row sh cp rid tok now p mp dflt"
  let ?d1 = "d\<lparr>invoices := invoices d @ [?r]\<rparr>"
  let ?f = "\<lambda>i. if inv_id i = rid \<and> due_at now' i then set_expired i else i"
  have none: "lookup_by inv_id rid (invoices d) = None" using False by (auto simp: lookup_by_None)
  have look: "lookup_by inv_id k (invoices (snd (get now' rid ?d1))) =
      map_option ?f (lookup_by inv_id k (invoices d @ [?r]))" for k
    by (simp add: get_def expire_if_due_id_def Let_def lookup_by_update_where set_expired_def
        del: update_where_append)
  have "lookup_by inv_id rid (invoices (snd (get now' rid ?d1))) = Some (?f ?r)"
    using look [of rid] none by (simp add: lookup_by_append new_row_key)
  moreover have "fixed_columns (?f ?r) = fixed_columns ?r" by (simp add: fixed_columns_def set_expired_def)
  moreover have "lookup_by inv_id k (invoices (snd (get now' rid ?d1))) = lookup_by inv_id k (invoices d)"
    if "k \<noteq> rid" for k
    using look [of k] that lookup_by_Some [of inv_id k "invoices d"]
    by (cases "lookup_by inv_id k (invoices d)") (auto simp: lookup_by_append new_row_key)
  moreover have "fst (get now' rid ?d1) = lookup_by inv_id rid (invoices (snd (get now' rid ?d1)))"
    by (simp add: get_def Let_def)
  ultimately show ?thesis using assms(2) False none
    by (cases "get now' rid ?d1") (auto simp: create_def)
qed

lemma create_refused:
  "distinct (map inv_id (invoices d)) \<Longrightarrow> create sh cp rid tok now now' p mp dflt d = (Inl e, d') \<Longrightarrow> d' = d"
  using create_cases [of d sh cp rid tok now now' p mp dflt "Inl e" d'] by simp

lemma arm_keeps:
  assumes "book_wf (invoices d)" "arm_grin1_rail b blk cfg now i w d = (i', w', d')"
  shows "good_step d d' \<and> (\<forall>k. k \<noteq> inv_id i \<longrightarrow> lookup_by inv_id k (invoices d') = lookup_by inv_id k (invoices d))"
proof -
  have frame: "lookup_by inv_id k (invoices (snd (get now (inv_id i) (attach_grin1 (inv_id i) s a d)))) =
      lookup_by inv_id k (invoices d)" if "k \<noteq> inv_id i" for k s a
    using that unfolding get_def Let_def expire_if_due_id_def attach_grin1_def
    by (simp add: lookup_by_update_other set_expired_def)
  have step: "good_step d (snd (get now (inv_id i) (attach_grin1 (inv_id i) s a d)))" for s a
    by (rule good_step_trans [OF good_step_attach good_step_get])
  show ?thesis using assms(2) frame step
    by (auto simp: arm_grin1_rail_def split: if_splits option.splits prod.splits sum.splits;
        metis snd_conv)
qed

text \<open>A refused request leaves nothing behind: whenever creating an invoice is answered with an error
  (no token, no identity, bad input, no price, a failed insert), no row was written and the wallet
  was not asked for a slate.\<close>

lemma refused_request_creates_nothing:
  assumes "distinct (map inv_id (invoices d))"
    and "create_invoice env cfg signer header body rid tok now now1 now2 orc w d = (r, orc', w', d')"
    and "\<nexists>info n m. r = CheckoutJson info n m"
  shows "d' = d \<and> w' = w"
  using assms(2,3)
  by (auto dest!: create_refused [OF assms(1)] simp: create_invoice_def Let_def split: if_splits option.splits sum.splits prod.splits)

lemma create_invoice_steps:
  assumes "create_invoice env cfg signer header body rid tok now now1 now2 orc w d = (CheckoutJson info n m, orc', w', d')"
  obtains master_hex child_pub amount mode p i d1 i' where
    "authorized (env_slice_eq env) header (api_token cfg)" "body_amount body = Some amount"
    "price_if_fiat (env_quote env) (rest_new_invoice \<lparr>rc_webhook_url = webhook_url cfg\<rparr>
       \<lparr>req_order_ref = cb_order_ref body, req_amount = amount, req_memo = cb_memo body,
        req_match_mode = mode, req_expiry_secs = cb_expiry_secs body\<rparr>) orc = (Inr p, orc')"
    "create (env_shift env) child_pub rid tok now now1 p master_hex (cfg_match_mode cfg) d = (Inr i, d1)"
    "arm_grin1_rail (env_backend env) (env_blocking env) cfg now2 i w d1 = (i', w', d')"
  using assms
  by (auto simp: create_invoice_def Let_def body_mode_def rate_error_response_def price_if_fiat_def
      split: if_splits option.splits sum.splits prod.splits amount_spec.splits rate_error.splits)

definition fiat_terms ::
  "quote_op \<Rightarrow> (int \<Rightarrow> int \<Rightarrow> int option) \<Rightarrow> int \<Rightarrow> price_oracle \<Rightarrow> string \<Rightarrow> string \<Rightarrow> invoice \<Rightarrow> bool" where
  "fiat_terms qop sh now orc a c j \<longleftrightarrow>
     fiat_amount j = Some a \<and> fiat_currency j = Some c \<and>
     (\<exists>q. fst (qop a c orc) = Inr q \<and> expected_amount j = Some (as_i64 (q_nanogrin q)) \<and>
        quote_rate j = Some (format_rate (q_fiat_per_grin q)) \<and> quote_source j = Some (q_source q)) \<and>
     (\<exists>s. 0 < s \<and> s \<le> or_quote_ttl orc \<and> expiry j = sh now s)"

lemma new_row_terms:
  "fixed_columns j = fixed_columns (new_row sh cp rid tok now p mp dflt) \<Longrightarrow>
     order_ref j = ni_order_ref p \<and> memo j = ni_memo p \<and> token j = Some tok \<and>
     expiry j = (case ni_expiry_secs p of None \<Rightarrow> None | Some s \<Rightarrow> sh now s) \<and>
     (case ni_amount p of
        Grin n \<Rightarrow> expected_amount j = Some (as_i64 n) \<and> fiat_amount j = None
      | Fiat a c \<Rightarrow> expected_amount j = None
      | FiatQuoted a c n rt src \<Rightarrow> expected_amount j = Some (as_i64 n) \<and> fiat_amount j = Some a \<and>
          fiat_currency j = Some c \<and> quote_rate j = Some rt \<and> quote_source j = Some src)"
  by (auto simp: fixed_columns_def new_row_def amount_columns_def Let_def split: amount_spec.splits prod.splits)


subsection \<open>A sample request\<close>

definition sample_nostr :: "string nostr_sdk" where
  "sample_nostr =
     \<lparr>pk_from_hex = (\<lambda>s. if s = [] then None else Some s), pk_from_bech32 = (\<lambda>_. None),
      pk_bech32 = (\<lambda>k. Some (''npub1'' @ k)), relay_parses = (\<lambda>_. True),
      profile_bech32 = (\<lambda>k _. Some (''nprofile1'' @ k))\<rparr>"

definition sample_quote_op :: quote_op where
  "sample_quote_op a c orc =
     (Inr \<lparr>q_nanogrin = 5000, q_currency = c, q_fiat_per_grin = Fin 1, q_source = ''coingecko'', q_stale = False\<rparr>, orc)"

definition sample_env ::
  "(string list, string \<times> slate_state \<times> u64, string \<times> slate_state \<times> u64, unit, string) api_env" where
  "sample_env =
     \<lparr>env_slice_eq = (\<lambda>a b. a = b), env_nostr = sample_nostr, env_svg = (\<lambda>s _. Some s),
      env_shift = (\<lambda>now s. Some (now + s)), env_quote = sample_quote_op, env_backend = sample_backend,
      env_blocking = (\<lambda>(r, w). (Inr r, w))\<rparr>"

definition sample_oracle :: price_oracle where
  "sample_oracle =
     \<lparr>or_source = ''coingecko'', or_currencies = [''usd''], or_cache_ttl = 0, or_stale_max = 0,
      or_quote_ttl = 900, or_cache = Map.empty, or_client = False\<rparr>"

definition api_config :: config where
  "api_config = default_config\<lparr>api_token := Some ''tok'', grin1_rail := True\<rparr>"

definition sample_body :: create_body where
  "sample_body =
     \<lparr>cb_order_ref = Some ''order-1'', cb_amount_grin = Some 700, cb_amount_fiat = None, cb_currency = None,
      cb_memo = Some ''tea'', cb_match_mode = None, cb_expiry_secs = None\<rparr>"

definition created :: "api_reply \<times> price_oracle \<times> string list option \<times> string db" where
  "created = create_invoice sample_env api_config (Some (''master'', \<lambda>i. ''child-'' @ i)) (Some ''Bearer tok'')
     sample_body ''new'' ''tt'' 10 10 11 sample_oracle (Some []) sample_db"


lemma created_on_rail:
  "map rail (invoices (snd (snd (snd created)))) = [None, None, Some ''grin1''] \<and>
   fst (snd (snd created)) = Some [''sl'']"
  by code_simp

definition unauthorized_request :: "api_reply \<times> price_oracle \<times> string list option \<times> string db" where
  "unauthorized_request = create_invoice sample_env api_config None (Some ''Bearer no'') sample_body ''new'' ''tt''
     10 10 11 sample_oracle (Some []) sample_db"

end
