(* ===== verification/Writes.thy ===== *)
theory Writes
  imports Receiver InvoiceApi
begin

text \<open>
  Every write the server makes to its tables, and the handlers and workers as sequences of them.
  A relation between databases that is closed under the single writes holds over every request
  and every background pass; it is proved here once, for any such relation.
\<close>

text \<open>
  The writes that record no payment and mark none paid; \<open>admits\<close> says with which key derivation,
  master key and default mode invoices are created.
\<close>

locale closed_under_quiet_writes =
  fixes R :: "'b db \<Rightarrow> 'b db \<Rightarrow> bool"
    and admits :: "(string \<Rightarrow> string) \<Rightarrow> string \<Rightarrow> match_mode_t \<Rightarrow> bool"
  assumes self: "R d d"
    and seq: "R d d' \<Longrightarrow> R d' d'' \<Longrightarrow> R d d''"
    and expires: "(\<And>i. p i \<Longrightarrow> inv_status i = ''open'') \<Longrightarrow>
        R d (d\<lparr>invoices := update_where p set_expired (invoices d)\<rparr>)"
    and inserts: "admits cp mp dflt \<Longrightarrow> R d (snd (create sh cp rid tok now now' np mp dflt d))"
    and attaches: "R d (attach_grin1 iid sid a d)"
    and confirms: "R d (snd (mark_confirmed now iid d))"
    and deepens: "R d (record_depth now sid h n d)"
    and replies: "R d (mark_replied sid d)"
    and queues: "R d (snd (enqueue to_body now url w d))"
    and drains: "R d (snd (drain hmac as_bytes send key now d))"
begin

subsection \<open>Reads that expire\<close>

lemma get: "R d (snd (get now iid d))"
  unfolding get_def expire_if_due_id_def Let_def snd_conv by (rule expires) (simp add: due_at_def)

lemma get_by_token: "R d (snd (get_by_token now tok d))"
  unfolding get_by_token_def Let_def snd_conv by (rule expires) (simp add: due_at_def)

lemma expire_due: "R d (snd (expire_due now d))"
  unfolding expire_due_def snd_conv by (rule expires) (simp add: due_at_def)

lemma list_invoices: "R d (snd (list_invoices now limit d))"
  unfolding list_invoices_def Let_def snd_conv by (rule expire_due)

lemma mark_expired: "R d (snd (mark_expired iid d))"
  unfolding mark_expired_def snd_conv by (rule expires) simp

subsection \<open>The store and the page\<close>

lemma arm_grin1_rail: "R d (snd (snd (arm_grin1_rail b blk cfg now i w d)))"
proof -
  have "R d d'" if "get now iid (attach_grin1 iid s a d) = (x, d')" for iid s a x d'
    using seq [OF attaches get, of d now iid iid s a] that by simp
  then show ?thesis
    by (auto simp: arm_grin1_rail_def self split: if_splits option.splits prod.splits sum.splits)
qed

lemma create_invoice:
  assumes "\<And>m cp. signer = Some (m, cp) \<Longrightarrow> admits cp m (cfg_match_mode cfg)"
  shows "R d (snd (snd (snd (create_invoice env cfg signer header body rid tok now now1 now2 orc wallet d))))"
proof -
  have c: "R d d1" if "create sh cp rid tok now now1 np mp dflt d = (x, d1)" "admits cp mp dflt"
      for sh cp np mp dflt x d1
    using inserts [OF that(2), of d sh rid tok now now1 np] that(1) by simp
  have "R d d2" if "create sh cp rid tok now now1 np mp dflt d = (x, d1)"
      "arm_grin1_rail b blk cfg now2 i w d1 = (i', w', d2)" "admits cp mp dflt" for sh cp np mp dflt x d1 b blk i w i' w' d2
    using seq [OF c [OF that(1,3)] arm_grin1_rail [of d1 b blk cfg now2 i w]] that(2) by simp
  with c assms show ?thesis
    by (auto simp: create_invoice_def Let_def self split: option.splits prod.splits sum.splits)
qed

lemma get_invoice: "R d (snd (get_invoice env cfg header iid now d))"
  using get [of d now iid] by (auto simp: get_invoice_def self split: option.splits prod.splits)

lemma pay_page: "R d (snd (pay_page n svg cfg addr now tok requested d))"
  using get_by_token [of d now tok]
  by (auto simp: pay_page_def Let_def split: option.splits prod.splits)

lemma pay_status: "R d (snd (pay_status cfg now tok d))"
  using get_by_token [of d now tok] by (auto simp: pay_status_def split: option.splits prod.splits)

subsection \<open>The background passes\<close>

lemma sweep_each: "R d (sweep_each cancel k ps d)"
proof (induction ps arbitrary: k d)
  case Nil
  show ?case by (simp add: self)
next
  case (Cons p ps)
  obtain iid sid where p: "p = (iid, sid)" by fastforce
  have "R d (case cancel k sid of Inr (Inr _) \<Rightarrow> snd (mark_expired iid d) | _ \<Rightarrow> d)"
    by (auto simp: self mark_expired split: sum.splits)
  then show ?case unfolding p sweep_each.simps by (rule seq) (rule Cons.IH)
qed

lemma expiry_sweep: "R d (expiry_sweep cancel now d)"
  by (simp add: expiry_sweep_def sweep_each)

lemma finalize_invoice: "R d (finalize_invoice to_body rid now policy sid iid h n d)"
proof -
  obtain x d1 where m: "mark_confirmed now iid d = (x, d1)" by fastforce
  have d1: "R d d1" using confirms [of d now iid] m by simp
  have "R d (snd (enqueue to_body now url w d1))" for url w by (rule seq [OF d1 queues])
  with m d1 show ?thesis
    by (auto simp: finalize_invoice_def Let_def split: option.splits prod.splits)
qed

lemma confirm_one: "R d (confirm_one to_body rid now policy status sid iid d)"
proof -
  have "R d (finalize_invoice to_body rid now policy sid i h n (record_depth now sid h' n' d))" for i h n h' n'
    by (rule seq [OF deepens finalize_invoice])
  then show ?thesis
    by (auto simp: confirm_one_def Let_def self deepens split: option.splits sum.splits)
qed

lemma confirm_each: "R d (confirm_each to_body rid now policy ask k ps d)"
proof (induction ps arbitrary: k d)
  case Nil
  show ?case by (simp add: self)
next
  case (Cons p ps)
  obtain sid ex iid where p: "p = (sid, ex, iid)" by (cases p)
  show ?case unfolding p confirm_each.simps by (rule seq [OF confirm_one Cons.IH])
qed

lemma confirm_pending: "R d (confirm_pending to_body rid now policy ask d)"
  by (simp add: confirm_pending_def confirm_each self)

end

text \<open>And those of a payment: the row is inserted or taken back, linked, its invoice marked paid.\<close>

locale closed_under_writes = closed_under_quiet_writes R admits
  for R :: "'b db \<Rightarrow> 'b db \<Rightarrow> bool" and admits +
  assumes pays: "R d (snd (mark_paid now iid pid d))"
    and records: "R d (snd (insert_payment r d))"
    and unrecords: "R d (delete_payment pid d)"
    and links: "R d (link_payment sid io uo d)"
begin

subsection \<open>Recording\<close>

lemma match_payment: "R d (snd (match_payment now dflt inc d))"
  by (auto simp: match_payment_def Let_def self links split: option.splits intro: seq [OF pays links])

lemma notify_received: "R d (notify_received to_body rid now url rcv ph m d)"
  by (cases "mr_invoice_id m")
     (auto simp: notify_received_Some notify_received_None queues intro: seq [OF get queues])

lemma persist: "R d (snd (persist_and_match to_body rid now rcv ph rcpt m dflt hook d))"
proof -
  let ?d1 = "snd (insert_payment (received_row now rcv ph rcpt) d)"
  let ?d2 = "snd (match_payment now dflt (incoming_of rcv rcpt m) ?d1)"
  have d2: "R d ?d2" by (rule seq [OF records match_payment])
  have "R d (delete_payment (rcv_slate_id rcv) ?d2)" by (rule seq [OF d2 unrecords])
  moreover have "R d (notify_received to_body rid now url rcv ph r ?d2)" for url r
    by (rule seq [OF d2 notify_received])
  ultimately show ?thesis using d2
    by (auto simp: persist_and_match_def incoming_of_def Let_def split: prod.splits option.splits sum.splits)
qed

lemma settle: "R d (settle_finalized to_body rid now fin hook d)"
proof (cases "get_by_slate_id (fin_slate_id fin) d")
  case None
  then show ?thesis by (simp add: settle_finalized_def self)
next
  case (Some i)
  let ?d2 = "snd (mark_paid now (inv_id i) (fin_slate_id fin) (snd (insert_payment (settled_row now i fin) d)))"
  have "R d ?d2" by (rule seq [OF records pays])
  moreover have "R d (snd (enqueue to_body now url w ?d2))" for url w
    by (rule seq [OF \<open>R d ?d2\<close> queues])
  ultimately show ?thesis using Some
    by (auto simp: settle_finalized_def Let_def split: prod.splits option.splits)
qed

subsection \<open>The three payment surfaces\<close>

lemma handle: "R d (snd (handle to_body from_value version rid now hook w req d))"
  by (auto simp: handle_def receive_tx_def finalize_tx_def persist settle self
      split: option.splits sum.splits prod.splits)

lemma wallet_receive: "R (snd st) (snd (snd (wallet_receive to_body ed to_json b wr rid now a c st)))"
proof -
  have "R (snd st) d'" if "persist_and_match to_body rid now rcv ph rcpt m dflt hook (snd st) = (x, d')"
    for rcv ph rcpt m dflt hook x d'
    using persist [of "snd st" to_body rid now rcv ph rcpt m dflt hook] that by simp
  then show ?thesis
    by (auto simp: wallet_receive_def self split: prod.splits sum.splits persist_outcome.splits)
qed

lemma paste_outcome:
  "R d (snd (snd (paste_outcome to_body ed to_json b url blk cfg rid now i armor route w d)))"
proof -
  have "R d d'" if "persist_and_match to_body rid now rcv ph rcpt m dflt hook d = (x, d')"
    for rcv ph rcpt m dflt hook x d'
    using persist [of d to_body rid now rcv ph rcpt m dflt hook] that by simp
  then show ?thesis
    by (auto simp: paste_outcome_def Let_def self settle
        split: paste_route.splits prod.splits sum.splits persist_outcome.splits)
qed

lemma manual_slatepack:
  "R d (snd (snd (manual_slatepack to_body ed to_json b url blk cfg rid now tok pasted wallet d)))"
proof -
  obtain x d1 where g: "get_by_token now tok d = (x, d1)" by fastforce
  have d1: "R d d1" using get_by_token [of d now tok] g by simp
  have "R d (snd (snd (paste_outcome to_body ed to_json b url blk cfg rid now i armor route w d1)))"
    for i armor route w
    by (rule seq [OF d1 paste_outcome])
  then show ?thesis using g d1
    by (auto simp: manual_slatepack_def Let_def split: option.splits prod.splits; metis snd_conv)
qed

end

end
