(* ===== verification/Lifecycle.thy ===== *)
theory Lifecycle
  imports Writes Endpub "HOL-Library.Transitive_Closure_Table"
begin

text \<open>
  The running server: one state for the database, the wallet, the ingest markers and the oracle,
  and one step per request, incoming gift wrap, background pass and tenant operation. What holds
  in every reachable state, how invoices evolve along any run, and the abstract book of invoice
  phases that every run refines.
\<close>

subsection \<open>The relations the writes are closed under\<close>

lemma drain_tables: "invoices (snd (drain hmac as_bytes send key now d)) = invoices d \<and>
    payments (snd (drain hmac as_bytes send key now d)) = payments d \<and>
    users (snd (drain hmac as_bytes send key now d)) = users d \<and>
    endpubs (snd (drain hmac as_bytes send key now d)) = endpubs d"
proof -
  have "invoices (snd (drain_each hmac as_bytes send key now k rs d)) = invoices d \<and>
    payments (snd (drain_each hmac as_bytes send key now k rs d)) = payments d \<and>
    users (snd (drain_each hmac as_bytes send key now k rs d)) = users d \<and>
    endpubs (snd (drain_each hmac as_bytes send key now k rs d)) = endpubs d" for k rs
    by (induction rs arbitrary: k d)
       (auto simp: Let_def mark_delivered_def mark_failed_def split: http_reply.splits option.splits)
  then show ?thesis by (simp add: drain_def)
qed

interpretation book: closed_under_writes good_step "\<lambda>_ _ _. True"
proof unfold_locales
  show "good_step d (d\<lparr>invoices := update_where p set_expired (invoices d)\<rparr>)"
    if "\<And>i. p i \<Longrightarrow> inv_status i = ''open''" for d :: "'a db" and p
    using that by (rule good_step_expire)
qed (rule good_step_refl, erule good_step_trans, assumption, rule good_step_create, rule good_step_attach,
     rule good_step_mark_confirmed,
     (rule good_step_same, simp add: record_depth_def mark_replied_def enqueue_def drain_tables; fail)+,
     rule good_step_mark_paid, (rule good_step_same, simp add: insert_payment_def delete_payment_def link_payment_def; fail)+)

text \<open>
  The other tables: only the tenant operations write users and assignments; payment rows keep
  distinct ids, and the webhook queue its counters.
\<close>

definition tables_step :: "'b db \<Rightarrow> 'b db \<Rightarrow> bool" where
  "tables_step d d' \<longleftrightarrow>
     users d' = users d \<and> endpubs d' = endpubs d \<and>
     (distinct (map pay_id (payments d)) \<longrightarrow> distinct (map pay_id (payments d'))) \<and>
     (queue_wf d \<longrightarrow> queue_wf d')"

lemma tables_step_same:
  "users d' = users d \<Longrightarrow> endpubs d' = endpubs d \<Longrightarrow> map pay_id (payments d') = map pay_id (payments d) \<Longrightarrow>
   deliveries d' = deliveries d \<Longrightarrow> tables_step d d'"
  by (simp add: tables_step_def queue_wf_def)

lemma queue_wf_enqueue: "queue_wf d \<Longrightarrow> queue_wf (snd (enqueue to_body now url w d))"
  by (auto simp: queue_wf_def enqueue_def MAX_ATTEMPTS_def)

lemma create_tables:
  "users (snd (create sh cp rid tok now now' np mp dflt d)) = users d \<and>
   endpubs (snd (create sh cp rid tok now now' np mp dflt d)) = endpubs d \<and>
   payments (snd (create sh cp rid tok now now' np mp dflt d)) = payments d \<and>
   deliveries (snd (create sh cp rid tok now now' np mp dflt d)) = deliveries d"
  by (simp add: create_def get_def expire_if_due_id_def Let_def split: prod.splits option.splits)

interpretation tables: closed_under_writes tables_step "\<lambda>_ _ _. True"
proof unfold_locales
  fix d d' d'' :: "'a db"
  show "tables_step d d' \<Longrightarrow> tables_step d' d'' \<Longrightarrow> tables_step d d''" by (simp add: tables_step_def)
next
  fix hmac as_bytes send key now and d :: "'a db"
  show "tables_step d (snd (drain hmac as_bytes send key now d))"
    using drain_tables [of hmac as_bytes send key now d] drain_pass(1) [OF _ refl, of d hmac as_bytes send key now]
    by (simp add: tables_step_def)
next
  fix to_body now url w and d :: "'a db"
  show "tables_step d (snd (enqueue to_body now url w d))"
    using queue_wf_enqueue [of d to_body now url w] by (simp add: tables_step_def) (simp add: enqueue_def)
next
  fix pid and d :: "'a db"
  show "tables_step d (delete_payment pid d)"
    by (simp add: tables_step_def delete_payment_def queue_wf_def distinct_map_filter)
next
  fix r and d :: "'a db"
  show "tables_step d (snd (insert_payment r d))" by (simp add: tables_step_def insert_payment_def queue_wf_def)
qed (rule tables_step_same, simp_all add: create_tables attach_grin1_def mark_paid_def mark_confirmed_def link_payment_def
       record_depth_def mark_replied_def map_update_where)+


subsection \<open>The server\<close>

text \<open>What is fixed while the server runs: its configuration, its keys and the code it calls.\<close>

record ('w, 's, 'v, 'n, 'pk, 'k, 'b) world =
  wo_api :: "('w, 's, 'v, 'n, 'pk) api_env"
  wo_cfg :: config
  wo_body :: "webhook_payload \<Rightarrow> 'b"
  wo_ed :: dalek
  wo_json :: "receiver_proof \<Rightarrow> string + string"
  wo_signer :: "(string \<times> (string \<Rightarrow> string)) option"
  wo_epub :: "string \<Rightarrow> int \<Rightarrow> string"
  wo_pub_hex :: "'k \<Rightarrow> string"
  wo_unwrap :: "'k \<Rightarrow> event \<Rightarrow> unwrapped option"
  wo_event_id :: "rumor \<Rightarrow> string"

abbreviation wo_backend :: "('w, 's, 'v, 'n, 'pk, 'k, 'b) world \<Rightarrow> ('w, 's, 'v, 'n) backend" where
  "wo_backend E \<equiv> env_backend (wo_api E)"

abbreviation wo_hook :: "('w, 's, 'v, 'n, 'pk, 'k, 'b) world \<Rightarrow> (string \<times> string) option" where
  "wo_hook E \<equiv> webhook_pair (webhook_url (wo_cfg E)) (webhook_secret (wo_cfg E))"

record ('w, 'b) server =
  sv_db :: "'b db"
  sv_wallet :: "'w option"
  sv_seen :: "string set"
  sv_rate :: rate_map
  sv_oracle :: price_oracle

text \<open>The blocking pool: a task that panics has done its work on the wallet and loses its answer.\<close>

definition pool :: "string option \<Rightarrow> 'r \<times> 'w \<Rightarrow> (string + 'r) \<times> 'w" where
  "pool panic rw = (case panic of None \<Rightarrow> Inr (fst rw) | Some m \<Rightarrow> Inl m, snd rw)"

definition wo_receive ::
  "('w, 's, 'v, 'n, 'pk, 'k, 'b) world \<Rightarrow> string \<Rightarrow> int \<Rightarrow> string \<Rightarrow> incoming_context \<Rightarrow> 'w \<times> 'b db
   \<Rightarrow> (receive_error + received_payment) \<times> 'w \<times> 'b db" where
  "wo_receive E rid now =
     wallet_receive (wo_body E) (wo_ed E) (wo_json E) (wo_backend E)
       (receiver_with_matching (cfg_match_mode (wo_cfg E)) (webhook_url (wo_cfg E)) (webhook_secret (wo_cfg E)))
       rid now"

text \<open>\<open>look\<close> is the key directory's answer at the time of the event.\<close>

definition pipeline ::
  "('w, 's, 'v, 'n, 'pk, 'k, 'b) world \<Rightarrow> (string \<Rightarrow> 'k option) \<Rightarrow> string \<Rightarrow> int \<Rightarrow> ('k, 'w \<times> 'b db) ingest_env" where
  "pipeline E look rid now =
     \<lparr>ie_master_hex = (case wo_signer E of Some (m, _) \<Rightarrow> m | None \<Rightarrow> []), ie_resolve = look,
      ie_pub_hex = wo_pub_hex E, ie_unwrap = wo_unwrap E, ie_event_id = wo_event_id E,
      ie_receive = wo_receive E rid now\<rparr>"

definition foreign_wallet ::
  "('w, 's, 'v, 'n, 'pk, 'k, 'b) world \<Rightarrow> string option \<Rightarrow> 'w \<Rightarrow> 'v wallet_api" where
  "foreign_wallet E panic w =
     \<lparr>wa_receive = (\<lambda>v. fst (pool panic (receive_slate (wo_ed E) (wo_json E) (wo_backend E) v w))),
      wa_finalize = (\<lambda>v. fst (pool panic (finalize_slate (wo_backend E) v w)))\<rparr>"

text \<open>The wallet after an RPC, which calls it at most once.\<close>

definition after_rpc ::
  "('w, 's, 'v, 'n, 'pk, 'k, 'b) world \<Rightarrow> (json \<Rightarrow> string + 'v) \<Rightarrow> rpc_request \<Rightarrow> 'w \<Rightarrow> 'w" where
  "after_rpc E from_value req w =
     (case slate_param from_value (rpc_params req) of
        Inl _ \<Rightarrow> w
      | Inr v \<Rightarrow>
          if rpc_method req = ''receive_tx''
          then snd (receive_slate (wo_ed E) (wo_json E) (wo_backend E) v w)
          else if rpc_method req = ''finalize_tx'' then snd (finalize_slate (wo_backend E) v w)
          else w)"

text \<open>The cancellations of a sweep, in order: their answers and the wallet after them.\<close>

fun cancel_run :: "('w, 's, 'v, 'n) backend \<Rightarrow> string list \<Rightarrow> 'w \<Rightarrow> (wallet_error + unit) list \<times> 'w" where
  "cancel_run b [] w = ([], w)"
| "cancel_run b (sid # sids) w =
     (let (r, w1) = cancel_slate b sid w; (rs, w2) = cancel_run b sids w1 in (r # rs, w2))"

definition policy_from_config :: "config \<Rightarrow> confirm_policy" where
  "policy_from_config cfg = \<lparr>cp_required = confirmations_required cfg, cp_webhook_url = webhook_url cfg\<rparr>"

text \<open>The operations on tenants.\<close>

inductive tenant_op :: "(string \<Rightarrow> int \<Rightarrow> string) \<Rightarrow> 'b db \<Rightarrow> 'b db \<Rightarrow> bool" for epub where
  user_created: "tenant_op epub d (snd (create_user epub rnd now now' ido interval d))"
| user_rotated: "tenant_op epub d (snd (rotate epub now now' uid d))"
| user_interval: "tenant_op epub d (snd (set_rotate_interval uid i d))"
| rotation_tick: "tenant_op epub d (snd (rotate_due epub now interval d))"

inductive serve ::
  "('w, 's, 'v, 'n, 'pk, 'k, 'b) world \<Rightarrow> ('w, 'b) server \<Rightarrow> ('w, 'b) server \<Rightarrow> bool"
  for E :: "('w, 's, 'v, 'n, 'pk, 'k, 'b) world" where
  gift_wrap: "sv_wallet s = Some w \<Longrightarrow>
     handle_wrap (pipeline E look rid now) now1 now2 ev \<lparr>seen = sv_seen s, rate = sv_rate s, rx = (w, sv_db s)\<rparr>
       = (out, t) \<Longrightarrow>
     serve E s (s\<lparr>sv_wallet := Some (fst (rx t)), sv_db := snd (rx t), sv_seen := seen t, sv_rate := rate t\<rparr>)"
| reply_dispatched: "serve E s (s\<lparr>sv_db := mark_replied sid (sv_db s)\<rparr>)"
| api_create: "create_invoice ((wo_api E)\<lparr>env_blocking := pool panic\<rparr>) (wo_cfg E) (wo_signer E) header body rid tok
        now now1 now2 (sv_oracle s) (sv_wallet s) (sv_db s) = (reply, orc', w', d') \<Longrightarrow>
     serve E s (s\<lparr>sv_oracle := orc', sv_wallet := w', sv_db := d'\<rparr>)"
| api_get: "serve E s (s\<lparr>sv_db := snd (get_invoice (wo_api E) (wo_cfg E) header iid now (sv_db s))\<rparr>)"
| api_list: "serve E s (s\<lparr>sv_db := snd (list_invoices now limit (sv_db s))\<rparr>)"
| page: "serve E s (s\<lparr>sv_db := snd (pay_page (env_nostr (wo_api E)) (env_svg (wo_api E)) (wo_cfg E) addr now tok m (sv_db s))\<rparr>)"
| page_status: "serve E s (s\<lparr>sv_db := snd (pay_status (wo_cfg E) now tok (sv_db s))\<rparr>)"
| paste: "manual_slatepack (wo_body E) (wo_ed E) (wo_json E) (wo_backend E) (node_url (wo_cfg E)) (pool panic)
        (wo_cfg E) rid now tok pasted (sv_wallet s) (sv_db s) = (res, w', d') \<Longrightarrow>
     serve E s (s\<lparr>sv_wallet := w', sv_db := d'\<rparr>)"
| rpc: "sv_wallet s = Some w \<Longrightarrow>
     handle (wo_body E) from_value () rid now (wo_hook E) (Some (foreign_wallet E panic w)) req (sv_db s) = (reply, d') \<Longrightarrow>
     serve E s (s\<lparr>sv_wallet := Some (after_rpc E from_value req w), sv_db := d'\<rparr>)"
| poll: "serve E s (s\<lparr>sv_db := confirm_pending (wo_body E) rids now (policy_from_config (wo_cfg E)) ask (sv_db s)\<rparr>)"
| sweep: "sv_wallet s = Some w \<Longrightarrow>
     cancel_run (wo_backend E) (map snd (due_grin1_slates now (sv_db s))) w = (rs, w') \<Longrightarrow>
     serve E s (s\<lparr>sv_wallet := Some w', sv_db := expiry_sweep (\<lambda>k _. Inr (rs ! k)) now (sv_db s)\<rparr>)"
| deliver: "serve E s (s\<lparr>sv_db := snd (drain hmac as_bytes send key now (sv_db s))\<rparr>)"
| tenant: "tenant_op (wo_epub E) (sv_db s) d' \<Longrightarrow> serve E s (s\<lparr>sv_db := d'\<rparr>)"
| restart: "serve E s (s\<lparr>sv_seen := {}, sv_rate := [], sv_oracle := orc\<rparr>)"

text \<open>
  A restart keeps the database and the wallet and forgets what is only in memory. The first start is on an
  empty database, with any wallet and any oracle.
\<close>

definition booted :: "('w, 'b) server \<Rightarrow> bool" where
  "booted s \<longleftrightarrow> sv_db s = empty_db \<and> sv_seen s = {} \<and> sv_rate s = []"

definition reachable :: "('w, 's, 'v, 'n, 'pk, 'k, 'b) world \<Rightarrow> ('w, 'b) server \<Rightarrow> bool" where
  "reachable E s \<longleftrightarrow> (\<exists>s0. booted s0 \<and> (serve E)\<^sup>*\<^sup>* s0 s)"


subsection \<open>What every step keeps\<close>

lemma assign_tables:
  "invoices (snd (Endpub.assign epub now uid ep d)) = invoices d \<and> payments (snd (Endpub.assign epub now uid ep d)) = payments d \<and>
   deliveries (snd (Endpub.assign epub now uid ep d)) = deliveries d"
  by (simp add: Endpub.assign_def Let_def split: option.split)

lemma rotate_tables:
  "invoices (snd (rotate epub now now' uid d)) = invoices d \<and> payments (snd (rotate epub now now' uid d)) = payments d \<and>
   deliveries (snd (rotate epub now now' uid d)) = deliveries d"
  by (simp add: rotate_def Let_def assign_tables split: option.split)

lemma rotate_each_tables:
  "invoices (snd (rotate_each epub now g us n d)) = invoices d \<and> payments (snd (rotate_each epub now g us n d)) = payments d \<and>
   deliveries (snd (rotate_each epub now g us n d)) = deliveries d"
proof (induction us arbitrary: n d)
  case (Cons u us)
  obtain r d' where r: "rotate epub now now (user_id u) d = (r, d')" by fastforce
  show ?case
    using Cons rotate_tables [of epub now now "user_id u" d]
    by (auto simp: Let_def r split: sum.splits)
qed simp

lemma tenant_op_tables:
  "tenant_op epub d d' \<Longrightarrow> invoices d' = invoices d \<and> payments d' = payments d \<and> deliveries d' = deliveries d"
proof (induction rule: tenant_op.induct)
  case (user_created d rnd now now' ido interval)
  obtain uid where uid: "uid = (case ido of None \<Rightarrow> rnd | Some i \<Rightarrow> i)" by blast
  obtain r d2 where a: "Endpub.assign epub now' uid 0 (d\<lparr>users := users d @ [\<lparr>user_id = uid, rotate_interval = interval,
      epoch = 0, last_rotated_at = now, user_created_at = now\<rparr>]\<rparr>) = (r, d2)" by fastforce
  have "invoices d2 = invoices d \<and> payments d2 = payments d \<and> deliveries d2 = deliveries d"
    using assign_tables [of epub now' uid 0 "d\<lparr>users := users d @ [\<lparr>user_id = uid, rotate_interval = interval,
      epoch = 0, last_rotated_at = now, user_created_at = now\<rparr>]\<rparr>"] a by simp
  then show ?case
    using a by (auto simp: create_user_def Let_def uid [symmetric] split: sum.split option.split)
qed (simp_all add: rotate_tables set_rotate_interval_def rotate_due_def rotate_each_tables)

lemma tenant_op_wf:
  assumes "tenant_op epub d d'" "tenants_wf epub d"
  shows "tenants_wf epub d'"
  using assms
proof cases
  case (user_rotated now now' uid)
  then show ?thesis
    using assms(2) rotate_wf [OF assms(2)] by (cases "get_user uid d") (simp_all add: rotate_def)
next
  case (rotation_tick now interval)
  have "distinct (map user_id (users d))" using assms(2) by (simp add: tenants_wf_def)
  moreover from this have "get_user (user_id u) d = Some u" if "u \<in> set (users d)" for u
    using that by (simp add: get_user_def lookup_by_distinct)
  ultimately obtain d0 n where "rotate_each epub now interval (users d) 0 d = (Inr n, d0)" "tenants_wf epub d0"
    using rotate_each_result [OF assms(2), of "users d" now interval 0] by blast
  with rotation_tick show ?thesis by (simp add: rotate_due_def)
qed (simp_all add: create_user_wf set_rotate_interval_wf)

lemma handle_rumor_rx:
  "rx (snd (handle_rumor env now wid key u s)) = rx s \<or>
   (\<exists>a c. rx (snd (handle_rumor env now wid key u s)) = snd (ie_receive env a c (rx s)))"
proof -
  have "\<exists>a c. r' = snd (ie_receive env a c (rx s))" if "ie_receive env a c (rx s) = (x, r')" for a c x r'
    using that by (metis snd_conv)
  then show ?thesis
    by (auto simp: handle_rumor_def Let_def mark_def
        split: ingest_decision.split prod.split bool.split sum.split receive_error.split)
qed

lemma handle_wrap_rx:
  "rx (snd (handle_wrap env now1 now2 ev s)) = rx s \<or>
   (\<exists>a c. rx (snd (handle_wrap env now1 now2 ev s)) = snd (ie_receive env a c (rx s)))"
proof -
  have "rx (snd (handle_rumor env now2 wid key u (s\<lparr>rate := m\<rparr>))) = rx s \<or>
    (\<exists>a c. rx (snd (handle_rumor env now2 wid key u (s\<lparr>rate := m\<rparr>))) = snd (ie_receive env a c (rx s)))" for wid key u m
    using handle_rumor_rx [of env now2 wid key u "s\<lparr>rate := m\<rparr>"] by simp
  then show ?thesis
    by (auto simp: handle_wrap_def Let_def mark_def split: prod.split bool.split option.split)
qed

context closed_under_writes
begin

lemma serve_step:
  assumes "serve E s t" "\<And>m cp. wo_signer E = Some (m, cp) \<Longrightarrow> admits cp m (cfg_match_mode (wo_cfg E))"
  shows "R (sv_db s) (sv_db t) \<or> tenant_op (wo_epub E) (sv_db s) (sv_db t)"
  using assms(1)
proof (induction rule: serve.induct)
  case (gift_wrap s w look rid now now1 now2 ev out t)
  have "rx t = (w, sv_db s) \<or> (\<exists>a c. rx t = snd (wo_receive E rid now a c (w, sv_db s)))"
    using handle_wrap_rx [of "pipeline E look rid now" now1 now2 ev "\<lparr>seen = sv_seen s, rate = sv_rate s, rx = (w, sv_db s)\<rparr>"]
      gift_wrap(2) by (simp add: pipeline_def)
  moreover have "R (sv_db s) (snd (snd (wo_receive E rid now a c (w, sv_db s))))" for a c
    using wallet_receive [of "(w, sv_db s)"] by (simp add: wo_receive_def)
  ultimately show ?case using self by auto
next
  case (api_create panic header body rid tok now now1 now2 s reply orc' w' d')
  have "R (sv_db s) (snd (snd (snd (create_invoice ((wo_api E)\<lparr>env_blocking := pool panic\<rparr>) (wo_cfg E) (wo_signer E)
      header body rid tok now now1 now2 (sv_oracle s) (sv_wallet s) (sv_db s)))))"
    by (rule create_invoice) (rule assms(2))
  with api_create show ?case by simp
next
  case (paste panic rid now tok pasted s res w' d')
  from manual_slatepack [of "sv_db s" "wo_body E" "wo_ed E" "wo_json E" "wo_backend E" "node_url (wo_cfg E)" "pool panic"
      "wo_cfg E" rid now tok pasted "sv_wallet s"] paste show ?case by simp
next
  case (rpc s w from_value rid now panic req reply d')
  from handle [of "sv_db s" "wo_body E" from_value "()" rid now "wo_hook E" "Some (foreign_wallet E panic w)" req] rpc
  show ?case by simp
qed (simp_all add: self replies get_invoice list_invoices pay_page pay_status confirm_pending expiry_sweep drains)

end

definition server_wf :: "('w, 's, 'v, 'n, 'pk, 'k, 'b) world \<Rightarrow> ('w, 'b) server \<Rightarrow> bool" where
  "server_wf E s \<longleftrightarrow>
     book_wf (invoices (sv_db s)) \<and> tenants_wf (wo_epub E) (sv_db s) \<and> queue_wf (sv_db s) \<and>
     distinct (map pay_id (payments (sv_db s)))"

lemma tenants_wf_cong: "users d' = users d \<Longrightarrow> endpubs d' = endpubs d \<Longrightarrow> tenants_wf epub d' = tenants_wf epub d"
  by (simp add: tenants_wf_def get_user_def)

lemma tenant_op_good: "tenant_op epub d d' \<Longrightarrow> good_step d d'"
  by (rule good_step_same) (simp add: tenant_op_tables)

lemma serve_good: "serve E s t \<Longrightarrow> good_step (sv_db s) (sv_db t)"
  using book.serve_step [of E s t] tenant_op_good by auto

lemma serve_wf:
  assumes "serve E s t" "server_wf E s"
  shows "server_wf E t"
proof -
  have "book_wf (invoices (sv_db t))"
    using serve_good [OF assms(1)] assms(2) by (simp add: good_step_def server_wf_def)
  moreover have "tenants_wf (wo_epub E) (sv_db t) \<and> queue_wf (sv_db t) \<and> distinct (map pay_id (payments (sv_db t)))"
    using tables.serve_step [OF assms(1)] assms(2) tenants_wf_cong [of "sv_db t" "sv_db s"]
      tenant_op_wf [of "wo_epub E" "sv_db s" "sv_db t"] tenant_op_tables [of "wo_epub E" "sv_db s" "sv_db t"]
    by (auto simp: server_wf_def tables_step_def queue_wf_def)
  ultimately show ?thesis by (simp add: server_wf_def)
qed

lemma run_wf: "(serve E)\<^sup>*\<^sup>* s t \<Longrightarrow> server_wf E s \<Longrightarrow> server_wf E t"
  by (induction rule: rtranclp_induct) (auto intro: serve_wf)

lemma booted_wf: "booted s \<Longrightarrow> server_wf E s"
  by (simp add: booted_def server_wf_def tenants_wf_empty) (simp add: empty_db_def book_wf_def queue_wf_def)

lemma reachable_wf: "reachable E s \<Longrightarrow> server_wf E s"
  by (auto simp: reachable_def intro: run_wf booted_wf)

lemma run_good: "(serve E)\<^sup>*\<^sup>* s t \<Longrightarrow> good_step (sv_db s) (sv_db t)"
  by (induction rule: rtranclp_induct) (auto intro: good_step_trans serve_good)

text \<open>C3: whatever requests arrive, in whatever order and interleaved with the background passes, the
  database stays consistent: invoice ids and checkout tokens are unique, every invoice row has the
  shape of its status (a payment and its time exactly when paid or confirmed, a slate exactly on the
  grin1 rail), a tenant of epoch e has exactly the derived keys of the epochs 0 to e, no payment id is
  recorded twice, and no webhook has been attempted more than twelve times.\<close>

theorem reachable_consistent:
  assumes "reachable E s"
  shows "book_wf (invoices (sv_db s)) \<and> tenants_wf (wo_epub E) (sv_db s) \<and>
    distinct (map pay_id (payments (sv_db s))) \<and>
    distinct (map del_id (deliveries (sv_db s))) \<and>
    (\<forall>r \<in> set (deliveries (sv_db s)). 0 \<le> attempts r \<and> attempts r \<le> 12)"
  using reachable_wf [OF assms] by (simp add: server_wf_def queue_wf_def MAX_ATTEMPTS_def)

text \<open>C4: an invoice never goes back. Along any run of the server its id, order, amount, memo, key, token and
  quote never change, its status only moves up the lifecycle (open, paid, confirmed, or open to
  expired), and once it has left open, the payment that paid it and when stay what they were.\<close>

theorem invoices_only_advance:
  assumes "reachable E s" "(serve E)\<^sup>*\<^sup>* s t" "lookup_by inv_id iid (invoices (sv_db s)) = Some i"
  shows "\<exists>j. lookup_by inv_id iid (invoices (sv_db t)) = Some j \<and>
    fixed_columns j = fixed_columns i \<and> status_of i \<le> status_of j \<and>
    (status_of i \<noteq> Open \<longrightarrow> paid_payment_id j = paid_payment_id i \<and> paid_at j = paid_at i) \<and>
    (status_of i = Confirmed \<longrightarrow> inv_confirmed_at j = inv_confirmed_at i)"
proof -
  have wf: "server_wf E s" by (rule reachable_wf [OF assms(1)])
  then have "book_evolves (invoices (sv_db s)) (invoices (sv_db t))" "book_wf (invoices (sv_db t))"
    using run_good [OF assms(2)] by (auto simp: good_step_def server_wf_def)
  then obtain j where "lookup_by inv_id iid (invoices (sv_db t)) = Some j" "evolves i j"
    using book_evolves_lookup [OF _ _ assms(3)] by (auto simp: book_wf_def)
  then show ?thesis by (auto simp: evolves_def)
qed

subsection \<open>Refinement of the abstract book\<close>

text \<open>The abstract system: issue an invoice, pay it, settle it, let it lapse.\<close>

inductive book_step :: "book \<Rightarrow> book \<Rightarrow> bool" where
  issue: "b iid = None \<Longrightarrow> book_step b (b(iid \<mapsto> Awaiting))"
| pay: "fst (book_pay iid p b) \<Longrightarrow> book_step b (snd (book_pay iid p b))"
| settle: "fst (book_settle iid b) \<Longrightarrow> book_step b (snd (book_settle iid b))"
| lapse: "fst (book_lapse iid b) \<Longrightarrow> book_step b (snd (book_lapse iid b))"

lemma step_pay: "b k = Some Awaiting \<Longrightarrow> book_step b (b(k \<mapsto> PaidBy p))"
  using book_step.pay [of k p b] by (simp add: book_pay_def)

lemma step_settle: "b k = Some (PaidBy p) \<Longrightarrow> book_step b (b(k \<mapsto> SettledBy p))"
  using book_step.settle [of k b] by (simp add: book_settle_def)

lemma step_lapse: "b k = Some Awaiting \<Longrightarrow> book_step b (b(k \<mapsto> Lapsed))"
  using book_step.lapse [of k b] by (simp add: book_lapse_def)

text \<open>How the phase of one invoice may develop.\<close>

definition phase_path :: "phase option \<Rightarrow> phase option \<Rightarrow> bool" where
  "phase_path x y \<longleftrightarrow> x = y \<or> (y \<noteq> None \<and> (x = None \<or> x = Some Awaiting)) \<or>
     (\<exists>p. x = Some (PaidBy p) \<and> y = Some (SettledBy p))"

lemma from_awaiting:
  assumes "b k = Some Awaiting" "y \<noteq> None"
  shows "book_step\<^sup>*\<^sup>* b (b(k := y))"
proof -
  obtain ph where y: "y = Some ph" using assms(2) by blast
  have settled: "book_step\<^sup>*\<^sup>* b (b(k \<mapsto> SettledBy p))" for p
  proof -
    have "book_step\<^sup>*\<^sup>* b (b(k \<mapsto> PaidBy p))" using step_pay [of b k p] assms(1) by blast
    moreover have "book_step (b(k \<mapsto> PaidBy p)) (b(k \<mapsto> SettledBy p))" using step_settle [of "b(k \<mapsto> PaidBy p)" k p] by simp
    ultimately show ?thesis using rtranclp.rtrancl_into_rtrancl [where r = book_step] by fastforce
  qed
  show ?thesis
  proof (cases ph)
    case Awaiting
    with assms(1) y have "b(k := y) = b" by auto
    then show ?thesis by simp
  qed (use y assms(1) settled step_pay step_lapse in blast)+
qed

lemma realize_phase:
  assumes "phase_path (b k) y"
  shows "book_step\<^sup>*\<^sup>* b (b(k := y))"
proof (cases "b k")
  case None
  show ?thesis
  proof (cases y)
    case None
    with \<open>b k = None\<close> have "b(k := y) = b" by auto
    then show ?thesis by simp
  next
    case (Some ph)
    have "book_step\<^sup>*\<^sup>* b (b(k \<mapsto> Awaiting))" using issue [of b k] None by blast
    moreover have "book_step\<^sup>*\<^sup>* (b(k \<mapsto> Awaiting)) (b(k := y))"
      using from_awaiting [of "b(k \<mapsto> Awaiting)" k y] Some by simp
    ultimately show ?thesis by (rule rtranclp_trans)
  qed
next
  case (Some x)
  have "b(k := b k) = b" by simp
  then show ?thesis using assms Some from_awaiting [of b k y] step_settle [of b k]
    by (auto simp: phase_path_def fun_upd_idem)
qed

lemma realize_book:
  assumes "finite S" "\<And>k. k \<notin> S \<Longrightarrow> b' k = b k" "\<And>k. phase_path (b k) (b' k)"
  shows "book_step\<^sup>*\<^sup>* b b'"
  using assms
proof (induction S arbitrary: b rule: finite_induct)
  case empty
  then have "b' = b" by auto
  then show ?case by simp
next
  case (insert k S)
  let ?b = "b(k := b' k)"
  have "phase_path (?b j) (b' j)" for j using insert.prems(2) by (simp add: phase_path_def)
  then have "book_step\<^sup>*\<^sup>* ?b b'" using insert by (intro insert.IH) auto
  with realize_phase [where b = b and k = k, OF insert.prems(2)] show ?case by simp
qed

lemma evolves_phase:
  assumes "row_wf i" "row_wf j" "evolves i j"
  shows "phase_path (Some (abs_phase i)) (Some (abs_phase j))"
  using assms by (cases "status_of i"; cases "status_of j")
    (auto simp: phase_path_def abs_phase_def evolves_def status_order_defs)

lemma finite_abs_book: "finite (dom (abs_book d))"
proof -
  have "dom (abs_book d) \<subseteq> inv_id ` set (invoices d)"
    using lookup_by_Some by (fastforce simp: abs_book_def)
  then show ?thesis by (rule finite_subset) simp
qed

lemma good_step_refines:
  assumes "good_step d d'" "book_wf (invoices d)"
  shows "book_step\<^sup>*\<^sup>* (abs_book d) (abs_book d')"
proof (rule realize_book)
  show "finite (dom (abs_book d) \<union> dom (abs_book d'))" by (simp add: finite_abs_book)
  show "k \<notin> dom (abs_book d) \<union> dom (abs_book d') \<Longrightarrow> abs_book d' k = abs_book d k" for k
    by (simp add: domIff)
  fix k
  have wf': "book_wf (invoices d')" and ev: "book_evolves (invoices d) (invoices d')"
    using assms by (auto simp: good_step_def)
  show "phase_path (abs_book d k) (abs_book d' k)"
  proof (cases "lookup_by inv_id k (invoices d)")
    case None
    then show ?thesis by (auto simp: abs_book_def phase_path_def)
  next
    case (Some i)
    moreover obtain j where "lookup_by inv_id k (invoices d') = Some j" "evolves i j"
      using book_evolves_lookup [OF ev _ Some] wf' by (auto simp: book_wf_def)
    ultimately show ?thesis
      using evolves_phase [of i j] book_lookup [OF assms(2)] book_lookup [OF wf'] by simp
  qed
qed

text \<open>C2: the server implements the abstract invoice book: each of its steps, seen through the phases
  of the invoices, is a sequence of the book's four moves (issue, pay an awaited invoice, settle a
  paid one for the payment that paid it, let an awaited one lapse), so nothing the server ever does
  is a move the book does not have.\<close>

theorem server_refines_book:
  assumes "reachable E s" "serve E s t"
  shows "book_step\<^sup>*\<^sup>* (abs_book (sv_db s)) (abs_book (sv_db t))"
  using good_step_refines [OF serve_good [OF assms(2)]] reachable_wf [OF assms(1)] by (simp add: server_wf_def)

subsection \<open>A day in a shop\<close>

text \<open>A wallet that logs slate ids (first component) and keeps contexts (second).\<close>

definition till_backend ::
  "(string list \<times> string list, string \<times> slate_state \<times> u64, string \<times> slate_state \<times> u64, unit) backend" where
  "till_backend =
     \<lparr>be_id = fst, be_state = (\<lambda>s. fst (snd s)), be_amount = (\<lambda>s. snd (snd s)), be_proof = (\<lambda>_. None),
      be_state_name = be_state_name sample_backend, be_state_dbg = be_state_dbg sample_backend,
      be_read = (\<lambda>s _. be_read sample_backend s []),
      be_armor = (\<lambda>s _. Inr (''armor '' @ fst s)), be_excesses = (\<lambda>_ _. Inr [None, Some [1, 2]]),
      be_receive = (\<lambda>s (l, c). if fst s \<in> set (l @ c) then (Inl ''already been received'', (l, c))
                               else (Inr s, (fst s # l, c))),
      be_issue = (\<lambda>a (l, c). if ''sl'' \<in> set (l @ c) then (Inl ''no fresh id'', (l, c))
                             else (Inr (''sl'', Invoice1, a), (''sl'' # l, ''sl'' # c))),
      be_finalize = (\<lambda>s (l, c). if fst s \<in> set c then (Inr s, (fst s # l, filter (\<lambda>x. x \<noteq> fst s) c))
                                else (Inl ''no context'', (l, c))),
      be_finalize_post = (\<lambda>s (l, c). if fst s \<in> set c then (Inr s, (fst s # l, filter (\<lambda>x. x \<noteq> fst s) c))
                                     else (Inl ''no context'', (l, c))),
      be_open_client = Inr (), be_post = (\<lambda>_ w. (Inr (), w)), be_parse_uuid = Inr,
      be_cancel = (\<lambda>u (l, c). if u \<in> set c then (Inr (), (u # l, filter (\<lambda>x. x \<noteq> u) c)) else (Inl ''unknown'', (l, c))),
      be_from = (\<lambda>v. v), be_version = (\<lambda>_. ()), be_into = (\<lambda>s _. Inr s)\<rparr>"

definition sample_world ::
  "(string list \<times> string list, string \<times> slate_state \<times> u64, string \<times> slate_state \<times> u64, unit, string, string, string) world" where
  "sample_world =
     \<lparr>wo_api = \<lparr>env_slice_eq = (\<lambda>a b. a = b), env_nostr = sample_nostr, env_svg = (\<lambda>s _. Some s),
        env_shift = (\<lambda>now s. Some (now + s)), env_quote = sample_quote_op, env_backend = till_backend,
        env_blocking = pool None\<rparr>,
      wo_cfg = api_config, wo_body = event_id, wo_ed = sample_ed, wo_json = no_json,
      wo_signer = Some (''master'', \<lambda>i. ''child-'' @ i), wo_epub = (\<lambda>u e. u @ show_nat (nat e)),
      wo_pub_hex = (\<lambda>k. k), wo_unwrap = (\<lambda>_ _. None), wo_event_id = (\<lambda>_. [])\<rparr>"

definition shop_open :: "(string list \<times> string list, string) server" where
  "shop_open = \<lparr>sv_db = empty_db, sv_wallet = Some ([], []), sv_seen = {}, sv_rate = [], sv_oracle = sample_oracle\<rparr>"

definition shop_ordered :: "(string list \<times> string list, string) server" where
  "shop_ordered =
     (case create_invoice ((wo_api sample_world)\<lparr>env_blocking := pool None\<rparr>) api_config (wo_signer sample_world)
         (Some ''Bearer tok'') sample_body ''new'' ''tt'' 10 10 11 sample_oracle (Some ([], [])) empty_db of
        (_, orc, w, d) \<Rightarrow> shop_open\<lparr>sv_oracle := orc, sv_wallet := w, sv_db := d\<rparr>)"

definition shop_paid :: "(string list \<times> string list, string) server" where
  "shop_paid =
     (case manual_slatepack event_id sample_ed no_json till_backend (node_url api_config) (pool None) api_config
         ''e1'' 20 ''tt'' ''s1'' (sv_wallet shop_ordered) (sv_db shop_ordered) of
        (_, w, d) \<Rightarrow> shop_ordered\<lparr>sv_wallet := w, sv_db := d\<rparr>)"

lemma shop_steps: "serve sample_world shop_open shop_ordered" "serve sample_world shop_ordered shop_paid"
proof -
  obtain r orc w d where c: "create_invoice ((wo_api sample_world)\<lparr>env_blocking := pool None\<rparr>) api_config (wo_signer sample_world)
         (Some ''Bearer tok'') sample_body ''new'' ''tt'' 10 10 11 sample_oracle (Some ([], [])) (empty_db :: string db) = (r, orc, w, d)"
    by (rule prod_cases4)
  have "serve sample_world shop_open (shop_open\<lparr>sv_oracle := orc, sv_wallet := w, sv_db := d\<rparr>)"
    by (rule serve.api_create) (use c in \<open>simp add: sample_world_def shop_open_def\<close>)
  with c show "serve sample_world shop_open shop_ordered" by (simp add: shop_ordered_def)
  obtain res w2 d2 where m: "manual_slatepack event_id sample_ed no_json till_backend (node_url api_config) (pool None)
      api_config ''e1'' 20 ''tt'' ''s1'' (sv_wallet shop_ordered) (sv_db shop_ordered) = (res, w2, d2)"
    by (rule prod_cases3)
  have "serve sample_world shop_ordered (shop_ordered\<lparr>sv_wallet := w2, sv_db := d2\<rparr>)"
    by (rule serve.paste) (use m in \<open>simp add: sample_world_def\<close>)
  with m show "serve sample_world shop_ordered shop_paid" by (simp add: shop_paid_def)
qed

lemma shop_reachable: "reachable sample_world shop_ordered" "reachable sample_world shop_paid"
proof -
  have "booted shop_open" by (simp add: booted_def shop_open_def)
  then show "reachable sample_world shop_ordered" "reachable sample_world shop_paid"
    using shop_steps unfolding reachable_def by (blast intro: rtranclp.intros)+
qed

lemma shop_phases:
  "abs_book (sv_db shop_ordered) ''new'' = Some Awaiting" "abs_book (sv_db shop_paid) ''new'' = Some (PaidBy ''p'')"
  by code_simp+

theorem reachable_consistent_witness:
  "book_wf (invoices (sv_db shop_paid)) \<and> distinct (map pay_id (payments (sv_db shop_paid)))"
  using reachable_consistent [OF shop_reachable(2)] by simp

theorem invoices_only_advance_witness:
  "\<exists>i j. lookup_by inv_id ''new'' (invoices (sv_db shop_ordered)) = Some i \<and>
     lookup_by inv_id ''new'' (invoices (sv_db shop_paid)) = Some j \<and> fixed_columns j = fixed_columns i \<and>
     status_of i \<le> status_of j"
proof -
  obtain i where i: "lookup_by inv_id ''new'' (invoices (sv_db shop_ordered)) = Some i"
    using shop_phases(1) by (auto simp: abs_book_def)
  from invoices_only_advance [OF shop_reachable(1) r_into_rtranclp [of "serve sample_world", OF shop_steps(2)] this] i
  show ?thesis by auto
qed

theorem server_refines_book_witness:
  "book_step\<^sup>*\<^sup>* (abs_book (sv_db shop_ordered)) (abs_book (sv_db shop_paid)) \<and>
   abs_book (sv_db shop_paid) ''new'' = Some (PaidBy ''p'')"
  using server_refines_book [OF shop_reachable(1) shop_steps(2)] shop_phases by simp

end
