(* ===== verification/Ledger.thy ===== *)
theory Ledger
  imports Lifecycle
begin

text \<open>
  The money: no invoice counts as paid without a payment of its own. The wallet is grin-wallet as
  it documents itself: it never receives a slate it already knows, and finalizes a slate only
  once, from the context it stored when it issued it.
\<close>

subsection \<open>Paid invoices are backed\<close>

definition backs :: "payment \<Rightarrow> invoice \<Rightarrow> string \<Rightarrow> bool" where
  "backs r i p \<longleftrightarrow>
     pay_id r = p \<and> pay_invoice_id r = Some (inv_id i) \<and>
     (\<forall>e. expected_amount i = Some e \<longrightarrow> 0 \<le> e \<longrightarrow> e < 2 ^ 63 \<longrightarrow> pay_amount r = e)"

definition backed :: "'b db \<Rightarrow> bool" where
  "backed d \<longleftrightarrow> (\<forall>i \<in> set (invoices d). \<forall>p. paid_payment_id i = Some p \<longrightarrow> (\<exists>r \<in> set (payments d). backs r i p))"

definition bill :: "invoice \<Rightarrow> string \<times> int option \<times> string option" where
  "bill i = (inv_id i, expected_amount i, paid_payment_id i)"

definition entry :: "payment \<Rightarrow> string \<times> string option \<times> int" where
  "entry r = (pay_id r, pay_invoice_id r, pay_amount r)"

definition ledger_same :: "'b db \<Rightarrow> 'b db \<Rightarrow> bool" where
  "ledger_same d d' \<longleftrightarrow>
     map entry (payments d') = map entry (payments d) \<and>
     (\<forall>j \<in> set (invoices d'). paid_payment_id j \<noteq> None \<longrightarrow> bill j \<in> bill ` set (invoices d))"

lemma backs_cong: "entry r' = entry r \<Longrightarrow> bill i' = bill i \<Longrightarrow> backs r' i' p = backs r i p"
  by (auto simp: backs_def entry_def bill_def)

lemma ledger_same_backed:
  assumes "ledger_same d d'" "backed d"
  shows "backed d'"
  unfolding backed_def
proof (intro ballI allI impI)
  fix j p assume j: "j \<in> set (invoices d')" "paid_payment_id j = Some p"
  then obtain i where i: "i \<in> set (invoices d)" "bill j = bill i" using assms(1) by (auto simp: ledger_same_def)
  then have "paid_payment_id i = Some p" using j(2) by (simp add: bill_def)
  then obtain r where r: "r \<in> set (payments d)" "backs r i p" using assms(2) i(1) by (auto simp: backed_def)
  have "entry r \<in> set (map entry (payments d'))"
    using r(1) assms(1) by (simp add: ledger_same_def del: set_map) simp
  then obtain r' where "r' \<in> set (payments d')" "entry r' = entry r" by auto
  with r(2) i(2) backs_cong show "\<exists>r \<in> set (payments d'). backs r j p" by blast
qed

lemma ledger_same_ids: "ledger_same d d' \<Longrightarrow> map pay_id (payments d') = map pay_id (payments d)"
proof -
  assume "ledger_same d d'"
  then have "map fst (map entry (payments d')) = map fst (map entry (payments d))" by (simp only: ledger_same_def)
  moreover have "fst \<circ> entry = pay_id" by (auto simp: entry_def)
  ultimately show ?thesis by simp
qed

lemma ledger_same_rows:
  assumes "payments d' = payments d" "\<And>j. j \<in> set (invoices d') \<Longrightarrow> \<exists>i \<in> set (invoices d). bill j = bill i"
  shows "ledger_same d d'"
  using assms by (auto simp: ledger_same_def image_iff)

lemma ledger_same_update:
  assumes "\<And>i. p i \<Longrightarrow> bill (f i) = bill i"
  shows "ledger_same d (d\<lparr>invoices := update_where p f (invoices d)\<rparr>)"
  by (rule ledger_same_rows) (use assms in \<open>auto simp: update_where_def\<close>)

lemma ledger_same_payments:
  assumes "\<And>r. entry (f r) = entry r"
  shows "ledger_same d (d\<lparr>payments := update_where p f (payments d)\<rparr>)"
  using assms by (auto simp: ledger_same_def map_update_where)

lemma ledger_same_trans: "ledger_same d d' \<Longrightarrow> ledger_same d' d'' \<Longrightarrow> ledger_same d d''"
  by (fastforce simp: ledger_same_def bill_def image_iff)

lemma ledger_same_create: "ledger_same d (snd (create sh cp rid tok now now' np mp dflt d))"
proof (cases "rid \<in> inv_id ` set (invoices d) \<or> Some tok \<in> token ` set (invoices d)")
  case True
  then show ?thesis by (simp add: create_def ledger_same_def image_iff) blast
next
  case False
  let ?r = "new_row sh cp rid tok now np mp dflt"
  let ?d1 = "d\<lparr>invoices := invoices d @ [?r]\<rparr>"
  have new: "paid_payment_id ?r = None" by (simp add: new_row_def Let_def split: prod.splits)
  have "ledger_same d ?d1" using new by (auto simp: ledger_same_def)
  moreover have "ledger_same ?d1 (snd (get now' rid ?d1))"
    unfolding get_def Let_def expire_if_due_id_def snd_conv
    by (rule ledger_same_update) (simp add: bill_def set_expired_def)
  ultimately have "ledger_same d (snd (get now' rid ?d1))" by (rule ledger_same_trans)
  moreover have "snd (create sh cp rid tok now now' np mp dflt d) = snd (get now' rid ?d1)"
    using False by (simp add: create_def Let_def split: prod.splits option.splits)
  ultimately show ?thesis by simp
qed

interpretation ledger: closed_under_quiet_writes ledger_same "\<lambda>_ _ _. True"
proof unfold_locales
  fix d d' d'' :: "'a db"
  show "ledger_same d d" by (auto simp: ledger_same_def)
  show "ledger_same d d' \<Longrightarrow> ledger_same d' d'' \<Longrightarrow> ledger_same d d''" by (rule ledger_same_trans)
next
  fix d :: "'a db" and p
  show "ledger_same d (d\<lparr>invoices := update_where p set_expired (invoices d)\<rparr>)"
    by (rule ledger_same_update) (simp add: bill_def set_expired_def)
next
  fix d :: "'a db" and sh cp rid tok now now' np mp dflt
  show "ledger_same d (snd (create sh cp rid tok now now' np mp dflt d))" by (rule ledger_same_create)
next
  fix d :: "'a db" and iid sid a
  show "ledger_same d (attach_grin1 iid sid a d)"
    unfolding attach_grin1_def by (rule ledger_same_update) (simp add: bill_def)
next
  fix d :: "'a db" and now iid
  show "ledger_same d (snd (mark_confirmed now iid d))"
    unfolding mark_confirmed_def snd_conv by (rule ledger_same_update) (simp add: bill_def)
next
  fix d :: "'a db" and now sid h n
  show "ledger_same d (record_depth now sid h n d)"
    unfolding record_depth_def by (rule ledger_same_payments) (simp add: entry_def)
next
  fix d :: "'a db" and sid
  show "ledger_same d (mark_replied sid d)"
    unfolding mark_replied_def by (rule ledger_same_payments) (simp add: entry_def)
qed (rule ledger_same_rows; auto simp: drain_tables)+

subsection \<open>The wallet\<close>

text \<open>
  For a wallet with the slate ids it has \<open>logged\<close> and those it holds a context (\<open>ctxs\<close>) for: it
  forgets no id, and gains contexts only with new ids.
\<close>

definition moves :: "('w \<Rightarrow> string set) \<Rightarrow> ('w \<Rightarrow> string set) \<Rightarrow> 'w \<Rightarrow> 'w \<Rightarrow> bool" where
  "moves logged ctxs w w' \<longleftrightarrow> logged w \<subseteq> logged w' \<and> ctxs w' \<subseteq> ctxs w \<union> (logged w' - logged w)"

text \<open>
  What grin-wallet documents: a context belongs to a logged slate; receiving refuses a slate id
  already logged and stores no context; finalizing needs the slate's context and consumes it.
\<close>

definition grin_wallet :: "('w, 's, 'v, 'n) backend \<Rightarrow> ('w \<Rightarrow> string set) \<Rightarrow> ('w \<Rightarrow> string set) \<Rightarrow> bool" where
  "grin_wallet b logged ctxs \<longleftrightarrow>
     (\<forall>w. ctxs w \<subseteq> logged w) \<and>
     (\<forall>s w. moves logged ctxs w (snd (be_receive b s w)) \<and> moves logged ctxs w (snd (be_finalize b s w)) \<and>
            moves logged ctxs w (snd (be_finalize_post b s w)) \<and> moves logged ctxs w (snd (be_post b s w))) \<and>
     (\<forall>a w. moves logged ctxs w (snd (be_issue b a w))) \<and> (\<forall>u w. moves logged ctxs w (snd (be_cancel b u w))) \<and>
     (\<forall>s w s2 w'. be_receive b s w = (Inr s2, w') \<longrightarrow>
        be_id b s2 \<notin> logged w \<and> be_id b s2 \<in> logged w' \<and> ctxs w' \<subseteq> ctxs w) \<and>
     (\<forall>s w x w'. be_finalize b s w = (Inr x, w') \<or> be_finalize_post b s w = (Inr x, w') \<longrightarrow>
        be_id b s \<in> ctxs w \<and> be_id b s \<notin> ctxs w')"

lemma moves_refl: "moves L C w w"
  by (simp add: moves_def)

lemma moves_trans: "moves L C w w' \<Longrightarrow> moves L C w' w'' \<Longrightarrow> moves L C w w''"
  by (auto simp: moves_def)

definition wmoves :: "('w \<Rightarrow> string set) \<Rightarrow> ('w \<Rightarrow> string set) \<Rightarrow> ('w, 'a) wop \<Rightarrow> bool" where
  "wmoves L C m \<longleftrightarrow> (\<forall>w. moves L C w (snd (m w)))"

lemma wmoves_seqw: "wmoves L C m \<Longrightarrow> (\<And>x. wmoves L C (k x)) \<Longrightarrow> wmoves L C (seqw m k)"
  unfolding wmoves_def seqw_def
  by (auto split: prod.splits sum.splits) (metis moves_trans snd_conv)+

lemma wmoves_upstream: "(\<And>w. moves L C w (snd (f w))) \<Longrightarrow> wmoves L C (upstream wrap f)"
  unfolding wmoves_def upstream_def by (auto split: prod.splits sum.splits; metis snd_conv)

lemma wmoves_reads: "wmoves L C (reads wrap g)" "wmoves L C (given r)" "wmoves L C (ret x)" "wmoves L C (fail e)"
  by (auto simp: wmoves_def reads_def given_def ret_def fail_def moves_refl split: sum.split)

lemmas wmoves_intros = wmoves_seqw wmoves_upstream wmoves_reads

lemma wallet_ops_move:
  assumes "grin_wallet b L C"
  shows "wmoves L C (receive_slatepack ed js b a)" "wmoves L C (receive_slate ed js b v)"
    "wmoves L C (issue_invoice b n)" "wmoves L C (finalize_invoice_slatepack url b a)"
    "wmoves L C (finalize_slate b v)" "wmoves L C (cancel_slate b sid)"
proof -
  have s1: "wmoves L C (receive_s1 ed js b slate)" for slate
    unfolding receive_s1_def slate_kernel_excess_def
    by (intro wmoves_intros) (use assms in \<open>simp add: grin_wallet_def\<close>)
  have split: "wmoves L C (if p then m else m')" if "wmoves L C m" "wmoves L C m'" for p and m m' :: "('a, 'x) wop"
    using that by simp
  show "wmoves L C (receive_slatepack ed js b a)"
    unfolding receive_slatepack_def by (intro wmoves_intros split s1) (auto intro: wmoves_reads)
  show "wmoves L C (receive_slate ed js b v)"
    unfolding receive_slate_def Let_def
    by (auto intro!: wmoves_intros s1 split: prod.split)
  show "wmoves L C (issue_invoice b n)"
    unfolding issue_invoice_def by (auto intro!: wmoves_intros) (use assms in \<open>simp add: grin_wallet_def\<close>)
  show "wmoves L C (finalize_invoice_slatepack url b a)"
    unfolding finalize_invoice_slatepack_def slate_kernel_excess_def
    by (auto intro!: wmoves_intros) (use assms in \<open>simp_all add: grin_wallet_def\<close>)
  show "wmoves L C (finalize_slate b v)"
    unfolding finalize_slate_def slate_kernel_excess_def Let_def
    by (intro wmoves_intros) (use assms in \<open>simp add: grin_wallet_def\<close>)
  show "wmoves L C (cancel_slate b sid)"
    unfolding cancel_slate_def by (intro wmoves_intros) (use assms in \<open>simp add: grin_wallet_def\<close>)
qed

lemma received_fresh:
  assumes "grin_wallet b L C"
    and "receive_slatepack ed js b a w = (Inr rcv, w') \<or> receive_slate ed js b v w = (Inr (out, rcv), w')"
  shows "rcv_slate_id rcv \<notin> L w \<and> rcv_slate_id rcv \<in> L w' \<and> rcv_slate_id rcv \<notin> C w'"
proof -
  obtain slate s2 where "receive_s1 ed js b slate w = (Inr (s2, rcv), w')"
    using assms(2) by (auto simp: receive_slatepack_def receive_slate_def Let_def wop_Inr fail_def split: if_splits prod.splits)
  from receive_s1_Inr [OF this] have "be_receive b slate w = (Inr s2, w')" "rcv_slate_id rcv = be_id b s2" by simp_all
  moreover from this(1) have "be_id b s2 \<notin> L w \<and> be_id b s2 \<in> L w' \<and> C w' \<subseteq> C w"
    using assms(1) unfolding grin_wallet_def by blast
  moreover have "C w \<subseteq> L w" using assms(1) by (simp add: grin_wallet_def)
  ultimately show ?thesis by auto
qed

lemma finalized_consumed:
  assumes "grin_wallet b L C"
    and "finalize_invoice_slatepack url b a w = (Inr fin, w') \<or> finalize_slate b v w = (Inr (out, fin), w')"
  shows "fin_slate_id fin \<in> C w \<and> fin_slate_id fin \<notin> C w'"
  using assms(2)
proof
  assume "finalize_invoice_slatepack url b a w = (Inr fin, w')"
  then obtain i2 tx w1 where f: "be_finalize b i2 w = (Inr tx, w1)" "be_post b tx w1 = (Inr (), w')"
      "fin_slate_id fin = be_id b i2"
    by (auto simp: finalize_invoice_slatepack_def wop_Inr fail_def split: if_splits dest!: slate_kernel_excess_Inr)
  then have 1: "be_id b i2 \<in> C w" "be_id b i2 \<notin> C w1" using assms(1) unfolding grin_wallet_def by blast+
  have "moves L C w (snd (be_finalize b i2 w))" "moves L C w1 (snd (be_post b tx w1))" "C w \<subseteq> L w"
    using assms(1) unfolding grin_wallet_def by blast+
  then show ?thesis using 1 f unfolding moves_def by auto
next
  assume "finalize_slate b v w = (Inr (out, fin), w')"
  then obtain tx where "be_finalize_post b (be_from b v) w = (Inr tx, w')" "fin_slate_id fin = be_id b (be_from b v)"
    by (auto simp: finalize_slate_def Let_def wop_Inr dest!: slate_kernel_excess_Inr)
  then show ?thesis using assms(1) unfolding grin_wallet_def by metis
qed

subsection \<open>The two together\<close>

abbreviation pay_ids :: "'b db \<Rightarrow> string set" where
  "pay_ids d \<equiv> pay_id ` set (payments d)"

text \<open>Every recorded slate is logged and no longer has a context.\<close>

definition accounts :: "('w \<Rightarrow> string set) \<Rightarrow> ('w \<Rightarrow> string set) \<Rightarrow> 'w \<Rightarrow> 'b db \<Rightarrow> bool" where
  "accounts L C w d \<longleftrightarrow> pay_ids d \<subseteq> L w \<and> C w \<inter> pay_ids d = {}"

definition sound :: "('w \<Rightarrow> string set) \<Rightarrow> ('w \<Rightarrow> string set) \<Rightarrow> 'w option \<Rightarrow> 'b db \<Rightarrow> bool" where
  "sound L C wo d \<longleftrightarrow> book_wf (invoices d) \<and> backed d \<and> (\<forall>w. wo = Some w \<longrightarrow> accounts L C w d)"

lemma accounts_moves:
  assumes "accounts L C w d" "moves L C w w'" "pay_ids d' \<subseteq> pay_ids d"
  shows "accounts L C w' d'"
  unfolding accounts_def
proof
  have L: "pay_ids d \<subseteq> L w" "C w \<inter> pay_ids d = {}" using assms(1) by (simp_all add: accounts_def)
  have m: "L w \<subseteq> L w'" "C w' \<subseteq> C w \<union> (L w' - L w)" using assms(2) by (simp_all add: moves_def)
  show "pay_ids d' \<subseteq> L w'" using assms(3) L(1) m(1) by (rule subset_trans [OF subset_trans])
  have "x \<notin> C w'" if "x \<in> pay_ids d" for x
  proof -
    have "x \<in> L w" "x \<notin> C w" using that L by (auto simp del: image_iff)
    with m(2) show ?thesis by auto
  qed
  with assms(3) show "C w' \<inter> pay_ids d' = {}" by (meson disjoint_iff subsetD)
qed

lemma accounts_record:
  assumes "accounts L C w d" "moves L C w w'" "pay_ids d' \<subseteq> insert x (pay_ids d)" "x \<in> L w'" "x \<notin> C w'"
  shows "accounts L C w' d'"
proof -
  have "pay_ids d \<subseteq> L w'" "C w' \<inter> pay_ids d = {}"
    using accounts_moves [OF assms(1,2) subset_refl] by (simp_all add: accounts_def)
  with assms(4,5) have "insert x (pay_ids d) \<subseteq> L w'" "C w' \<inter> insert x (pay_ids d) = {}" by simp_all
  with assms(3) show ?thesis unfolding accounts_def by (meson disjoint_iff subset_trans subsetD)
qed

lemma sound_quiet:
  assumes "sound L C wo d" "good_step d d'" "ledger_same d d'"
    and "\<And>w'. wo' = Some w' \<Longrightarrow> \<exists>w. wo = Some w \<and> moves L C w w'"
  shows "sound L C wo' d'"
proof -
  have ids: "pay_ids d' = pay_ids d" using arg_cong [OF ledger_same_ids [OF assms(3)], of set] by simp
  have "accounts L C w' d'" if w': "wo' = Some w'" for w'
  proof -
    obtain w where w: "wo = Some w" "moves L C w w'" using assms(4) [OF w'] by blast
    then have "accounts L C w d" using assms(1) by (simp add: sound_def)
    then show ?thesis by (rule accounts_moves [OF _ w(2)]) (simp add: ids)
  qed
  moreover have "book_wf (invoices d')" using assms(1,2) by (simp add: sound_def good_step_def)
  moreover have "backed d'" using assms(1) ledger_same_backed [OF assms(3)] by (simp add: sound_def)
  ultimately show ?thesis by (simp add: sound_def)
qed

lemma sound_ids: "sound L C wo d \<Longrightarrow> distinct (map inv_id (invoices d))"
  by (simp add: sound_def book_wf_def)

text \<open>A new row backs the one invoice it pays and leaves every other bill as it was.\<close>

lemma backed_record:
  assumes "backed d" "distinct (map inv_id (invoices d'))" "payments d' = payments d @ [r]"
    and "\<And>k j. lookup_by inv_id k (invoices d') = Some j \<Longrightarrow>
           lookup_by inv_id k (invoices d) = Some j \<or> (\<exists>p. paid_payment_id j = Some p \<and> backs r j p)"
  shows "backed d'"
  unfolding backed_def
proof (intro ballI allI impI)
  fix j p assume j: "j \<in> set (invoices d')" "paid_payment_id j = Some p"
  then have "lookup_by inv_id (inv_id j) (invoices d') = Some j" by (simp add: lookup_by_distinct [OF assms(2)])
  from assms(4) [OF this] show "\<exists>r \<in> set (payments d'). backs r j p"
  proof
    assume "lookup_by inv_id (inv_id j) (invoices d) = Some j"
    with assms(1,3) j(2) show ?thesis by (auto simp: backed_def dest!: lookup_by_Some)
  qed (use j(2) assms(3) in auto)
qed

lemma as_i64_u64: "0 \<le> e \<Longrightarrow> e < 2 ^ 63 \<Longrightarrow> as_i64 (as_u64 e) = e"
  using signed_take_bit_int_eq_self [of 63 e] by (simp add: as_i64_def as_u64_def sint_sbintrunc')

lemma backed_persist:
  assumes "backed d" "book_wf (invoices d)" "rcv_slate_id rcv \<notin> pay_ids d"
    and "persist_and_match to_body rid now rcv ph rcpt m dflt hook d = (out, d')"
  shows "book_wf (invoices d') \<and> backed d' \<and> pay_ids d' \<subseteq> insert (rcv_slate_id rcv) (pay_ids d)"
proof (cases out)
  case (Rejected mm)
  have "d' = d" using rejected_no_trace [OF _ assms(3) assms(4) [unfolded Rejected]] assms(2) by (simp add: book_wf_def)
  with assms(1,2) show ?thesis by auto
next
  case (Matched r)
  have dist: "distinct (map inv_id (invoices d))" using assms(2) by (simp add: book_wf_def)
  note acc = accepted_recorded [OF dist assms(3) assms(4) [unfolded Matched]]
  have wf': "book_wf (invoices d')"
    using good_step_persist [of d to_body rid now rcv ph rcpt m dflt hook] assms(2,4) by (simp add: good_step_def)
  then have dist': "distinct (map inv_id (invoices d'))" by (simp add: book_wf_def)
  have "backed d'"
  proof (rule backed_record [OF assms(1) dist'])
    show "payments d' = payments d @ [linked_row now rcv ph rcpt r]" using acc by blast
    fix k j assume j: "lookup_by inv_id k (invoices d') = Some j"
    show "lookup_by inv_id k (invoices d) = Some j \<or>
        (\<exists>p. paid_payment_id j = Some p \<and> backs (linked_row now rcv ph rcpt r) j p)"
    proof (cases "mr_invoice_id r = Some k")
      case True
      with acc obtain i where i: "lookup_by inv_id k (invoices d) = Some i"
          "\<And>e. expected_amount i = Some e \<Longrightarrow> rcv_amount rcv = as_u64 (max e 0)" by blast
      with acc j True have "j = paid_row (now, rcv_slate_id rcv) i" by auto
      with i True lookup_by_Some [OF i(1)] show ?thesis
        by (auto simp: backs_def paid_row_def linked_row_def received_row_def as_i64_u64)
    qed (use acc j in auto)
  qed
  with acc wf' show ?thesis by (auto simp: linked_row_def received_row_def)
qed

lemma backed_settle:
  assumes "backed d" "book_wf (invoices d)" "fin_slate_id fin \<notin> pay_ids d"
    and "d' = settle_finalized to_body rid now fin hook d"
  shows "book_wf (invoices d') \<and> backed d' \<and> pay_ids d' \<subseteq> insert (fin_slate_id fin) (pay_ids d)"
proof (cases "get_by_slate_id (fin_slate_id fin) d")
  case None
  with assms show ?thesis by (auto simp: settle_finalized_def)
next
  case (Some i)
  have dist: "distinct (map inv_id (invoices d))" using assms(2) by (simp add: book_wf_def)
  note res = settle_result [OF dist Some assms(3), of to_body rid now hook, folded assms(4)]
  have wf': "book_wf (invoices d')"
    using book.settle [of d to_body rid now fin hook] assms(2,4) by (simp add: good_step_def)
  then have dist': "distinct (map inv_id (invoices d'))" by (simp add: book_wf_def)
  have "backed d'"
  proof (rule backed_record [OF assms(1) dist'])
    show "payments d' = payments d @ [settled_row now i fin]" using res by blast
    fix k j assume j: "lookup_by inv_id k (invoices d') = Some j"
    show "lookup_by inv_id k (invoices d) = Some j \<or>
        (\<exists>p. paid_payment_id j = Some p \<and> backs (settled_row now i fin) j p)"
    proof (cases "k = inv_id i \<and> inv_status i = ''open''")
      case True
      with res j have "j = paid_row (now, fin_slate_id fin) i" by auto
      then show ?thesis using res by (auto simp: backs_def paid_row_def settled_row_def)
    qed (use res j in auto)
  qed
  with res wf' show ?thesis by (auto simp: settled_row_def)
qed

subsection \<open>The payment surfaces\<close>

lemma sound_wallet:
  "sound L C (Some w) d \<longleftrightarrow> book_wf (invoices d) \<and> backed d \<and> accounts L C w d"
  by (simp add: sound_def)

lemma sound_moved: "sound L C (Some w) d \<Longrightarrow> moves L C w w' \<Longrightarrow> sound L C (Some w') d"
  using accounts_moves [of L C w d w' d] by (simp add: sound_wallet)

lemma sound_received:
  assumes "grin_wallet b L C" "sound L C (Some w) d"
    and "receive_slatepack ed js b a w = (Inr rcv, w') \<or> receive_slate ed js b v w = (Inr (sl, rcv), w')"
    and "persist_and_match to_body rid now rcv ph rcpt m dflt hook d = (out, d')"
  shows "sound L C (Some w') d'"
proof -
  note fresh = received_fresh [OF assms(1,3)]
  have mv: "moves L C w w'"
    using assms(3) wallet_ops_move(1,2) [OF assms(1)] unfolding wmoves_def by (metis snd_conv)
  have "rcv_slate_id rcv \<notin> pay_ids d" using fresh assms(2) by (auto simp: sound_wallet accounts_def)
  then show ?thesis
    using backed_persist [OF _ _ _ assms(4)] assms(2) accounts_record [OF _ mv _ ] fresh by (auto simp: sound_wallet)
qed

lemma sound_settled:
  assumes "grin_wallet b L C" "sound L C (Some w) d"
    and "finalize_invoice_slatepack url b a w = (Inr fin, w') \<or> finalize_slate b v w = (Inr (sl, fin), w')"
  shows "sound L C (Some w') (settle_finalized to_body rid now fin hook d)"
proof -
  note used = finalized_consumed [OF assms(1,3)]
  have mv: "moves L C w w'"
    using assms(3) wallet_ops_move(4,5) [OF assms(1)] unfolding wmoves_def by (metis snd_conv)
  have "C w \<subseteq> L w" using assms(1) by (simp add: grin_wallet_def)
  then have "fin_slate_id fin \<in> L w'" using used mv by (auto simp: moves_def)
  moreover have "fin_slate_id fin \<notin> pay_ids d" using used assms(2) by (auto simp: sound_wallet accounts_def)
  ultimately show ?thesis
    using backed_settle [OF _ _ _ refl, of d fin to_body rid now hook] assms(2) accounts_record [OF _ mv] used
    by (auto simp: sound_wallet)
qed

lemma sound_wallet_receive:
  assumes "grin_wallet b L C" "sound L C (Some (fst st)) (snd st)"
    and "wallet_receive to_body ed js b wr rid now a c st = (res, w', d')"
  shows "sound L C (Some w') d'"
proof (cases "receive_slatepack ed js b a (fst st)")
  case (Pair r w1)
  show ?thesis
  proof (cases r)
    case (Inl e)
    have "moves L C (fst st) w1" using wallet_ops_move(1) [OF assms(1)] Pair unfolding wmoves_def by (metis snd_conv)
    with Inl Pair assms(2,3) sound_moved show ?thesis by (auto simp: wallet_receive_def)
  next
    case (Inr rcv)
    obtain out d1 where p: "persist_and_match to_body rid now rcv (Some (ic_payer_hex c)) (ic_recipient_hex c)
        (ic_memo c) (wr_default_mode wr) (wr_webhook wr) (snd st) = (out, d1)" by fastforce
    from Inr Pair p assms(3) have "w' = w1 \<and> d' = d1" by (auto simp: wallet_receive_def split: persist_outcome.splits)
    with sound_received [OF assms(1,2) _ p] Inr Pair show ?thesis by blast
  qed
qed

lemma sound_paste_outcome:
  assumes "grin_wallet b L C" "sound L C (Some w) d"
    and "paste_outcome to_body ed js b url (pool panic) cfg rid now i armor route w d = (r, w', d')"
  shows "sound L C (Some w') d'"
proof (cases route)
  case (RejectPaste msg)
  with assms(2,3) show ?thesis by (simp add: paste_outcome_def)
next
  case ReceiveS1
  let ?st = "(w, d)"
  obtain r1 w1 where r: "receive_slatepack ed js b armor w = (r1, w1)" by fastforce
  have mv: "moves L C w w1" using wallet_ops_move(1) [OF assms(1)] r unfolding wmoves_def by (metis snd_conv)
  show ?thesis
  proof (cases r1)
    case (Inl e)
    with ReceiveS1 r assms(2,3) sound_moved [OF _ mv] show ?thesis by (simp add: paste_outcome_def)
  next
    case (Inr rcv)
    obtain out d1 where p: "persist_and_match to_body rid now rcv None (or_default (recipient_pubkey i) []) (order_ref i)
        (cfg_match_mode cfg) (webhook_pair (webhook_url cfg) (webhook_secret cfg)) d = (out, d1)" by fastforce
    have "w' = w1 \<and> d' = d1"
      using ReceiveS1 r Inr p assms(3) by (auto simp: paste_outcome_def split: persist_outcome.splits)
    with sound_received [OF assms(1,2) _ p] r Inr show ?thesis by blast
  qed
next
  case FinalizeI2
  obtain r1 w1 where r: "finalize_invoice_slatepack url b armor w = (r1, w1)" by fastforce
  have mv: "moves L C w w1" using wallet_ops_move(4) [OF assms(1)] r unfolding wmoves_def by (metis snd_conv)
  have w': "w' = w1" using FinalizeI2 r assms(3)
    by (auto simp: paste_outcome_def pool_def split: option.splits sum.splits)
  show ?thesis
  proof (cases "panic = None \<and> (\<exists>fin. r1 = Inr fin)")
    case True
    then obtain fin where "r1 = Inr fin" "panic = None" by blast
    then show ?thesis using sound_settled [OF assms(1,2), of url armor fin w1] FinalizeI2 r assms(3)
      by (auto simp: paste_outcome_def pool_def)
  next
    case False
    then have "d' = d" using FinalizeI2 r assms(3)
      by (auto simp: paste_outcome_def pool_def split: option.splits sum.splits)
    with w' sound_moved [OF assms(2) mv] show ?thesis by simp
  qed
qed

lemma sound_paste:
  assumes "grin_wallet b L C" "sound L C wo d"
    and "manual_slatepack to_body ed js b url (pool panic) cfg rid now tok pasted wo d = (res, wo', d')"
  shows "sound L C wo' d'"
proof -
  obtain x d1 where g: "get_by_token now tok d = (x, d1)" by fastforce
  have d1: "sound L C wo d1"
    by (rule sound_quiet [OF assms(2)])
       (use book.get_by_token [of d now tok] ledger.get_by_token [of d now tok] g in \<open>auto simp: moves_refl\<close>)
  show ?thesis
  proof (cases "x = None \<or> wo = None")
    case True
    with g d1 assms(3) show ?thesis by (auto simp: manual_slatepack_def Let_def split: option.splits)
  next
    case False
    then obtain i w where x: "x = Some i" "wo = Some w" by auto
    obtain r route w1 d2 where po: "paste_outcome to_body ed js b url (pool panic) cfg rid now i (trim pasted) route w d1 = (r, w1, d2)"
      "wo' = Some w1" "d' = d2"
      using assms(3) x g by (auto simp: manual_slatepack_def Let_def split: prod.splits)
    with sound_paste_outcome [OF assms(1) d1 [unfolded x] po(1)] show ?thesis by simp
  qed
qed

lemma sound_rpc:
  assumes "grin_wallet (wo_backend E) L C" "sound L C (Some w) d"
    and "handle to_body from_value () rid now hook (Some (foreign_wallet E panic w)) req d = (reply, d')"
  shows "sound L C (Some (after_rpc E from_value req w)) d'"
proof (cases "slate_param from_value (rpc_params req)")
  case (Inl e)
  with assms(2,3) show ?thesis
    by (auto simp: handle_def receive_tx_def finalize_tx_def after_rpc_def split: if_splits)
next
  case (Inr v)
  obtain r1 w1 where r: "receive_slate (wo_ed E) (wo_json E) (wo_backend E) v w = (r1, w1)" by fastforce
  obtain r2 w2 where f: "finalize_slate (wo_backend E) v w = (r2, w2)" by fastforce
  have mv: "moves L C w w1" "moves L C w w2"
    using wallet_ops_move(2,5) [OF assms(1)] r f unfolding wmoves_def by (metis snd_conv)+
  consider (recv) "rpc_method req = ''receive_tx''" | (fin) "rpc_method req = ''finalize_tx''"
    | (other) "rpc_method req \<noteq> ''receive_tx''" "rpc_method req \<noteq> ''finalize_tx''" by blast
  then show ?thesis
  proof cases
    case recv
    show ?thesis
    proof (cases "panic = None \<and> (\<exists>x. r1 = Inr x)")
      case True
      then obtain out rcv where x: "panic = None" "r1 = Inr (out, rcv)" by auto
      obtain o2 d2 where p: "persist_and_match to_body rid now rcv None '''' None AmountMode hook d = (o2, d2)" by fastforce
      with recv x Inr r assms(3) have "d' = d2 \<and> after_rpc E from_value req w = w1"
        by (auto simp: handle_def receive_tx_def foreign_wallet_def pool_def after_rpc_def)
      with sound_received [OF assms(1,2) _ p] r x(2) show ?thesis by blast
    next
      case False
      with recv Inr r assms(3) have "d' = d \<and> after_rpc E from_value req w = w1"
        by (auto simp: handle_def receive_tx_def foreign_wallet_def pool_def after_rpc_def split: option.splits sum.splits)
      with sound_moved [OF assms(2) mv(1)] show ?thesis by simp
    qed
  next
    case fin
    show ?thesis
    proof (cases "panic = None \<and> (\<exists>x. r2 = Inr x)")
      case True
      then obtain out fin where x: "panic = None" "r2 = Inr (out, fin)" by auto
      with fin Inr f assms(3) have "d' = settle_finalized to_body rid now fin hook d \<and> after_rpc E from_value req w = w2"
        by (auto simp: handle_def finalize_tx_def foreign_wallet_def pool_def after_rpc_def)
      with sound_settled [OF assms(1,2), of url a fin w2 v out] f x(2) show ?thesis by blast
    next
      case False
      with fin Inr f assms(3) have "d' = d \<and> after_rpc E from_value req w = w2"
        by (auto simp: handle_def finalize_tx_def foreign_wallet_def pool_def after_rpc_def split: option.splits sum.splits)
      with sound_moved [OF assms(2) mv(2)] show ?thesis by simp
    qed
  next
    case other
    with assms(2,3) Inr show ?thesis by (auto simp: handle_def after_rpc_def split: if_splits)
  qed
qed

lemma cancel_run_moves: "grin_wallet b L C \<Longrightarrow> cancel_run b sids w = (rs, w') \<Longrightarrow> moves L C w w'"
proof (induction sids arbitrary: w rs)
  case Nil
  then show ?case by (simp add: moves_refl)
next
  case (Cons sid sids)
  obtain r w1 where c: "cancel_slate b sid w = (r, w1)" by fastforce
  obtain rs2 w2 where rest: "cancel_run b sids w1 = (rs2, w2)" by fastforce
  have mv: "moves L C w w1" using wallet_ops_move(6) [OF Cons.prems(1)] c unfolding wmoves_def by (metis snd_conv)
  have "w2 = w'" using Cons.prems(2) c rest by simp
  with rest have "moves L C w1 w'" by (auto intro: Cons.IH [OF Cons.prems(1)])
  with mv show ?case by (rule moves_trans)
qed

lemma create_invoice_moves:
  fixes d :: "'x db"
  assumes "grin_wallet (env_backend env) L C" "env_blocking env = pool panic"
    and "create_invoice env cfg signer header body rid tok now now1 now2 orc wo d = (reply, orc', wo', d')" "wo' = Some w'"
  shows "\<exists>w. wo = Some w \<and> moves L C w w'"
proof -
  have arm: "\<exists>w. wo = Some w \<and> moves L C w w'"
    if "arm_grin1_rail (env_backend env) (pool panic) cfg now2 i wo d1 = (i', Some w', d2)" for i i' and d1 d2 :: "'x db"
  proof -
    have "\<exists>w. wo = Some w \<and> (w' = w \<or> (\<exists>n. w' = snd (issue_invoice (env_backend env) n w)))"
      using that
      by (auto simp: arm_grin1_rail_def pool_def split: if_splits option.splits prod.splits sum.splits)
    with wallet_ops_move(3) [OF assms(1)] show ?thesis unfolding wmoves_def by (auto intro: moves_refl)
  qed
  have "wo' = wo \<or> (\<exists>i (d1 :: 'x db) i' d2. arm_grin1_rail (env_backend env) (pool panic) cfg now2 i wo d1 = (i', wo', d2))"
    using assms(2,3) by (auto simp: create_invoice_def Let_def split: if_splits option.splits prod.splits sum.splits)
  with arm assms(4) show ?thesis by (auto intro: moves_refl)
qed

subsection \<open>Every step\<close>

abbreviation sound_server where
  "sound_server L C s \<equiv> sound L C (sv_wallet s) (sv_db s)"

lemma sound_same_wallet:
  assumes "sound L C wo d" "good_step d d'" "ledger_same d d'"
  shows "sound L C wo d'"
  using assms by (rule sound_quiet) (auto simp: moves_refl)

lemma tenant_op_same: "tenant_op epub d d' \<Longrightarrow> ledger_same d d'"
  using tenant_op_tables [of epub d d'] by (auto simp: ledger_same_def)

lemma sound_step:
  assumes "grin_wallet (wo_backend E) L C" "serve E s t" "sound_server L C s"
  shows "sound_server L C t"
  using assms(2,3)
proof (induction rule: serve.induct)
  case (gift_wrap s w look rid now now1 now2 ev out t)
  have rx: "rx t = (w, sv_db s) \<or> (\<exists>a c. rx t = snd (wo_receive E rid now a c (w, sv_db s)))"
    using handle_wrap_rx [of "pipeline E look rid now" now1 now2 ev "\<lparr>seen = sv_seen s, rate = sv_rate s, rx = (w, sv_db s)\<rparr>"]
      gift_wrap(2) by (simp add: pipeline_def)
  have "sound L C (Some (fst (rx t))) (snd (rx t))"
    if r: "rx t = snd (wo_receive E rid now a c (w, sv_db s))" for a c
  proof -
    obtain res w' d' where "wo_receive E rid now a c (w, sv_db s) = (res, w', d')" by (rule prod_cases3)
    with sound_wallet_receive [OF assms(1), of "(w, sv_db s)"] gift_wrap(1,3) r show ?thesis
      by (simp add: wo_receive_def)
  qed
  with rx gift_wrap(1,3) show ?case by auto
next
  case (api_create panic header body rid tok now now1 now2 s reply orc' w' d')
  let ?env = "(wo_api E)\<lparr>env_blocking := pool panic\<rparr>"
  have "d' = snd (snd (snd (create_invoice ?env (wo_cfg E) (wo_signer E) header body rid tok
      now now1 now2 (sv_oracle s) (sv_wallet s) (sv_db s))))" using api_create(1) by simp
  then have "good_step (sv_db s) d'" "ledger_same (sv_db s) d'"
    by (simp_all add: book.create_invoice ledger.create_invoice)
  then have "sound L C w' d'"
    using create_invoice_moves [where env = ?env, OF _ _ api_create(1)] assms(1)
    by (intro sound_quiet [OF api_create(2)]) auto
  then show ?case by simp
next
  case (paste panic rid now tok pasted s res w' d')
  then show ?case using sound_paste [OF assms(1) paste(2) paste(1)] by simp
next
  case (rpc s w from_value rid now panic req reply d')
  then show ?case using sound_rpc [OF assms(1), of w "sv_db s" "wo_body E" from_value rid now "wo_hook E" panic req reply d']
    by simp
next
  case (sweep s w now rs w')
  have "moves L C w w'" by (rule cancel_run_moves [OF assms(1) sweep(2)])
  then have "sound L C (Some w') (expiry_sweep (\<lambda>k _. Inr (rs ! k)) now (sv_db s))"
    using sweep(1) by (intro sound_quiet [OF sweep(3) book.expiry_sweep ledger.expiry_sweep]) auto
  then show ?case by simp
next
  case (tenant s d')
  then show ?case using sound_same_wallet [OF tenant(2) tenant_op_good tenant_op_same] by simp
qed (simp_all add: sound_same_wallet book.replies ledger.replies book.get_invoice ledger.get_invoice
      book.list_invoices ledger.list_invoices book.pay_page ledger.pay_page book.pay_status ledger.pay_status
      book.confirm_pending ledger.confirm_pending book.drains ledger.drains)

lemma sound_run:
  "(serve E)\<^sup>*\<^sup>* s t \<Longrightarrow> grin_wallet (wo_backend E) L C \<Longrightarrow> sound_server L C s \<Longrightarrow> sound_server L C t"
  by (induction rule: rtranclp_induct) (auto intro: sound_step)

lemma reachable_sound:
  assumes "grin_wallet (wo_backend E) L C" "reachable E s"
  shows "sound_server L C s"
proof -
  obtain s0 where s0: "booted s0" "(serve E)\<^sup>*\<^sup>* s0 s" using assms(2) by (auto simp: reachable_def)
  have "sound_server L C s0"
    using s0(1) by (auto simp: booted_def sound_def accounts_def backed_def empty_db_def book_wf_def)
  then show ?thesis by (rule sound_run [OF s0(2) assms(1)])
qed


lemma till_is_grin_wallet: "grin_wallet till_backend (\<lambda>(l, c). set (l @ c)) (\<lambda>(l, c). set c)"
  by (auto simp: grin_wallet_def till_backend_def moves_def split: if_splits)


end
