(* ===== verification/Directory.thy ===== *)
theory Directory
  imports Lifecycle Derive
begin

text \<open>
  \<open>crates/gp-server/src/directory.rs\<close> and the \<open>KeyDirectory\<close> seam of \<open>gp-nostr/src/lib.rs\<close>:
  the identities the server holds keys for (the master key, one child per open derived
  invoice, the watched endpubs), resolved from a snapshot that a maintenance tick rebuilds.
  nostr-sdk's key types are a \<open>key_sdk\<close>: \<open>'k\<close> key pairs, \<open>'p\<close> public keys.
\<close>

subsection \<open>Keys\<close>

record ('k, 'p) key_sdk =
  sdk_from_secret :: "bytes \<Rightarrow> 'k option"
  sdk_public :: "'k \<Rightarrow> 'p"
  sdk_to_hex :: "'p \<Rightarrow> string"
  sdk_from_hex :: "string \<Rightarrow> 'p option"

abbreviation key_hex :: "('k, 'p) key_sdk \<Rightarrow> 'k \<Rightarrow> string" where
  "key_hex n k \<equiv> sdk_to_hex n (sdk_public n k)"

text \<open>
  nostr-sdk and secp256k1 agree: a valid scalar makes a key pair, whose public key in hex is the
  x-only key's bytes; hex text of a public key parses back to it.
\<close>

definition key_laws :: "('k, 'p) key_sdk \<Rightarrow> (bytes \<Rightarrow> bool) \<Rightarrow> (bytes \<Rightarrow> bytes) \<Rightarrow> bool" where
  "key_laws n valid xonly \<longleftrightarrow>
     (\<forall>sk. valid sk \<longrightarrow> (\<exists>k. sdk_from_secret n sk = Some k \<and> key_hex n k = hex_encode (xonly sk))) \<and>
     (\<forall>p. sdk_from_hex n (sdk_to_hex n p) = Some p)"

text \<open>\<open>MasterDirectory\<close>: the master identity alone.\<close>

definition master_resolve :: "('k, 'p) key_sdk \<Rightarrow> 'k \<Rightarrow> string \<Rightarrow> 'k option" where
  "master_resolve n k h = (if key_hex n k = h then Some k else None)"

definition master_watched :: "('k, 'p) key_sdk \<Rightarrow> 'k \<Rightarrow> 'p list" where
  "master_watched n k = [sdk_public n k]"

subsection \<open>The directory\<close>

text \<open>The \<open>HashMap\<close> of the snapshot is an association list with distinct keys, in insertion order.\<close>

type_synonym snapshot = "(string \<times> bytes) list"

record 'k db_directory =
  dir_master :: 'k
  dir_master_hex :: string
  dir_snapshot :: snapshot

definition directory_new :: "('k, 'p) key_sdk \<Rightarrow> 'k \<Rightarrow> 'k db_directory" where
  "directory_new n master = \<lparr>dir_master = master, dir_master_hex = key_hex n master, dir_snapshot = []\<rparr>"

definition dir_resolve :: "('k, 'p) key_sdk \<Rightarrow> 'k db_directory \<Rightarrow> string \<Rightarrow> 'k option" where
  "dir_resolve n dir h =
     (if h = dir_master_hex dir then Some (dir_master dir)
      else (case map_of (dir_snapshot dir) h of None \<Rightarrow> None | Some sk \<Rightarrow> sdk_from_secret n sk))"

definition dir_watched :: "('k, 'p) key_sdk \<Rightarrow> 'k db_directory \<Rightarrow> 'p list" where
  "dir_watched n dir =
     sdk_public n (dir_master dir) # List.map_filter (sdk_from_hex n) (map fst (dir_snapshot dir))"

subsection \<open>Rebuilding the snapshot\<close>

definition derived_invoices :: "match_mode_t \<Rightarrow> 'b db \<Rightarrow> invoice list" where
  "derived_invoices dflt d = filter (\<lambda>i. inv_status i = ''open'' \<and> scoped dflt DerivedMode i) (invoices d)"

text \<open>\<open>None\<close> is a derivation that finds no valid scalar (a panic in \<open>derive.rs\<close>).\<close>

fun insert_invoices ::
  "(bytes \<Rightarrow> bytes) \<Rightarrow> (bytes \<Rightarrow> bool) \<Rightarrow> (bytes \<Rightarrow> bytes) \<Rightarrow> bytes \<Rightarrow> invoice list \<Rightarrow> snapshot \<Rightarrow> snapshot option" where
  "insert_invoices sha valid xonly sk [] m = Some m"
| "insert_invoices sha valid xonly sk (i # rows) m =
     (case (case recipient_pubkey i of Some pk \<Rightarrow> Some pk
            | None \<Rightarrow> invoice_pubkey_hex sha valid xonly sk (inv_id i)) of
        None \<Rightarrow> None
      | Some pk \<Rightarrow>
          (case invoice_secret sha valid sk (inv_id i) of
             None \<Rightarrow> None
           | Some s \<Rightarrow> insert_invoices sha valid xonly sk rows (AList.update pk s m)))"

fun insert_endpubs ::
  "(bytes \<Rightarrow> bytes) \<Rightarrow> (bytes \<Rightarrow> bool) \<Rightarrow> bytes \<Rightarrow> endpub list \<Rightarrow> snapshot \<Rightarrow> snapshot option" where
  "insert_endpubs sha valid sk [] m = Some m"
| "insert_endpubs sha valid sk (e # eps) m =
     (case endpub_secret sha valid sk (ep_user e) (ep_epoch e) of
        None \<Rightarrow> None
      | Some s \<Rightarrow> insert_endpubs sha valid sk eps (AList.update (ep_pubkey e) s m))"

text \<open>\<open>inv_read\<close> and \<open>ep_read\<close> say whether the two scans succeed; a failed scan counts as empty.\<close>

definition build_snapshot ::
  "(bytes \<Rightarrow> bytes) \<Rightarrow> (bytes \<Rightarrow> bool) \<Rightarrow> (bytes \<Rightarrow> bytes) \<Rightarrow> bytes \<Rightarrow> bool \<Rightarrow> bool \<Rightarrow> match_mode_t \<Rightarrow> int \<Rightarrow> 'b db
   \<Rightarrow> snapshot option" where
  "build_snapshot sha valid xonly sk inv_read ep_read dflt overlap d =
     Option.bind (insert_invoices sha valid xonly sk (if inv_read then derived_invoices dflt d else []) [])
       (insert_endpubs sha valid sk (if ep_read then watched_pubkeys overlap d else []))"

text \<open>One round of the maintenance loop: rotate, then replace the snapshot.\<close>

definition maintenance_tick ::
  "(bytes \<Rightarrow> bytes) \<Rightarrow> (bytes \<Rightarrow> bool) \<Rightarrow> (bytes \<Rightarrow> bytes) \<Rightarrow> bytes \<Rightarrow> (string \<Rightarrow> int \<Rightarrow> string) \<Rightarrow> bool \<Rightarrow> bool \<Rightarrow> match_mode_t
   \<Rightarrow> int \<Rightarrow> int \<Rightarrow> int \<Rightarrow> 'k db_directory \<Rightarrow> 'b db \<Rightarrow> ('k db_directory \<times> 'b db) option" where
  "maintenance_tick sha valid xonly sk epub inv_read ep_read dflt interval overlap now dir d =
     (let d' = (if 0 < interval then snd (rotate_due epub now interval d) else d) in
      map_option (\<lambda>m. (dir\<lparr>dir_snapshot := m\<rparr>, d'))
        (build_snapshot sha valid xonly sk inv_read ep_read dflt overlap d'))"

subsection \<open>The seam's contract\<close>

text \<open>A resolved key owns the identity that was asked for, and what is watched can be resolved.\<close>

locale key_directory =
  fixes resolve :: "'d \<Rightarrow> string \<Rightarrow> 'k option"
    and watched :: "'d \<Rightarrow> 'p list"
    and hex :: "'k \<Rightarrow> string"
    and text_of :: "'p \<Rightarrow> string"
    and ok :: "'d \<Rightarrow> bool"
  assumes resolve_owns: "ok d \<Longrightarrow> resolve d h = Some k \<Longrightarrow> hex k = h"
    and watched_resolves: "ok d \<Longrightarrow> p \<in> set (watched d) \<Longrightarrow> \<exists>k. resolve d (text_of p) = Some k \<and> hex k = text_of p"
begin

lemma received_key:
  assumes "ok d" "ie_resolve env = resolve d"
    and "handle_wrap env now1 now2 ev s = (ReceivedWrap sid amt rep, s')"
  shows "find_p_tag (ev_tags ev) = Some (hex (rep_from rep)) \<and> resolve d (hex (rep_from rep)) = Some (rep_from rep)"
proof -
  have key: "rep_from rep = key" if "handle_rumor env now2 wid key u t = (ReceivedWrap sid amt rep, s')" for wid key u t
    using that by (auto simp: handle_rumor_def Let_def build_reply_def
        split: ingest_decision.splits prod.splits bool.splits sum.splits receive_error.splits)
  obtain h key u m where "find_p_tag (ev_tags ev) = Some h" "resolve d h = Some key"
      "handle_rumor env now2 (ev_id ev) key u (s\<lparr>rate := m\<rparr>) = (ReceivedWrap sid amt rep, s')"
    using assms(2,3) by (auto simp: handle_wrap_def Let_def split: if_splits prod.splits bool.splits option.splits bind_splits)
  with key resolve_owns [OF assms(1)] show ?thesis by blast
qed

end

interpretation master_only: key_directory "master_resolve n" "master_watched n" "key_hex n" "sdk_to_hex n" "\<lambda>_. True"
  for n :: "('k, 'p) key_sdk"
  by unfold_locales (auto simp: master_resolve_def master_watched_def split: if_splits)

definition dir_ok :: "('k, 'p) key_sdk \<Rightarrow> 'k db_directory \<Rightarrow> bool" where
  "dir_ok n dir \<longleftrightarrow>
     (\<forall>p. sdk_from_hex n (sdk_to_hex n p) = Some p) \<and> dir_master_hex dir = key_hex n (dir_master dir) \<and>
     (\<forall>h sk. map_of (dir_snapshot dir) h = Some sk \<longrightarrow> (\<exists>k. sdk_from_secret n sk = Some k \<and> key_hex n k = h))"

lemma dir_ok_entry:
  assumes "dir_ok n dir" "map_of (dir_snapshot dir) h = Some sk"
  obtains k where "sdk_from_secret n sk = Some k" "key_hex n k = h"
  using assms unfolding dir_ok_def by blast

lemma dir_owns:
  assumes "dir_ok n dir" "dir_resolve n dir h = Some k"
  shows "key_hex n k = h"
proof (cases "h = dir_master_hex dir")
  case True
  with assms show ?thesis by (simp add: dir_resolve_def dir_ok_def)
next
  case False
  with assms(2) obtain sk where "map_of (dir_snapshot dir) h = Some sk" "sdk_from_secret n sk = Some k"
    by (auto simp: dir_resolve_def split: option.splits)
  with dir_ok_entry [OF assms(1)] show ?thesis by (metis option.sel)
qed

lemma dir_resolves_iff:
  assumes "dir_ok n dir"
  shows "dir_resolve n dir h \<noteq> None \<longleftrightarrow> h = dir_master_hex dir \<or> h \<in> fst ` set (dir_snapshot dir)"
proof (cases "map_of (dir_snapshot dir) h")
  case None
  moreover from None have "h \<notin> fst ` set (dir_snapshot dir)" by (simp add: map_of_eq_None_iff)
  ultimately show ?thesis by (simp add: dir_resolve_def)
next
  case (Some sk)
  then have "h \<in> fst ` set (dir_snapshot dir)" by (metis map_of_eq_None_iff option.distinct(1))
  moreover obtain k where "sdk_from_secret n sk = Some k" by (rule dir_ok_entry [OF assms Some])
  ultimately show ?thesis using Some by (simp add: dir_resolve_def)
qed

lemma set_mapped: "set (List.map_filter f xs) = {y. \<exists>x \<in> set xs. f x = Some y}"
  by (force simp: List.map_filter_def)

lemma dir_watched_set:
  assumes "dir_ok n dir"
  shows "sdk_to_hex n ` set (dir_watched n dir) = {h. dir_resolve n dir h \<noteq> None}"
proof -
  have parses: "\<exists>p. sdk_from_hex n h = Some p \<and> sdk_to_hex n p = h" if h: "h \<in> fst ` set (dir_snapshot dir)" for h
  proof -
    obtain sk where "map_of (dir_snapshot dir) h = Some sk" using h by (metis map_of_eq_None_iff not_None_eq)
    then obtain k where "key_hex n k = h" using dir_ok_entry [OF assms] by metis
    then show ?thesis using assms by (auto simp: dir_ok_def)
  qed
  have unique: "sdk_from_hex n h = Some p \<Longrightarrow> h \<in> fst ` set (dir_snapshot dir) \<Longrightarrow> sdk_to_hex n p = h" for h p
    using parses [of h] by simp
  have "sdk_to_hex n ` set (List.map_filter (sdk_from_hex n) (map fst (dir_snapshot dir))) = fst ` set (dir_snapshot dir)"
  proof (intro set_eqI iffI)
    fix h assume "h \<in> sdk_to_hex n ` set (List.map_filter (sdk_from_hex n) (map fst (dir_snapshot dir)))"
    then obtain g p where "g \<in> fst ` set (dir_snapshot dir)" "sdk_from_hex n g = Some p" "h = sdk_to_hex n p"
      by (auto simp: set_mapped)
    with unique [of g p] show "h \<in> fst ` set (dir_snapshot dir)" by simp
  next
    fix h assume h: "h \<in> fst ` set (dir_snapshot dir)"
    with parses [OF h] show "h \<in> sdk_to_hex n ` set (List.map_filter (sdk_from_hex n) (map fst (dir_snapshot dir)))"
      by (auto simp: set_mapped image_iff)
  qed
  then have "sdk_to_hex n ` set (dir_watched n dir) = insert (dir_master_hex dir) (fst ` set (dir_snapshot dir))"
    using assms by (simp add: dir_watched_def dir_ok_def)
  then show ?thesis using dir_resolves_iff [OF assms] by auto
qed

interpretation held: key_directory "dir_resolve n" "dir_watched n" "key_hex n" "sdk_to_hex n" "dir_ok n"
  for n :: "('k, 'p) key_sdk"
proof unfold_locales
  fix dir h k
  assume "dir_ok n dir" "dir_resolve n dir h = Some k"
  then show "key_hex n k = h" by (rule dir_owns)
next
  fix dir p
  assume ok: "dir_ok n dir" and p: "p \<in> set (dir_watched n dir)"
  then obtain k where "dir_resolve n dir (sdk_to_hex n p) = Some k" using dir_watched_set [OF ok] by blast
  with dir_owns [OF ok] show "\<exists>k. dir_resolve n dir (sdk_to_hex n p) = Some k \<and> key_hex n k = sdk_to_hex n p"
    by blast
qed

subsection \<open>What a rebuilt snapshot holds\<close>

definition snapshot_sound :: "(bytes \<Rightarrow> bool) \<Rightarrow> (bytes \<Rightarrow> bytes) \<Rightarrow> snapshot \<Rightarrow> bool" where
  "snapshot_sound valid xonly m \<longleftrightarrow> (\<forall>h s. map_of m h = Some s \<longrightarrow> valid s \<and> h = hex_encode (xonly s))"

lemma snapshot_sound_update:
  "snapshot_sound valid xonly m \<Longrightarrow> valid s \<Longrightarrow> h = hex_encode (xonly s) \<Longrightarrow> snapshot_sound valid xonly (AList.update h s m)"
  by (simp add: snapshot_sound_def update_conv')

lemma keys_update: "fst ` set (AList.update k v m) = insert k (fst ` set m)"
  by (metis dom_map_of_conv_image_fst update_conv' dom_fun_upd option.distinct(1))

lemma child_secret_of_pubkey:
  assumes "child_pubkey_hex sha valid xonly sk ctx = Some h"
  obtains s where "child_secret sha valid sk ctx = Some s" "valid s" "h = hex_encode (xonly s)"
  using assms child_secret_from_valid [of sha valid sk ctx 0] by (auto simp: child_pubkey_hex_def child_secret_def)

lemma insert_invoices_adds:
  assumes "\<And>iid. invoice_pubkey_hex sha valid xonly sk iid = Some (child iid)"
    and "\<And>i. i \<in> set rows \<Longrightarrow> recipient_pubkey i = Some (child (inv_id i))" "snapshot_sound valid xonly m"
  shows "\<exists>m'. insert_invoices sha valid xonly sk rows m = Some m' \<and> snapshot_sound valid xonly m' \<and>
    fst ` set m' = fst ` set m \<union> (\<lambda>i. child (inv_id i)) ` set rows"
  using assms(2,3)
proof (induction rows arbitrary: m)
  case (Cons i rows)
  obtain s where s: "invoice_secret sha valid sk (inv_id i) = Some s" "valid s" "child (inv_id i) = hex_encode (xonly s)"
    using child_secret_of_pubkey [OF assms(1) [of "inv_id i", unfolded invoice_pubkey_hex_def]]
    by (auto simp: invoice_secret_def)
  let ?m = "AList.update (child (inv_id i)) s m"
  have "snapshot_sound valid xonly ?m" by (rule snapshot_sound_update [OF Cons.prems(2) s(2,3)])
  from Cons.IH [OF Cons.prems(1) this] Cons.prems(1) [of i] s(1) show ?case by (auto simp: keys_update)
qed simp

lemma insert_endpubs_adds:
  assumes "\<And>u e. endpub_pubkey_hex sha valid xonly sk u e = Some (epub u e)"
    and "\<And>e. e \<in> set eps \<Longrightarrow> ep_pubkey e = epub (ep_user e) (ep_epoch e)" "snapshot_sound valid xonly m"
  shows "\<exists>m'. insert_endpubs sha valid sk eps m = Some m' \<and> snapshot_sound valid xonly m' \<and>
    fst ` set m' = fst ` set m \<union> ep_pubkey ` set eps"
  using assms(2,3)
proof (induction eps arbitrary: m)
  case (Cons e eps)
  obtain s where s: "endpub_secret sha valid sk (ep_user e) (ep_epoch e) = Some s" "valid s"
      "epub (ep_user e) (ep_epoch e) = hex_encode (xonly s)"
    using child_secret_of_pubkey [OF assms(1) [of "ep_user e" "ep_epoch e", unfolded endpub_pubkey_hex_def]]
    by (auto simp: endpub_secret_def)
  let ?m = "AList.update (epub (ep_user e) (ep_epoch e)) s m"
  have "snapshot_sound valid xonly ?m" by (rule snapshot_sound_update [OF Cons.prems(2) s(2,3)])
  from Cons.IH [OF Cons.prems(1) this] Cons.prems(1) [of e] s(1) show ?case by (auto simp: keys_update)
qed simp

text \<open>The key columns of the invoice table: every row carries the identity its effective mode asks for.\<close>

definition keyed :: "(string \<Rightarrow> string) \<Rightarrow> string \<Rightarrow> match_mode_t \<Rightarrow> invoice list \<Rightarrow> bool" where
  "keyed child mpub dflt rows \<longleftrightarrow>
     (\<forall>i \<in> set rows. recipient_pubkey i = Some (if scoped dflt DerivedMode i then child (inv_id i) else mpub))"

lemma keyed_update:
  assumes "\<And>i. recipient_pubkey (f i) = recipient_pubkey i \<and> inv_id (f i) = inv_id i \<and> match_mode (f i) = match_mode i"
  shows "keyed child mpub dflt rows \<Longrightarrow> keyed child mpub dflt (update_where p f rows)"
  using assms by (auto simp: keyed_def set_update_where scoped_def)

lemma snd_create:
  "snd (create sh cp rid tok now now' p mp dflt d) =
     (if rid \<in> inv_id ` set (invoices d) \<or> Some tok \<in> token ` set (invoices d) then d
      else snd (get now' rid (d\<lparr>invoices := invoices d @ [new_row sh cp rid tok now p mp dflt]\<rparr>)))"
  by (simp add: create_def Let_def split: prod.split option.split)

lemma keyed_create:
  "keyed child mpub dflt (invoices d) \<Longrightarrow>
   keyed child mpub dflt (invoices (snd (create sh child rid tok now now' np mpub dflt d)))"
proof -
  assume k: "keyed child mpub dflt (invoices d)"
  let ?r = "new_row sh child rid tok now np mpub dflt"
  have "scoped dflt DerivedMode ?r \<longleftrightarrow> effective_new_mode np dflt = DerivedMode"
    by (cases "ni_match_mode np"; cases dflt; simp add: new_row_def Let_def scoped_def effective_new_mode_def mode_str_def
        split: prod.split match_mode_t.split)
  then have "keyed child mpub dflt [?r]"
    by (auto simp: keyed_def new_row_def Let_def split: prod.split)
  then have "keyed child mpub dflt (invoices d @ [?r])" using k by (auto simp: keyed_def)
  then have "keyed child mpub dflt (update_where p set_expired (invoices d @ [?r]))" for p
    by (rule keyed_update [rotated]) (simp add: set_expired_def)
  with k show ?thesis
    unfolding snd_create by (simp add: get_def expire_if_due_id_def Let_def del: update_where_append)
qed

definition keyed_step :: "(string \<Rightarrow> string) \<Rightarrow> string \<Rightarrow> match_mode_t \<Rightarrow> 'b db \<Rightarrow> 'b db \<Rightarrow> bool" where
  "keyed_step child mpub dflt d d' \<longleftrightarrow> (keyed child mpub dflt (invoices d) \<longrightarrow> keyed child mpub dflt (invoices d'))"

lemma keyed_step_same: "invoices d' = invoices d \<Longrightarrow> keyed_step child mpub dflt d d'"
  by (simp add: keyed_step_def)

lemma keyed_step_update:
  assumes "\<And>i. recipient_pubkey (f i) = recipient_pubkey i \<and> inv_id (f i) = inv_id i \<and> match_mode (f i) = match_mode i"
  shows "keyed_step child mpub dflt d (d\<lparr>invoices := update_where p f (invoices d)\<rparr>)"
  by (simp add: keyed_step_def keyed_update [OF assms])

interpretation keys: closed_under_writes "keyed_step child mpub dflt" "\<lambda>c m f. c = child \<and> m = mpub \<and> f = dflt"
  for child mpub dflt
proof unfold_locales
  fix d d' d'' :: "'a db"
  show "keyed_step child mpub dflt d d' \<Longrightarrow> keyed_step child mpub dflt d' d'' \<Longrightarrow> keyed_step child mpub dflt d d''"
    by (simp add: keyed_step_def)
next
  fix cp mp f sh rid tok now now' np and d :: "'a db"
  assume "cp = child \<and> mp = mpub \<and> f = dflt"
  then show "keyed_step child mpub dflt d (snd (create sh cp rid tok now now' np mp f d))"
    by (simp add: keyed_step_def keyed_create)
next
  fix p and d :: "'a db"
  show "keyed_step child mpub dflt d (d\<lparr>invoices := update_where p set_expired (invoices d)\<rparr>)"
    by (rule keyed_step_update) (simp add: set_expired_def)
next
  fix iid sid a and d :: "'a db"
  show "keyed_step child mpub dflt d (attach_grin1 iid sid a d)"
    unfolding attach_grin1_def by (rule keyed_step_update) simp
next
  fix now iid pid and d :: "'a db"
  show "keyed_step child mpub dflt d (snd (mark_paid now iid pid d))"
    unfolding mark_paid_def snd_conv by (rule keyed_step_update) simp
next
  fix now iid and d :: "'a db"
  show "keyed_step child mpub dflt d (snd (mark_confirmed now iid d))"
    unfolding mark_confirmed_def snd_conv by (rule keyed_step_update) simp
qed (rule keyed_step_same, simp add: record_depth_def mark_replied_def enqueue_def drain_tables insert_payment_def
       delete_payment_def link_payment_def)+

lemma reachable_keyed:
  assumes "reachable E s" "wo_signer E = Some (mpub, child)"
  shows "keyed child mpub (cfg_match_mode (wo_cfg E)) (invoices (sv_db s))"
proof -
  obtain s0 where s0: "booted s0" "(serve E)\<^sup>*\<^sup>* s0 s" using assms(1) by (auto simp: reachable_def)
  from s0(2) show ?thesis
  proof (induction rule: rtranclp_induct)
    case base
    with s0(1) show ?case by (simp add: booted_def empty_db_def keyed_def)
  next
    case (step t u)
    have "keyed_step child mpub (cfg_match_mode (wo_cfg E)) (sv_db t) (sv_db u) \<or> tenant_op (wo_epub E) (sv_db t) (sv_db u)"
      by (rule keys.serve_step [OF step(2)]) (simp add: assms(2))
    with step(3) show ?case using tenant_op_tables by (fastforce simp: keyed_step_def)
  qed
qed

lemma rebuilt_directory:
  assumes "reachable E s" "wo_signer E = Some (mpub, child)" "key_laws n valid xonly" "key_hex n master = mpub"
    and "\<And>iid. invoice_pubkey_hex sha valid xonly sk iid = Some (child iid)"
    and "\<And>u e. endpub_pubkey_hex sha valid xonly sk u e = Some (wo_epub E u e)"
  shows "\<exists>m. build_snapshot sha valid xonly sk True True (cfg_match_mode (wo_cfg E)) overlap (sv_db s) = Some m \<and>
    (let dir = (directory_new n master)\<lparr>dir_snapshot := m\<rparr> in
       {h. dir_resolve n dir h \<noteq> None} =
         insert mpub ({h. \<exists>i \<in> set (invoices (sv_db s)). inv_status i = ''open'' \<and>
                           scoped (cfg_match_mode (wo_cfg E)) DerivedMode i \<and> recipient_pubkey i = Some h} \<union>
                      ep_pubkey ` set (watched_pubkeys overlap (sv_db s))) \<and>
       (\<forall>h. case dir_resolve n dir h of Some k \<Rightarrow> key_hex n k = h | None \<Rightarrow> True) \<and>
       sdk_to_hex n ` set (dir_watched n dir) = {h. dir_resolve n dir h \<noteq> None})"
proof -
  let ?d = "sv_db s" and ?dflt = "cfg_match_mode (wo_cfg E)"
  have rows: "recipient_pubkey i = Some (child (inv_id i))" if "i \<in> set (derived_invoices ?dflt ?d)" for i
    using reachable_keyed [OF assms(1,2)] that by (simp add: keyed_def derived_invoices_def)
  have eps: "ep_pubkey e = wo_epub E (ep_user e) (ep_epoch e)" if "e \<in> set (watched_pubkeys overlap ?d)" for e
    using reachable_wf [OF assms(1)] that by (simp add: set_watched server_wf_def tenants_wf_def)
  obtain m1 where m1: "insert_invoices sha valid xonly sk (derived_invoices ?dflt ?d) [] = Some m1"
      "snapshot_sound valid xonly m1" "fst ` set m1 = (\<lambda>i. child (inv_id i)) ` set (derived_invoices ?dflt ?d)"
    using insert_invoices_adds [OF assms(5) rows, of "derived_invoices ?dflt ?d" "[]"] by (auto simp: snapshot_sound_def)
  obtain m where m: "insert_endpubs sha valid sk (watched_pubkeys overlap ?d) m1 = Some m"
      "snapshot_sound valid xonly m" "fst ` set m = fst ` set m1 \<union> ep_pubkey ` set (watched_pubkeys overlap ?d)"
    using insert_endpubs_adds [OF assms(6) eps m1(2)] by blast
  let ?dir = "(directory_new n master)\<lparr>dir_snapshot := m\<rparr>"
  have ok: "dir_ok n ?dir"
    using m(2) assms(3) by (fastforce simp: dir_ok_def directory_new_def key_laws_def snapshot_sound_def)
  have "(\<lambda>i. child (inv_id i)) ` set (derived_invoices ?dflt ?d) =
      {h. \<exists>i \<in> set (invoices ?d). inv_status i = ''open'' \<and> scoped ?dflt DerivedMode i \<and> recipient_pubkey i = Some h}"
    using rows by (force simp: derived_invoices_def)
  then have "{h. dir_resolve n ?dir h \<noteq> None} =
      insert mpub ({h. \<exists>i \<in> set (invoices ?d). inv_status i = ''open'' \<and> scoped ?dflt DerivedMode i \<and>
         recipient_pubkey i = Some h} \<union> ep_pubkey ` set (watched_pubkeys overlap ?d))"
    using dir_resolves_iff [OF ok] m(3) m1(3) assms(4) by (auto simp: directory_new_def)
  moreover have "build_snapshot sha valid xonly sk True True ?dflt overlap ?d = Some m"
    using m1(1) m(1) by (simp add: build_snapshot_def)
  moreover have "\<forall>h. case dir_resolve n ?dir h of Some k \<Rightarrow> key_hex n k = h | None \<Rightarrow> True"
    using dir_owns [OF ok] by (auto split: option.split)
  ultimately show ?thesis using dir_watched_set [OF ok] by (auto simp: Let_def)
qed

text \<open>C9: the server can unwrap exactly what is addressed to it. In every state it can reach, rebuilding the
  directory's snapshot succeeds, and the new directory holds a key for the master identity, for the
  identity of every open invoice in derived mode, for every tenant key of a current or still
  overlapping epoch, and for nothing else; the key it answers with owns the identity it was asked
  for; and the identities the relays are asked to watch are exactly those.\<close>

theorem directory_resolves_exactly:
  assumes "reachable E s" "wo_signer E = Some (mpub, child)" "key_laws n valid xonly" "key_hex n master = mpub"
    and "\<And>iid. invoice_pubkey_hex sha valid xonly sk iid = Some (child iid)"
    and "\<And>u e. endpub_pubkey_hex sha valid xonly sk u e = Some (wo_epub E u e)"
  shows "\<exists>m. build_snapshot sha valid xonly sk True True (cfg_match_mode (wo_cfg E)) overlap (sv_db s) = Some m \<and>
    (let dir = (directory_new n master)\<lparr>dir_snapshot := m\<rparr> in
       {h. dir_resolve n dir h \<noteq> None} =
         insert mpub ({h. \<exists>i \<in> set (invoices (sv_db s)). inv_status i = ''open'' \<and>
                           scoped (cfg_match_mode (wo_cfg E)) DerivedMode i \<and> recipient_pubkey i = Some h} \<union>
                      ep_pubkey ` set (watched_pubkeys overlap (sv_db s))) \<and>
       (\<forall>h. case dir_resolve n dir h of Some k \<Rightarrow> key_hex n k = h | None \<Rightarrow> True) \<and>
       sdk_to_hex n ` set (dir_watched n dir) = {h. dir_resolve n dir h \<noteq> None})"
  using assms by (rule rebuilt_directory)

subsection \<open>A shop with a derived invoice and a tenant\<close>

definition sample_sdk :: "(bytes, string) key_sdk" where
  "sample_sdk = \<lparr>sdk_from_secret = Some, sdk_public = hex_encode, sdk_to_hex = (\<lambda>h. h), sdk_from_hex = Some\<rparr>"

definition sample_child :: "string \<Rightarrow> string" where
  "sample_child iid = hex_encode ([7] @ concat (invoice_context iid))"

definition sample_epub :: "string \<Rightarrow> int \<Rightarrow> string" where
  "sample_epub u e = hex_encode ([7] @ concat (endpub_context u e))"

definition key_world ::
  "(string list \<times> string list, string \<times> slate_state \<times> u64, string \<times> slate_state \<times> u64, unit, string, string, string) world" where
  "key_world = sample_world\<lparr>wo_signer := Some (hex_encode [7], sample_child), wo_epub := sample_epub\<rparr>"

definition key_order :: "(string list \<times> string list, string) server" where
  "key_order =
     (case create_invoice ((wo_api key_world)\<lparr>env_blocking := pool None\<rparr>) api_config (wo_signer key_world)
         (Some ''Bearer tok'') (sample_body\<lparr>cb_match_mode := Some ''derived''\<rparr>) ''a1'' ''tt'' 10 10 11 sample_oracle
         (Some ([], [])) empty_db of
        (_, orc, w, d) \<Rightarrow> shop_open\<lparr>sv_oracle := orc, sv_wallet := w, sv_db := d\<rparr>)"

definition key_shop :: "(string list \<times> string list, string) server" where
  "key_shop = key_order\<lparr>sv_db := snd (create_user sample_epub ''r'' 12 12 (Some ''bob'') None (sv_db key_order))\<rparr>"

lemma key_shop_reachable: "reachable key_world key_shop"
proof -
  obtain r orc w d where c: "create_invoice ((wo_api key_world)\<lparr>env_blocking := pool None\<rparr>) api_config (wo_signer key_world)
         (Some ''Bearer tok'') (sample_body\<lparr>cb_match_mode := Some ''derived''\<rparr>) ''a1'' ''tt'' 10 10 11 sample_oracle
         (Some ([], [])) (empty_db :: string db) = (r, orc, w, d)"
    by (rule prod_cases4)
  have "serve key_world shop_open (shop_open\<lparr>sv_oracle := orc, sv_wallet := w, sv_db := d\<rparr>)"
    by (rule serve.api_create) (use c in \<open>simp add: key_world_def sample_world_def shop_open_def\<close>)
  with c have "serve key_world shop_open key_order" by (simp add: key_order_def)
  moreover have "tenant_op (wo_epub key_world) (sv_db key_order)
      (snd (create_user sample_epub ''r'' 12 12 (Some ''bob'') None (sv_db key_order)))"
    unfolding key_world_def by simp (rule tenant_op.user_created)
  then have "serve key_world key_order key_shop" unfolding key_shop_def by (rule serve.tenant)
  moreover have "booted shop_open" by (simp add: booted_def shop_open_def)
  ultimately show ?thesis unfolding reachable_def by (blast intro: rtranclp.intros)
qed

lemma key_shop_rows:
  "map (\<lambda>i. (inv_status i, scoped MemoMode DerivedMode i, recipient_pubkey i)) (invoices (sv_db key_shop)) =
     [(''open'', True, Some (sample_child ''a1''))]"
  "map ep_pubkey (watched_pubkeys 0 (sv_db key_shop)) = [sample_epub ''bob'' 0]"
  by code_simp+

theorem directory_resolves_exactly_witness:
  "\<exists>m. build_snapshot (\<lambda>b. b) (\<lambda>_. True) (\<lambda>b. b) [7] True True MemoMode 0 (sv_db key_shop) = Some m \<and>
     {h. dir_resolve sample_sdk ((directory_new sample_sdk [7])\<lparr>dir_snapshot := m\<rparr>) h \<noteq> None} =
       {''07'', sample_child ''a1'', sample_epub ''bob'' 0}"
proof -
  have mode: "cfg_match_mode (wo_cfg key_world) = MemoMode" by code_simp
  have "wo_signer key_world = Some (''07'', sample_child)" "key_hex sample_sdk [7] = ''07''"
    by (simp_all add: key_world_def sample_sdk_def) (code_simp)+
  moreover have "key_laws sample_sdk (\<lambda>_. True) (\<lambda>b. b)" by (simp add: key_laws_def sample_sdk_def)
  moreover have "invoice_pubkey_hex (\<lambda>b. b) (\<lambda>_. True) (\<lambda>b. b) [7] iid = Some (sample_child iid)" for iid
    by (simp add: invoice_pubkey_hex_def child_pubkey_hex_def child_secret_first sample_child_def)
  moreover have "endpub_pubkey_hex (\<lambda>b. b) (\<lambda>_. True) (\<lambda>b. b) [7] u e = Some (wo_epub key_world u e)" for u e
    by (simp add: endpub_pubkey_hex_def child_pubkey_hex_def child_secret_first key_world_def sample_epub_def)
  ultimately obtain m where m: "build_snapshot (\<lambda>b. b) (\<lambda>_. True) (\<lambda>b. b) [7] True True MemoMode 0 (sv_db key_shop) = Some m"
      "{h. dir_resolve sample_sdk ((directory_new sample_sdk [7])\<lparr>dir_snapshot := m\<rparr>) h \<noteq> None} =
         insert ''07'' ({h. \<exists>i \<in> set (invoices (sv_db key_shop)). inv_status i = ''open'' \<and> scoped MemoMode DerivedMode i \<and>
              recipient_pubkey i = Some h} \<union> ep_pubkey ` set (watched_pubkeys 0 (sv_db key_shop)))"
    using directory_resolves_exactly [OF key_shop_reachable, of "''07''" sample_child sample_sdk "\<lambda>_. True" "\<lambda>b. b" "[7]"
        "\<lambda>b. b" "[7]" 0] by (auto simp: mode Let_def)
  have "ep_pubkey ` set (watched_pubkeys 0 (sv_db key_shop)) = {sample_epub ''bob'' 0}"
    using arg_cong [OF key_shop_rows(2), of set] by simp
  moreover have "{h. \<exists>i \<in> set (invoices (sv_db key_shop)). inv_status i = ''open'' \<and> scoped MemoMode DerivedMode i \<and>
        recipient_pubkey i = Some h} = {sample_child ''a1''}"
    using key_shop_rows(1) by auto
  ultimately show ?thesis using m by auto
qed

subsection \<open>What the tick leaves out\<close>

text \<open>
  With no global rotation interval the tick never calls the rotation, so a tenant's own interval
  (\<open>rotate_interval\<close>, which overrides the global one in \<open>rotate_due\<close>) is not honoured.
\<close>

lemma tick_ignores_own_intervals:
  assumes "interval \<le> 0" "maintenance_tick sha valid xonly sk epub ir er dflt interval overlap now dir d = Some (dir', d')"
  shows "d' = d"
  using assms by (auto simp: maintenance_tick_def Let_def)

lemma own_interval_was_due:
  assumes "tenants_wf epub d" "get_user uid d = Some u" "rotate_interval u = Some i" "0 < i" "i \<le> now - last_rotated_at u"
  shows "\<exists>v. get_user uid (snd (rotate_due epub now 0 d)) = Some v \<and> epoch v = epoch u + 1"
proof -
  have dist: "distinct (map user_id (users d))" using assms(1) by (simp add: tenants_wf_def)
  then have all: "get_user (user_id v) d = Some v" if "v \<in> set (users d)" for v
    using that by (simp add: get_user_def lookup_by_distinct)
  obtain n d' where "rotate_each epub now 0 (users d) 0 d = (Inr n, d')"
      "get_user uid d' = (case lookup_by user_id uid (users d) of
           Some u \<Rightarrow> Some (if rotation_due now 0 u then u\<lparr>epoch := epoch u + 1, last_rotated_at := now\<rparr> else u)
         | None \<Rightarrow> get_user uid d)"
    using rotate_each_result [OF assms(1) dist all, of now 0 0] by auto
  then show ?thesis using assms(2-5) by (simp add: rotate_due_def get_user_def rotation_due_def)
qed

text \<open>
  A failed scan of the invoices empties their part of the snapshot, and a wrap to one of their
  identities that arrives before the next rebuild is marked as processed: a later delivery is
  refused though the key is held again.
\<close>

lemma failed_scan_forgets:
  assumes "build_snapshot sha valid xonly sk False False dflt overlap d = Some m"
  shows "m = []"
  using assms by (simp add: build_snapshot_def)

lemma forgotten_key_loses_wrap:
  assumes "ie_resolve env = dir_resolve n ((directory_new n master)\<lparr>dir_snapshot := []\<rparr>)"
    and "find_p_tag (ev_tags ev) = Some h" "h \<noteq> key_hex n master" "ev_is_gift_wrap ev"
    and "length (ev_content ev) \<le> MAX_WRAP_CONTENT" "ev_id ev \<notin> seen s" "allow_global_unwrap now1 (rate s) = (True, m)"
    and "handle_wrap env now1 now2 ev s = (out, s')"
  shows "out = DroppedWrap ''not a watched identity'' \<and>
    handle_wrap (env\<lparr>ie_resolve := look\<rparr>) now3 now4 ev s' = (DroppedWrap ''already processed'', s')"
  using assms by (auto simp: handle_wrap_def Let_def dir_resolve_def directory_new_def mark_def)

end
