(* ===== verification/Wrap.thy ===== *)
theory Wrap
  imports Ingest "HOL-Library.Countable"
begin

text \<open>
  \<open>crates/gp-nostr/src/wrap.rs\<close>: gift wrap build and unwrap in both NIP-44 versions, and the
  choice of the version. Encryption, signatures, hashes and JSON of nostr-sdk and of the
  \<open>nip44\<close> crate are the operations of a \<open>wrap_sdk\<close>; the random choices of one wrap (two
  timestamps, nonces, the ephemeral key) are a \<open>wrap_rand\<close>. \<open>ws_wrap_seal\<close> is nostr-sdk's
  \<open>gift_wrap_from_seal\<close>, the outer layer of a version 2 wrap.
\<close>

subsection \<open>Data\<close>

definition ENCRYPTION_TAG :: string where "ENCRYPTION_TAG = ''encryption''"
definition ENCRYPTION_CAPABILITIES :: string where "ENCRYPTION_CAPABILITIES = ''nip44_v3 nip44_v2''"
definition SEAL_KIND :: nat where "SEAL_KIND = 13"
definition WRAP_KIND :: nat where "WRAP_KIND = 1059"
definition EMPTY_SCOPE :: string where "EMPTY_SCOPE = []"

datatype wrap_version = V2 | V3

datatype wrap_error = NotGiftWrap | NotSeal | SenderMismatch | CryptoError string | EventError string

definition show_wrap_error :: "wrap_error \<Rightarrow> string" where
  "show_wrap_error e =
     (case e of
        NotGiftWrap \<Rightarrow> ''not a gift wrap event''
      | NotSeal \<Rightarrow> ''inner event is not a seal''
      | SenderMismatch \<Rightarrow> ''rumor author differs from seal signer''
      | CryptoError m \<Rightarrow> ''wrap crypto error: '' @ m
      | EventError m \<Rightarrow> ''wrap event error: '' @ m)"

text \<open>An event before it is signed: kind, tags, content, timestamp.\<close>

record unsigned_parts =
  up_kind :: nat
  up_tags :: "string list list"
  up_content :: string
  up_created_at :: int

record ('k, 'c) wrap_sdk =
  ws_pub :: "'k \<Rightarrow> string"
  ws_event_id :: "rumor \<Rightarrow> string"
  ws_rumor_json :: "rumor \<Rightarrow> string"
  ws_rumor_of_json :: "string \<Rightarrow> string + rumor"
  ws_event_json :: "event \<Rightarrow> string"
  ws_event_of_json :: "string \<Rightarrow> string + event"
  ws_sign :: "'k \<Rightarrow> unsigned_parts \<Rightarrow> string + event"
  ws_verify :: "event \<Rightarrow> string + unit"
  ws_version :: "string \<Rightarrow> string + nat"
  ws_encrypt_v2 :: "'k \<Rightarrow> string \<Rightarrow> string \<Rightarrow> nat \<Rightarrow> string + string"
  ws_decrypt_v2 :: "'k \<Rightarrow> string \<Rightarrow> string \<Rightarrow> string + string"
  ws_secret :: "'k \<Rightarrow> string + string"
  ws_xonly :: "string \<Rightarrow> string + string"
  ws_conversation :: "string \<Rightarrow> string \<Rightarrow> 'c"
  ws_encrypt_v3 :: "'c \<Rightarrow> string \<Rightarrow> nat \<Rightarrow> string \<Rightarrow> nat \<Rightarrow> string + string"
  ws_decrypt_v3 :: "'c \<Rightarrow> string \<Rightarrow> nat \<Rightarrow> string \<Rightarrow> string + string"
  ws_utf8 :: "string \<Rightarrow> string + string"
  ws_wrap_seal :: "int \<Rightarrow> nat \<Rightarrow> 'k \<Rightarrow> string \<Rightarrow> event \<Rightarrow> string + event"

record 'k wrap_rand =
  wr_seal_time :: int
  wr_wrap_time :: int
  wr_seal_nonce :: nat
  wr_wrap_nonce :: nat
  wr_ephemeral :: 'k

definition crypto :: "string + 'a \<Rightarrow> wrap_error + 'a" where
  "crypto r = (case r of Inl m \<Rightarrow> Inl (CryptoError m) | Inr a \<Rightarrow> Inr a)"

definition in_event :: "string + 'a \<Rightarrow> wrap_error + 'a" where
  "in_event r = (case r of Inl m \<Rightarrow> Inl (EventError m) | Inr a \<Rightarrow> Inr a)"

lemma crypto_Inr [simp]: "crypto r = Inr a \<longleftrightarrow> r = Inr a" "crypto (Inr a) = Inr a"
  by (simp_all add: crypto_def split: sum.split)

lemma in_event_Inr [simp]: "in_event r = Inr a \<longleftrightarrow> r = Inr a" "in_event (Inr a) = Inr a"
  by (simp_all add: in_event_def split: sum.split)

subsection \<open>Negotiation\<close>

fun first_mutual :: "string list \<Rightarrow> wrap_version" where
  "first_mutual [] = V2"
| "first_mutual (m # ms) = (if m = ''nip44_v3'' then V3 else if m = ''nip44_v2'' then V2 else first_mutual ms)"

definition choose_version :: "string option \<Rightarrow> wrap_version" where
  "choose_version enc = (case enc of None \<Rightarrow> V2 | Some tag \<Rightarrow> first_mutual (split_whitespace tag))"

fun encryption_capability :: "string list list \<Rightarrow> string option" where
  "encryption_capability [] = None"
| "encryption_capability (parts # tags) =
     (case parts of
        k # rest \<Rightarrow> if k = ENCRYPTION_TAG then (case rest of v # _ \<Rightarrow> Some v | [] \<Rightarrow> None)
                    else encryption_capability tags
      | [] \<Rightarrow> encryption_capability tags)"

definition capability_tag :: "string list" where
  "capability_tag = [ENCRYPTION_TAG, ENCRYPTION_CAPABILITIES]"

subsection \<open>Wrapping\<close>

definition ensure_id :: "('k, 'c) wrap_sdk \<Rightarrow> rumor \<Rightarrow> rumor" where
  "ensure_id n r = (case rm_id r of Some _ \<Rightarrow> r | None \<Rightarrow> r\<lparr>rm_id := Some (ws_event_id n r)\<rparr>)"

definition sealed :: "('k, 'c) wrap_sdk \<Rightarrow> 'k \<Rightarrow> string \<Rightarrow> int \<Rightarrow> wrap_error + event" where
  "sealed n sender content at =
     in_event (ws_sign n sender \<lparr>up_kind = 13, up_tags = [], up_content = content, up_created_at = at\<rparr>)"

text \<open>The v3 conversation key: both keys are converted, then the \<open>nip44\<close> crate's exchange.\<close>

definition v3_conversation_key :: "('k, 'c) wrap_sdk \<Rightarrow> 'k \<Rightarrow> string \<Rightarrow> wrap_error + 'c" where
  "v3_conversation_key n ours theirs =
     (case ws_secret n ours of
        Inl e \<Rightarrow> Inl (CryptoError (''bad secret key: '' @ e))
      | Inr sk \<Rightarrow>
          (case ws_xonly n theirs of
             Inl e \<Rightarrow> Inl (CryptoError (''bad public key: '' @ e))
           | Inr pk \<Rightarrow> Inr (ws_conversation n sk pk)))"

definition gift_wrap ::
  "('k, 'c) wrap_sdk \<Rightarrow> 'k wrap_rand \<Rightarrow> 'k \<Rightarrow> string \<Rightarrow> rumor \<Rightarrow> wrap_version \<Rightarrow> wrap_error + event" where
  "gift_wrap n rnd sender receiver rumor version =
     (let r = ensure_id n rumor in
      case version of
        V2 \<Rightarrow>
          and_then (crypto (ws_encrypt_v2 n sender receiver (ws_rumor_json n r) (wr_seal_nonce rnd))) (\<lambda>content.
          and_then (sealed n sender content (wr_seal_time rnd)) (\<lambda>seal.
          in_event (ws_wrap_seal n (wr_wrap_time rnd) (wr_wrap_nonce rnd) (wr_ephemeral rnd) receiver seal)))
      | V3 \<Rightarrow>
          and_then (v3_conversation_key n sender receiver) (\<lambda>ck.
          and_then (crypto (ws_encrypt_v3 n ck (ws_rumor_json n r) SEAL_KIND EMPTY_SCOPE (wr_seal_nonce rnd))) (\<lambda>content.
          and_then (sealed n sender content (wr_seal_time rnd)) (\<lambda>seal.
          and_then (v3_conversation_key n (wr_ephemeral rnd) receiver) (\<lambda>wck.
          and_then (crypto (ws_encrypt_v3 n wck (ws_event_json n seal) WRAP_KIND EMPTY_SCOPE (wr_wrap_nonce rnd))) (\<lambda>wrapped.
          in_event (ws_sign n (wr_ephemeral rnd)
            \<lparr>up_kind = 1059, up_tags = [[''p'', receiver]], up_content = wrapped,
             up_created_at = wr_wrap_time rnd\<rparr>)))))))"

subsection \<open>Unwrapping\<close>

definition decrypt_layer :: "('k, 'c) wrap_sdk \<Rightarrow> 'k \<Rightarrow> string \<Rightarrow> string \<Rightarrow> nat \<Rightarrow> wrap_error + string" where
  "decrypt_layer n keys author content expected_kind =
     and_then (crypto (ws_version n content)) (\<lambda>v.
       if v = 2 then crypto (ws_decrypt_v2 n keys author content)
       else if v = 3 then
         and_then (v3_conversation_key n keys author) (\<lambda>ck.
         and_then (crypto (ws_decrypt_v3 n ck content expected_kind EMPTY_SCOPE)) (\<lambda>plain.
         crypto (ws_utf8 n plain)))
       else Inl (CryptoError (''unsupported nip44 version '' @ show_nat v)))"

definition unwrap_gift_wrap :: "('k, 'c) wrap_sdk \<Rightarrow> 'k \<Rightarrow> event \<Rightarrow> wrap_error + unwrapped" where
  "unwrap_gift_wrap n receiver ev =
     (if ev_kind ev \<noteq> 1059 then Inl NotGiftWrap
      else
        and_then (decrypt_layer n receiver (ev_pubkey ev) (ev_content ev) WRAP_KIND) (\<lambda>seal_json.
        and_then (in_event (ws_event_of_json n seal_json)) (\<lambda>seal.
        and_then (in_event (ws_verify n seal)) (\<lambda>_.
        if ev_kind seal \<noteq> 13 then Inl NotSeal
        else
          and_then (decrypt_layer n receiver (ev_pubkey seal) (ev_content seal) SEAL_KIND) (\<lambda>rumor_json.
          and_then (in_event (ws_rumor_of_json n rumor_json)) (\<lambda>rumor.
          if rm_pubkey rumor \<noteq> ev_pubkey seal then Inl SenderMismatch
          else Inr \<lparr>uw_sender = ev_pubkey seal, uw_rumor = rumor\<rparr>))))))"

subsection \<open>What the crates promise\<close>

text \<open>
  Both versions decrypt what they encrypted, the exchange is symmetric, JSON reads back what it
  printed (and is UTF-8), a signed event verifies and has the signer's key, and
  \<open>gift_wrap_from_seal\<close> is the version 2 outer layer.
\<close>

definition wrap_laws :: "('k, 'c) wrap_sdk \<Rightarrow> bool" where
  "wrap_laws n \<longleftrightarrow>
     (\<forall>a b p nonce c. ws_encrypt_v2 n a (ws_pub n b) p nonce = Inr c \<longrightarrow>
        ws_version n c = Inr 2 \<and> ws_decrypt_v2 n b (ws_pub n a) c = Inr p) \<and>
     (\<forall>ck p k sc nonce c. ws_encrypt_v3 n ck p k sc nonce = Inr c \<longrightarrow>
        ws_version n c = Inr 3 \<and> ws_decrypt_v3 n ck c k sc = Inr p) \<and>
     (\<forall>a b ck. v3_conversation_key n a (ws_pub n b) = Inr ck \<longrightarrow> v3_conversation_key n b (ws_pub n a) = Inr ck) \<and>
     (\<forall>r. ws_rumor_of_json n (ws_rumor_json n r) = Inr r \<and> ws_utf8 n (ws_rumor_json n r) = Inr (ws_rumor_json n r)) \<and>
     (\<forall>e. ws_event_of_json n (ws_event_json n e) = Inr e \<and> ws_utf8 n (ws_event_json n e) = Inr (ws_event_json n e)) \<and>
     (\<forall>k u e. ws_sign n k u = Inr e \<longrightarrow> ws_verify n e = Inr () \<and> ev_pubkey e = ws_pub n k \<and>
        ev_kind e = up_kind u \<and> ev_tags e = up_tags u \<and> ev_content e = up_content u) \<and>
     (\<forall>t nonce k receiver seal e. ws_wrap_seal n t nonce k receiver seal = Inr e \<longrightarrow>
        (\<exists>c. ws_encrypt_v2 n k receiver (ws_event_json n seal) nonce = Inr c \<and>
             ws_sign n k \<lparr>up_kind = 1059, up_tags = [[''p'', receiver]], up_content = c, up_created_at = t\<rparr> = Inr e))"

lemma decrypt_v2_layer:
  assumes "wrap_laws n" "ws_encrypt_v2 n a (ws_pub n b) p nonce = Inr c"
  shows "decrypt_layer n b (ws_pub n a) c k = Inr p"
  using assms unfolding wrap_laws_def by (auto simp: decrypt_layer_def)

lemma decrypt_v3_layer:
  assumes "wrap_laws n" "v3_conversation_key n a (ws_pub n b) = Inr ck" "ws_utf8 n p = Inr p"
    and "ws_encrypt_v3 n ck p k EMPTY_SCOPE nonce = Inr c"
  shows "decrypt_layer n b (ws_pub n a) c k = Inr p"
proof -
  have "ws_version n c = Inr 3 \<and> ws_decrypt_v3 n ck c k EMPTY_SCOPE = Inr p" "v3_conversation_key n b (ws_pub n a) = Inr ck"
    using assms(1,2,4) unfolding wrap_laws_def by blast+
  then show ?thesis using assms(3) by (simp add: decrypt_layer_def)
qed

lemma sign_fields:
  "wrap_laws n \<Longrightarrow> ws_sign n k u = Inr e \<Longrightarrow> ws_verify n e = Inr () \<and> ev_pubkey e = ws_pub n k \<and>
     ev_kind e = up_kind u \<and> ev_tags e = up_tags u \<and> ev_content e = up_content u"
  unfolding wrap_laws_def by blast

lemma wrap_seal_fields:
  "wrap_laws n \<Longrightarrow> ws_wrap_seal n t nonce k receiver seal = Inr e \<Longrightarrow>
   \<exists>c. ws_encrypt_v2 n k receiver (ws_event_json n seal) nonce = Inr c \<and>
       ws_sign n k \<lparr>up_kind = 1059, up_tags = [[''p'', receiver]], up_content = c, up_created_at = t\<rparr> = Inr e"
  by (simp add: wrap_laws_def)

lemma sealed_fields:
  assumes "wrap_laws n" "sealed n k content at = Inr seal"
  shows "ws_verify n seal = Inr () \<and> ev_pubkey seal = ws_pub n k \<and> ev_kind seal = 13 \<and> ev_content seal = content"
  using sign_fields [OF assms(1), of k _ seal] assms(2) by (auto simp: sealed_def)

lemma json_laws:
  assumes "wrap_laws n"
  shows "ws_rumor_of_json n (ws_rumor_json n r) = Inr r" "ws_utf8 n (ws_rumor_json n r) = Inr (ws_rumor_json n r)"
    "ws_event_of_json n (ws_event_json n e) = Inr e" "ws_utf8 n (ws_event_json n e) = Inr (ws_event_json n e)"
  using assms unfolding wrap_laws_def by blast+

text \<open>Both versions put a seal with the rumor inside a signed wrap; only the layers' encryption differs.\<close>

lemma gift_wrap_layers:
  assumes laws: "wrap_laws n" and w: "gift_wrap n rnd a (ws_pub n b) r v = Inr ev"
  obtains seal content where
    "ev_kind ev = 1059" "ev_tags ev = [[''p'', ws_pub n b]]" "ev_pubkey ev = ws_pub n (wr_ephemeral rnd)"
    "sealed n a content (wr_seal_time rnd) = Inr seal"
    "decrypt_layer n b (ev_pubkey ev) (ev_content ev) WRAP_KIND = Inr (ws_event_json n seal)"
    "decrypt_layer n b (ws_pub n a) content SEAL_KIND = Inr (ws_rumor_json n (ensure_id n r))"
proof (cases v)
  case V2
  with w obtain content seal where s:
      "ws_encrypt_v2 n a (ws_pub n b) (ws_rumor_json n (ensure_id n r)) (wr_seal_nonce rnd) = Inr content"
      "sealed n a content (wr_seal_time rnd) = Inr seal"
      "ws_wrap_seal n (wr_wrap_time rnd) (wr_wrap_nonce rnd) (wr_ephemeral rnd) (ws_pub n b) seal = Inr ev"
    by (auto simp: gift_wrap_def Let_def and_then_Inr)
  obtain c where c: "ws_encrypt_v2 n (wr_ephemeral rnd) (ws_pub n b) (ws_event_json n seal) (wr_wrap_nonce rnd) = Inr c"
      "ws_sign n (wr_ephemeral rnd) \<lparr>up_kind = 1059, up_tags = [[''p'', ws_pub n b]], up_content = c,
          up_created_at = wr_wrap_time rnd\<rparr> = Inr ev"
    using wrap_seal_fields [OF laws s(3)] by blast
  show ?thesis
    using sign_fields [OF laws c(2)] decrypt_v2_layer [OF laws c(1)] decrypt_v2_layer [OF laws s(1)] s(2)
    by (intro that) auto
next
  case V3
  with w obtain ck content seal wck wrapped where s:
      "v3_conversation_key n a (ws_pub n b) = Inr ck"
      "ws_encrypt_v3 n ck (ws_rumor_json n (ensure_id n r)) SEAL_KIND EMPTY_SCOPE (wr_seal_nonce rnd) = Inr content"
      "sealed n a content (wr_seal_time rnd) = Inr seal"
      "v3_conversation_key n (wr_ephemeral rnd) (ws_pub n b) = Inr wck"
      "ws_encrypt_v3 n wck (ws_event_json n seal) WRAP_KIND EMPTY_SCOPE (wr_wrap_nonce rnd) = Inr wrapped"
      "ws_sign n (wr_ephemeral rnd) \<lparr>up_kind = 1059, up_tags = [[''p'', ws_pub n b]], up_content = wrapped,
          up_created_at = wr_wrap_time rnd\<rparr> = Inr ev"
    by (auto simp: gift_wrap_def Let_def and_then_Inr)
  show ?thesis
    using sign_fields [OF laws s(6)] decrypt_v3_layer [OF laws s(4) json_laws(4) [OF laws] s(5)]
      decrypt_v3_layer [OF laws s(1) json_laws(2) [OF laws] s(2)] s(3)
    by (intro that) auto
qed

text \<open>A gift wrap opens to exactly what was put in, in both versions: the wrap names the receiver in its
  \<open>p\<close> tag and is signed by the ephemeral key, and the receiver reads the rumor, with its id fixed,
  from the sender who signed the seal; if the rumor claims another author, opening fails with
  SenderMismatch.\<close>

lemma wrap_opens:
  assumes "wrap_laws n" "gift_wrap n rnd a (ws_pub n b) r v = Inr ev"
  shows "ev_is_gift_wrap ev \<and> find_p_tag (ev_tags ev) = Some (ws_pub n b) \<and>
    ev_pubkey ev = ws_pub n (wr_ephemeral rnd) \<and>
    unwrap_gift_wrap n b ev =
      (if rm_pubkey r = ws_pub n a then Inr \<lparr>uw_sender = ws_pub n a, uw_rumor = ensure_id n r\<rparr>
       else Inl SenderMismatch)"
proof -
  obtain seal content where l: "ev_kind ev = 1059" "ev_tags ev = [[''p'', ws_pub n b]]"
    "ev_pubkey ev = ws_pub n (wr_ephemeral rnd)" "sealed n a content (wr_seal_time rnd) = Inr seal"
    "decrypt_layer n b (ev_pubkey ev) (ev_content ev) WRAP_KIND = Inr (ws_event_json n seal)"
    "decrypt_layer n b (ws_pub n a) content SEAL_KIND = Inr (ws_rumor_json n (ensure_id n r))"
    using gift_wrap_layers [OF assms] by metis
  have "rm_pubkey (ensure_id n r) = rm_pubkey r" by (simp add: ensure_id_def split: option.split)
  then show ?thesis
    using l sealed_fields [OF assms(1) l(4)] json_laws [OF assms(1)]
    by (simp add: unwrap_gift_wrap_def ev_is_gift_wrap_def)
qed

subsection \<open>A sample of the crates\<close>

definition sample_json_rumor :: "rumor \<Rightarrow> string" where
  "sample_json_rumor r = show_nat (to_nat (rm_id r, rm_pubkey r, rm_created_at r, rm_kind r, rm_tags r, rm_content r))"

definition sample_rumor_json :: "string \<Rightarrow> string + rumor" where
  "sample_rumor_json j =
     (case digits_val 0 j of
        None \<Rightarrow> Inl ''bad json''
      | Some m \<Rightarrow> (case from_nat m of (i, pk, at, k, ts, c) \<Rightarrow>
          Inr \<lparr>rm_id = i, rm_pubkey = pk, rm_created_at = at, rm_kind = k, rm_tags = ts, rm_content = c\<rparr>))"

definition sample_json_event :: "event \<Rightarrow> string" where
  "sample_json_event e =
     show_nat (to_nat (ev_id e, ev_pubkey e, ev_created_at e, ev_kind e, ev_tags e, ev_content e, ev_sig e))"

definition sample_event_json :: "string \<Rightarrow> string + event" where
  "sample_event_json j =
     (case digits_val 0 j of
        None \<Rightarrow> Inl ''bad json''
      | Some m \<Rightarrow> (case from_nat m of (i, pk, at, k, ts, c, sg) \<Rightarrow>
          Inr \<lparr>ev_id = i, ev_pubkey = pk, ev_created_at = at, ev_kind = k, ev_tags = ts, ev_content = c, ev_sig = sg\<rparr>))"

definition sample_sign :: "string \<Rightarrow> unsigned_parts \<Rightarrow> string + event" where
  "sample_sign k u =
     Inr \<lparr>ev_id = ''id'', ev_pubkey = k, ev_created_at = up_created_at u, ev_kind = up_kind u, ev_tags = up_tags u,
          ev_content = up_content u, ev_sig = k\<rparr>"

definition sample_crates :: "(string, string set) wrap_sdk" where
  "sample_crates =
     \<lparr>ws_pub = (\<lambda>k. k), ws_event_id = (\<lambda>r. ''hash''), ws_rumor_json = sample_json_rumor, ws_rumor_of_json = sample_rumor_json,
      ws_event_json = sample_json_event, ws_event_of_json = sample_event_json, ws_sign = sample_sign,
      ws_verify = (\<lambda>e. if ev_sig e = ev_pubkey e then Inr () else Inl ''bad signature''),
      ws_version = (\<lambda>c. case c of d # _ \<Rightarrow> if d = CHR ''2'' then Inr 2 else if d = CHR ''3'' then Inr 3 else Inl ''bad payload''
                                 | [] \<Rightarrow> Inl ''empty''),
      ws_encrypt_v2 = (\<lambda>a b p _. Inr (CHR ''2'' # p)), ws_decrypt_v2 = (\<lambda>b a c. Inr (tl c)),
      ws_secret = Inr, ws_xonly = Inr, ws_conversation = (\<lambda>a b. {a, b}),
      ws_encrypt_v3 = (\<lambda>ck p k sc _. Inr (CHR ''3'' # p)), ws_decrypt_v3 = (\<lambda>ck c k sc. Inr (tl c)),
      ws_utf8 = Inr,
      ws_wrap_seal = (\<lambda>t _ k receiver seal. sample_sign k
         \<lparr>up_kind = 1059, up_tags = [[''p'', receiver]], up_content = CHR ''2'' # sample_json_event seal, up_created_at = t\<rparr>)\<rparr>"

lemma sample_json: "sample_rumor_json (sample_json_rumor r) = Inr r" "sample_event_json (sample_json_event e) = Inr e"
  by (simp_all add: sample_rumor_json_def sample_json_rumor_def sample_event_json_def sample_json_event_def
      digits_val_show_nat split: prod.split)

lemma sample_crates_laws: "wrap_laws sample_crates"
  by (auto simp: wrap_laws_def sample_crates_def sample_json sample_sign_def v3_conversation_key_def)

definition sample_rand :: "string wrap_rand" where
  "sample_rand = \<lparr>wr_seal_time = 1, wr_wrap_time = 2, wr_seal_nonce = 3, wr_wrap_nonce = 4, wr_ephemeral = ''eph''\<rparr>"

subsection \<open>Who paid\<close>

definition opened :: "('k, 'c) wrap_sdk \<Rightarrow> 'k \<Rightarrow> event \<Rightarrow> unwrapped option" where
  "opened n k ev = (case unwrap_gift_wrap n k ev of Inl _ \<Rightarrow> None | Inr u \<Rightarrow> Some u)"

lemma unwrap_seal:
  assumes "unwrap_gift_wrap n k ev = Inr u"
  obtains seal j where "ws_verify n seal = Inr ()" "ev_kind seal = 13" "ev_pubkey seal = uw_sender u"
    "rm_pubkey (uw_rumor u) = uw_sender u" "decrypt_layer n k (uw_sender u) (ev_content seal) SEAL_KIND = Inr j"
    "ws_rumor_of_json n j = Inr (uw_rumor u)"
  using assms by (auto simp: unwrap_gift_wrap_def and_then_Inr split: if_splits)

text \<open>C10: nobody can pay in another's name. Where a signature verifies only on an event its key's owner
  issued, a payment the pipeline reports comes from a seal that the reported payer issued, which the
  addressed identity's key opens, and whose message is a direct message by that same payer with one
  slatepack; the payer is not the server itself, and the reply is made for that payer from the
  addressed identity.\<close>

theorem payer_authentic:
  assumes "\<forall>e. ws_verify n e = Inr () \<longrightarrow> e \<in> issued (ev_pubkey e)" "ie_unwrap env = opened n"
    and "handle_wrap env now1 now2 ev s = (ReceivedWrap sid amt rep, s')"
  shows "\<exists>h seal j r. find_p_tag (ev_tags ev) = Some h \<and> ie_resolve env h = Some (rep_from rep) \<and>
    seal \<in> issued (rep_payer rep) \<and> ev_kind seal = 13 \<and>
    decrypt_layer n (rep_from rep) (rep_payer rep) (ev_content seal) 13 = Inr j \<and> ws_rumor_of_json n j = Inr r \<and>
    rm_pubkey r = rep_payer rep \<and> rm_is_dm r \<and> extract_slatepack (rm_content r) \<noteq> None \<and>
    rep_payer rep \<noteq> ie_master_hex env"
proof -
  have rumor: "rep_from rep = key \<and> rep_payer rep = uw_sender u \<and> rm_is_dm (uw_rumor u) \<and>
      extract_slatepack (rm_content (uw_rumor u)) \<noteq> None \<and> uw_sender u \<noteq> ie_master_hex env"
    if "handle_rumor env now2 wid key u t = (ReceivedWrap sid amt rep, s')" for wid key u t
    using that by (auto simp: handle_rumor_def Let_def build_reply_def decide_def
        split: if_splits prod.splits bool.splits sum.splits receive_error.splits)
  obtain h key u m where w: "find_p_tag (ev_tags ev) = Some h" "ie_resolve env h = Some key" "opened n key ev = Some u"
      "handle_rumor env now2 (ev_id ev) key u (s\<lparr>rate := m\<rparr>) = (ReceivedWrap sid amt rep, s')"
    using assms(2,3) by (auto simp: handle_wrap_def Let_def split: if_splits prod.splits bool.splits option.splits bind_splits)
  from w(3) have "unwrap_gift_wrap n key ev = Inr u" by (simp add: opened_def split: sum.splits)
  then obtain seal j where "ws_verify n seal = Inr ()" "ev_kind seal = 13" "ev_pubkey seal = uw_sender u"
    "rm_pubkey (uw_rumor u) = uw_sender u" "decrypt_layer n key (uw_sender u) (ev_content seal) SEAL_KIND = Inr j"
    "ws_rumor_of_json n j = Inr (uw_rumor u)" by (rule unwrap_seal)
  moreover from this have "seal \<in> issued (uw_sender u)" using assms(1) by metis
  ultimately show ?thesis
    using w(1,2) rumor [OF w(4)] by (intro exI [of _ h] exI [of _ seal] exI [of _ j] exI [of _ "uw_rumor u"]) (simp add: SEAL_KIND_def)
qed

definition paying_rumor :: rumor where
  "paying_rumor = \<lparr>rm_id = None, rm_pubkey = ''alice'', rm_created_at = 5, rm_kind = 14, rm_tags = [], rm_content = sample_armor\<rparr>"

definition paying_seal :: event where
  "paying_seal = \<lparr>ev_id = ''s1'', ev_pubkey = ''alice'', ev_created_at = 1, ev_kind = 13, ev_tags = [],
     ev_content = ''2R'', ev_sig = ''alice''\<rparr>"

definition paying_crates :: "(string, string set) wrap_sdk" where
  "paying_crates = sample_crates
     \<lparr>ws_event_of_json := (\<lambda>j. if j = ''S'' then Inr paying_seal else Inl ''bad json''),
      ws_rumor_of_json := (\<lambda>j. if j = ''R'' then Inr paying_rumor else Inl ''bad json'')\<rparr>"

definition paying_ingest :: "(string, string list) ingest_env" where
  "paying_ingest = sample_ingest\<lparr>ie_unwrap := opened paying_crates\<rparr>"

definition paying_event :: event where
  "paying_event = sample_event\<lparr>ev_content := ''2S''\<rparr>"

lemma paying_opened: "opened paying_crates ''m'' paying_event = Some \<lparr>uw_sender = ''alice'', uw_rumor = paying_rumor\<rparr>"
  by (simp add: opened_def unwrap_gift_wrap_def paying_crates_def paying_event_def sample_event_def sample_crates_def
      decrypt_layer_def paying_seal_def paying_rumor_def)

lemma paying_event_facts:
  "ev_id paying_event = ''e1''" "ev_is_gift_wrap paying_event" "\<not> MAX_WRAP_CONTENT < length (ev_content paying_event)"
  "find_p_tag (ev_tags paying_event) = Some ''m''"
  by (simp_all add: paying_event_def sample_event_def ev_is_gift_wrap_def MAX_WRAP_CONTENT_def)

lemma paying_rumor_facts:
  "rm_content paying_rumor = sample_armor" "rm_is_dm paying_rumor" "length sample_armor \<le> MAX_RUMOR_CONTENT"
  "extract_slatepack sample_armor = Some sample_armor" "extract_subject (rm_tags paying_rumor) = None"
  using sample_extract [folded sample_armor_def]
  by (simp_all add: paying_rumor_def rm_is_dm_def MAX_RUMOR_CONTENT_def) (simp add: sample_armor_def)

theorem payer_authentic_witness:
  "\<exists>rep s' (seal :: event). handle_wrap paying_ingest 5 5 paying_event \<lparr>seen = {}, rate = [], rx = []\<rparr> = (ReceivedWrap ''s1'' 700 rep, s') \<and>
     rep_payer rep = ''alice'' \<and> ev_sig seal = ''alice'' \<and> ev_kind seal = 13"
proof -
  obtain m1 where m1: "allow_global_unwrap 5 [] = (True, m1)" "fst (allow_sender 5 ''alice'' m1)"
    using sample_limits by blast
  then obtain m2 where m2: "allow_sender 5 ''alice'' m1 = (True, m2)" by (metis (full_types) prod.collapse)
  have env: "ie_resolve paying_ingest ''m'' = Some ''m''" "ie_unwrap paying_ingest = opened paying_crates"
      "ie_master_hex paying_ingest = ''m''" "ie_receive paying_ingest a c l =
         (Inr \<lparr>rp_slate_id = ''s1'', rp_amount = 700, rp_s2_armor = ''S2''\<rparr>, a # l)" for a c l
    by (simp_all add: paying_ingest_def sample_ingest_def)
  obtain rep s' where w:
      "handle_wrap paying_ingest 5 5 paying_event \<lparr>seen = {}, rate = [], rx = []\<rparr> = (ReceivedWrap ''s1'' 700 rep, s')"
      "rep_payer rep = ''alice''"
    using m1(1) m2 env paying_opened
    by (simp add: handle_wrap_def handle_rumor_def Let_def decide_def build_reply_def paying_event_facts paying_rumor_facts)
  let ?issued = "\<lambda>pk. {e :: event. ev_pubkey e = pk \<and> ev_sig e = pk}"
  have issued: "\<forall>e. ws_verify paying_crates e = Inr () \<longrightarrow> e \<in> ?issued (ev_pubkey e)"
    by (simp add: paying_crates_def sample_crates_def split: if_splits)
  have "\<exists>seal :: event. seal \<in> ?issued (rep_payer rep) \<and> ev_kind seal = 13"
    using payer_authentic [OF issued env(2) w(1)] by blast
  then show ?thesis using w by auto
qed

subsection \<open>The negotiated version\<close>

lemma first_mutual_V3:
  "first_mutual ms = V3 \<longleftrightarrow> (\<exists>us vs. ms = us @ ''nip44_v3'' # vs \<and> ''nip44_v2'' \<notin> set us)"
proof
  assume "first_mutual ms = V3"
  then show "\<exists>us vs. ms = us @ ''nip44_v3'' # vs \<and> ''nip44_v2'' \<notin> set us"
  proof (induction ms)
    case (Cons m ms)
    show ?case
    proof (cases "m = ''nip44_v3''")
      case True
      then have "m # ms = [] @ ''nip44_v3'' # ms" by simp
      then show ?thesis by fastforce
    next
      case False
      with Cons obtain us vs where "ms = us @ ''nip44_v3'' # vs" "''nip44_v2'' \<notin> set us" "m \<noteq> ''nip44_v2''"
        by (auto split: if_splits)
      then have "m # ms = (m # us) @ ''nip44_v3'' # vs" "''nip44_v2'' \<notin> set (m # us)" by simp_all
      then show ?thesis by blast
    qed
  qed simp
next
  assume "\<exists>us vs. ms = us @ ''nip44_v3'' # vs \<and> ''nip44_v2'' \<notin> set us"
  then obtain us vs where "ms = us @ ''nip44_v3'' # vs" "''nip44_v2'' \<notin> set us" by blast
  then show "first_mutual ms = V3" by (induction us arbitrary: ms) auto
qed

text \<open>Version 3 is used only for a recipient that lists it, and ahead of version 2.\<close>

lemma choose_version_V3:
  "choose_version enc = V3 \<longleftrightarrow>
     (\<exists>tag us vs. enc = Some tag \<and> split_whitespace tag = us @ ''nip44_v3'' # vs \<and> ''nip44_v2'' \<notin> set us)"
  by (cases enc) (simp_all add: choose_version_def first_mutual_V3)

lemma own_capability: "choose_version (encryption_capability [capability_tag]) = V3"
  by code_simp

end
