(* ===== verification/Service.thy ===== *)
theory Service
  imports Directory Wrap
begin

text \<open>
  \<open>crates/gp-nostr/src/service.rs\<close>: the daemon around the ingest pipeline. It publishes where it
  listens, re-sends replies that never left, catches up, follows the watch set, and for every
  received payment sends the optional notices and the response. The relay pool of nostr-sdk is a
  \<open>relay_client\<close> over a network state \<open>'c\<close>, which also gives the clock and the random choices of
  a wrap; log lines are left out.
\<close>

subsection \<open>The relay pool\<close>

datatype send_result = SentTo nat | SendFailed string | SendTimedOut

text \<open>
  \<open>rc_inbox\<close> fetches the tags of the first kind 10050 event of an author, \<open>rc_fetch\<close> the gift
  wraps to a set of identities since a time; \<open>rc_relay_list\<close> is nostr-sdk's kind 10002 builder.
\<close>

record ('k, 'c) relay_client =
  rc_now :: "'c \<Rightarrow> int \<times> 'c"
  rc_rand :: "'c \<Rightarrow> 'k wrap_rand \<times> 'c"
  rc_fresh :: "'c \<Rightarrow> string \<times> 'c"
  rc_add :: "string \<Rightarrow> 'c \<Rightarrow> 'c"
  rc_connect :: "string list \<Rightarrow> 'c \<Rightarrow> 'c"
  rc_inbox :: "string list \<Rightarrow> string \<Rightarrow> 'c \<Rightarrow> (string + string list list option) \<times> 'c"
  rc_send :: "string list \<Rightarrow> event \<Rightarrow> 'c \<Rightarrow> send_result \<times> 'c"
  rc_fetch :: "string list \<Rightarrow> string set \<Rightarrow> nat \<Rightarrow> 'c \<Rightarrow> (string + event list) \<times> 'c"
  rc_subscribe :: "string list \<Rightarrow> string set \<Rightarrow> nat \<Rightarrow> 'c \<Rightarrow> (string + unit) \<times> 'c"
  rc_relay_list :: "string list \<Rightarrow> string list list"

definition LOOKBACK_SECS :: int where "LOOKBACK_SECS = 3 * 86400"

record notify_options =
  no_merchant :: "string option"
  no_merchant_dm :: bool
  no_payer_receipt :: bool

text \<open>
  What one service is built from. \<open>se_receive\<close> is the receiver's \<open>receive\<close>, given the id it draws
  for a webhook and the time; \<open>se_look\<close> and \<open>se_watched\<close> are the directory's answers.
\<close>

record ('k, 'x, 'r, 'c) service =
  se_keys :: 'k
  se_relays :: "string list"
  se_notify :: notify_options
  se_look :: "string \<Rightarrow> 'k option"
  se_watched :: "string list"
  se_receive :: "string \<Rightarrow> int \<Rightarrow> string \<Rightarrow> incoming_context \<Rightarrow> 'r \<Rightarrow> (receive_error + received_payment) \<times> 'r"
  se_replied :: "string \<Rightarrow> 'r \<Rightarrow> 'r"
  se_unreplied :: "'r \<Rightarrow> unreplied_payment list"
  se_crates :: "('k, 'x) wrap_sdk"
  se_client :: "('k, 'c) relay_client"
  se_key_of_hex :: "string \<Rightarrow> string option"

text \<open>\<open>Ingest::with_directory\<close>.\<close>

definition service_env :: "('k, 'x, 'r, 'c) service \<Rightarrow> string \<Rightarrow> int \<Rightarrow> ('k, 'r) ingest_env" where
  "service_env se rid now =
     \<lparr>ie_master_hex = ws_pub (se_crates se) (se_keys se), ie_resolve = se_look se, ie_pub_hex = ws_pub (se_crates se),
      ie_unwrap = opened (se_crates se), ie_event_id = ws_event_id (se_crates se), ie_receive = se_receive se rid now\<rparr>"

subsection \<open>Texts\<close>

definition merchant_dm_text :: "u64 \<Rightarrow> string \<Rightarrow> string" where
  "merchant_dm_text amount sid =
     ''[GoblinPay] Received '' @ nanogrin_to_grin amount @ '' GRIN (slate '' @ sid @ '').''"

definition payer_receipt_text :: "u64 \<Rightarrow> string" where
  "payer_receipt_text amount = ''[GoblinPay] Payment of '' @ nanogrin_to_grin amount @ '' GRIN received. Thank you.''"

subsection \<open>Sending\<close>

fun relay_hints :: "string list \<Rightarrow> string list list \<Rightarrow> string list" where
  "relay_hints rs [] = rs"
| "relay_hints rs (parts # tags) =
     relay_hints
       (case parts of
          k # url # _ \<Rightarrow> if k = ''relay'' \<and> length rs < MAX_DM_RELAYS then rs @ [trim_end_matches (CHR ''/'') url] else rs
        | _ \<Rightarrow> rs) tags"

definition recipient_hints ::
  "('k, 'c) relay_client \<Rightarrow> string \<Rightarrow> string list \<Rightarrow> 'c \<Rightarrow> (string list \<times> string option) \<times> 'c" where
  "recipient_hints cl peer own c =
     (case rc_inbox cl own peer c of
        (Inl _, c') \<Rightarrow> (([], None), c')
      | (Inr None, c') \<Rightarrow> (([], None), c')
      | (Inr (Some tags), c') \<Rightarrow> ((relay_hints [] tags, encryption_capability tags), c'))"

definition targets_of :: "string list \<Rightarrow> string list \<Rightarrow> string list" where
  "targets_of hints own = (if hints = [] then own else hints)"

text \<open>The rumor of a pending reply, built by the identity that received the payment.\<close>

definition reply_rumor :: "('k, 'x) wrap_sdk \<Rightarrow> int \<Rightarrow> 'k pending_reply \<Rightarrow> rumor" where
  "reply_rumor n now rep =
     \<lparr>rm_id = None, rm_pubkey = ws_pub n (rep_from rep), rm_created_at = now, rm_kind = 14,
      rm_tags = rep_tags rep, rm_content = rep_content rep\<rparr>"

text \<open>Wrap a rumor for \<open>to\<close> and publish it: the hints, the version, the wrap, the dial, the send.\<close>

definition dispatch ::
  "('k, 'x) wrap_sdk \<Rightarrow> ('k, 'c) relay_client \<Rightarrow> string list \<Rightarrow> 'k \<Rightarrow> string \<Rightarrow> rumor \<Rightarrow> 'c
   \<Rightarrow> send_result option \<times> 'c" where
  "dispatch n cl own sender to rumor c =
     (case recipient_hints cl to own c of
        ((hints, enc), c1) \<Rightarrow>
          let targets = targets_of hints own; (rnd, c2) = rc_rand cl c1 in
          (case gift_wrap n rnd sender to rumor (choose_version enc) of
             Inl _ \<Rightarrow> (None, c2)
           | Inr ev \<Rightarrow> (case rc_send cl targets ev (rc_connect cl targets c2) of (r, c3) \<Rightarrow> (Some r, c3))))"

definition deliver_reply ::
  "('k, 'x) wrap_sdk \<Rightarrow> ('k, 'c) relay_client \<Rightarrow> string list \<Rightarrow> 'k pending_reply \<Rightarrow> 'c \<Rightarrow> bool \<times> 'c" where
  "deliver_reply n cl own rep c =
     (let (now, c0) = rc_now cl c in
      case dispatch n cl own (rep_from rep) (rep_payer rep) (reply_rumor n now rep) c0 of
        (r, c') \<Rightarrow> (case r of Some (SentTo k) \<Rightarrow> (0 < k, c') | _ \<Rightarrow> (False, c')))"

definition send_dm ::
  "('k, 'x) wrap_sdk \<Rightarrow> ('k, 'c) relay_client \<Rightarrow> 'k \<Rightarrow> string \<Rightarrow> string \<Rightarrow> string list \<Rightarrow> 'c \<Rightarrow> 'c" where
  "send_dm n cl sender to content own c =
     (let (now, c0) = rc_now cl c in
      snd (dispatch n cl own sender to
             \<lparr>rm_id = None, rm_pubkey = ws_pub n sender, rm_created_at = now, rm_kind = 14,
              rm_tags = [[''p'', to]], rm_content = content\<rparr> c0))"

text \<open>The kind 10050 inbox and its kind 10002 mirror, to the advertised relays.\<close>

definition inbox_tags :: "string list \<Rightarrow> string list list" where
  "inbox_tags rs = map (\<lambda>r. [''relay'', r]) rs @ [capability_tag]"

definition publish_one ::
  "('k, 'x) wrap_sdk \<Rightarrow> ('k, 'c) relay_client \<Rightarrow> 'k \<Rightarrow> string list \<Rightarrow> nat \<Rightarrow> string list list \<Rightarrow> 'c \<Rightarrow> 'c" where
  "publish_one n cl keys advertised kind tags c =
     (let (now, c0) = rc_now cl c in
      case ws_sign n keys \<lparr>up_kind = kind, up_tags = tags, up_content = [], up_created_at = now\<rparr> of
        Inl _ \<Rightarrow> c0
      | Inr ev \<Rightarrow> snd (rc_send cl advertised ev c0))"

definition publish_inbox ::
  "('k, 'x) wrap_sdk \<Rightarrow> ('k, 'c) relay_client \<Rightarrow> 'k \<Rightarrow> string list \<Rightarrow> 'c \<Rightarrow> 'c" where
  "publish_inbox n cl keys own c =
     (let advertised = take MAX_DM_RELAYS own in
      publish_one n cl keys advertised 10002 (rc_relay_list cl advertised)
        (publish_one n cl keys advertised 10050 (inbox_tags advertised) c))"

subsection \<open>One event\<close>

definition notices ::
  "('k, 'x, 'r, 'c) service \<Rightarrow> string \<Rightarrow> u64 \<Rightarrow> 'k pending_reply \<Rightarrow> 'c \<Rightarrow> 'c" where
  "notices se sid amount rep c =
     (let n = se_crates se; cl = se_client se; own = se_relays se; no = se_notify se;
          c1 = (if no_merchant_dm no
                then (case no_merchant no of
                        Some m \<Rightarrow> send_dm n cl (se_keys se) m (merchant_dm_text amount sid) own c
                      | None \<Rightarrow> c)
                else c)
      in if no_payer_receipt no
         then send_dm n cl (rep_from rep) (rep_payer rep) (payer_receipt_text amount) own c1 else c1)"

definition handle_event ::
  "('k, 'x, 'r, 'c) service \<Rightarrow> event \<Rightarrow> 'r ingest_state \<times> 'c \<Rightarrow> 'r ingest_state \<times> 'c" where
  "handle_event se ev sc =
     (let (s, c) = sc; cl = se_client se; (now1, c1) = rc_now cl c; (now2, c2) = rc_now cl c1;
          (rid, c3) = rc_fresh cl c2; (now3, c4) = rc_now cl c3 in
      case handle_wrap (service_env se rid now3) now1 now2 ev s of
        (ReceivedWrap sid amount rep, s') \<Rightarrow>
          (case deliver_reply (se_crates se) cl (se_relays se) rep (notices se sid amount rep c4) of
             (sent, c5) \<Rightarrow> (if sent then s'\<lparr>rx := se_replied se sid (rx s')\<rparr> else s', c5))
      | (_, s') \<Rightarrow> (s', c4))"

definition handle_all ::
  "('k, 'x, 'r, 'c) service \<Rightarrow> event list \<Rightarrow> 'r ingest_state \<times> 'c \<Rightarrow> 'r ingest_state \<times> 'c" where
  "handle_all se evs sc = fold (handle_event se) evs sc"

subsection \<open>Replies that never left\<close>

fun reconcile_each ::
  "('k, 'x, 'r, 'c) service \<Rightarrow> unreplied_payment list \<Rightarrow> 'r ingest_state \<times> 'c \<Rightarrow> 'r ingest_state \<times> 'c" where
  "reconcile_each se [] sc = sc"
| "reconcile_each se (u # us) (s, c) =
     reconcile_each se us
       (case se_key_of_hex se (up_payer_hex u) of
          None \<Rightarrow> (s, c)
        | Some peer \<Rightarrow>
            (case se_look se (up_recipient_hex u) of
               None \<Rightarrow> (s, c)
             | Some from \<Rightarrow>
                 (case deliver_reply (se_crates se) (se_client se) (se_relays se)
                         (build_reply from peer (up_s2_armor u)) c of
                    (sent, c') \<Rightarrow> (if sent then s\<lparr>rx := se_replied se (up_slate_id u) (rx s)\<rparr> else s, c'))))"

definition reconcile ::
  "('k, 'x, 'r, 'c) service \<Rightarrow> 'r ingest_state \<times> 'c \<Rightarrow> 'r ingest_state \<times> 'c" where
  "reconcile se sc = reconcile_each se (se_unreplied se (rx (fst sc))) sc"

subsection \<open>The watch set\<close>

record refresh_plan =
  rp_changed :: bool
  rp_added :: "string list"

definition plan_refresh :: "string set \<Rightarrow> string set \<Rightarrow> refresh_plan" where
  "plan_refresh last_set current =
     \<lparr>rp_changed = (last_set \<noteq> current), rp_added = sorted_list_of_set (current - last_set)\<rparr>"

definition since_at :: "int \<Rightarrow> nat" where
  "since_at now = nat (max 0 (now - LOOKBACK_SECS))"

text \<open>The loop's state: the last watch set subscribed to, the pipeline, the network.\<close>

type_synonym ('r, 'c) loop_state = "string set \<times> 'r ingest_state \<times> 'c"

definition refresh_subscription ::
  "('k, 'x, 'r, 'c) service \<Rightarrow> ('r, 'c) loop_state \<Rightarrow> ('r, 'c) loop_state" where
  "refresh_subscription se st =
     (let (last_watched, s, c) = st; current = set (se_watched se); plan = plan_refresh last_watched current in
      if \<not> rp_changed plan then (last_watched, s, c)
      else
        let (now, c0) = rc_now (se_client se) c in
        (case rc_subscribe (se_client se) (se_relays se) current (since_at now) c0 of
           (Inl _, c1) \<Rightarrow> (last_watched, s, c1)
         | (Inr _, c1) \<Rightarrow>
             if rp_added plan = [] then (current, s, c1)
             else (case rc_fetch (se_client se) (se_relays se) (set (rp_added plan)) (since_at now) c1 of
                     (Inl _, c2) \<Rightarrow> (current, s, c2)
                   | (Inr evs, c2) \<Rightarrow> (current, handle_all se evs (s, c2)))))"

text \<open>Everything before the loop.\<close>

definition start_up :: "('k, 'x, 'r, 'c) service \<Rightarrow> 'r ingest_state \<Rightarrow> 'c \<Rightarrow> ('r, 'c) loop_state" where
  "start_up se s c =
     (let cl = se_client se; own = se_relays se;
          c1 = rc_connect cl own (fold (rc_add cl) own c);
          c2 = publish_inbox (se_crates se) cl (se_keys se) own c1;
          (s3, c3) = reconcile se (s, c2);
          watched = set (se_watched se);
          (now, c4) = rc_now cl c3;
          (s5, c5) = (case rc_fetch cl own watched (since_at now) c4 of
                        (Inl _, c') \<Rightarrow> (s3, c')
                      | (Inr evs, c') \<Rightarrow> handle_all se evs (s3, c'))
      in (watched, s5, snd (rc_subscribe cl own watched (since_at now) c5)))"

text \<open>The loop: an event arrives, the refresh tick fires (with the watch set of that moment), or a notice is lost.\<close>

inductive service_step ::
  "('k, 'x, 'r, 'c) service \<Rightarrow> ('r, 'c) loop_state \<Rightarrow> ('r, 'c) loop_state \<Rightarrow> bool" for se where
  notification: "service_step se (w, sc) (w, handle_event (se\<lparr>se_look := look\<rparr>) ev sc)"
| refresh_tick: "service_step se st (refresh_subscription (se\<lparr>se_look := look, se_watched := ws\<rparr>) st)"
| lagged: "service_step se st st"

subsection \<open>The service runs the server\<close>

text \<open>The pipeline's part of a server, the rest as in \<open>s0\<close>.\<close>

definition as_server :: "('w, 'b) server \<Rightarrow> ('w \<times> 'b db) ingest_state \<Rightarrow> ('w, 'b) server" where
  "as_server s0 s = s0\<lparr>sv_wallet := Some (fst (rx s)), sv_db := snd (rx s), sv_seen := seen s, sv_rate := rate s\<rparr>"

text \<open>The service is built over the world's identity, crates and receiver.\<close>

definition runs_on ::
  "('k, 'x, 'w \<times> 'b db, 'c) service \<Rightarrow> ('w, 's, 'v, 'n, 'pk, 'k, 'b) world \<Rightarrow> bool" where
  "runs_on se E \<longleftrightarrow>
     (\<exists>child. wo_signer E = Some (ws_pub (se_crates se) (se_keys se), child)) \<and>
     wo_pub_hex E = ws_pub (se_crates se) \<and> wo_unwrap E = opened (se_crates se) \<and>
     wo_event_id E = ws_event_id (se_crates se) \<and> se_receive se = wo_receive E \<and>
     se_replied se = (\<lambda>sid st. (fst st, mark_replied sid (snd st))) \<and> se_unreplied se = (\<lambda>st. unreplied (snd st))"

lemma runs_on_at: "runs_on se E \<Longrightarrow> runs_on (se\<lparr>se_look := look\<rparr>) E \<and> runs_on (se\<lparr>se_look := look, se_watched := ws\<rparr>) E"
  by (simp add: runs_on_def)

lemma runs_on_env: "runs_on se E \<Longrightarrow> service_env se rid now = pipeline E (se_look se) rid now"
  by (auto simp: runs_on_def service_env_def pipeline_def)

lemma handle_event_cases:
  assumes "handle_event se ev (s, c) = (s', c')"
  obtains now1 now2 now3 rid out t where "handle_wrap (service_env se rid now3) now1 now2 ev s = (out, t)"
    and "s' = t \<or> (\<exists>sid. s' = t\<lparr>rx := se_replied se sid (rx t)\<rparr>)"
proof -
  let ?cl = "se_client se"
  obtain now1 c1 now2 c2 rid c3 now3 c4 where r: "rc_now ?cl c = (now1, c1)" "rc_now ?cl c1 = (now2, c2)"
    "rc_fresh ?cl c2 = (rid, c3)" "rc_now ?cl c3 = (now3, c4)" by fastforce
  obtain out t where w: "handle_wrap (service_env se rid now3) now1 now2 ev s = (out, t)" by fastforce
  have "s' = t \<or> (\<exists>sid. s' = t\<lparr>rx := se_replied se sid (rx t)\<rparr>)"
    using assms by (cases out) (auto simp: handle_event_def Let_def r w split: prod.splits if_splits)
  with w show ?thesis by (rule that)
qed

lemma replied_serve:
  assumes "runs_on se E"
  shows "serve E (as_server s0 t) (as_server s0 (t\<lparr>rx := se_replied se sid (rx t)\<rparr>))"
  using serve.reply_dispatched [of E "as_server s0 t" sid] assms by (cases s0) (simp add: runs_on_def as_server_def)

lemma handle_event_serve:
  assumes "runs_on se E"
  shows "(serve E)\<^sup>*\<^sup>* (as_server s0 s) (as_server s0 (fst (handle_event se ev (s, c))))"
proof -
  obtain s' c' where h: "handle_event se ev (s, c) = (s', c')" by fastforce
  then obtain now1 now2 now3 rid out t where w: "handle_wrap (service_env se rid now3) now1 now2 ev s = (out, t)"
    and s': "s' = t \<or> (\<exists>sid. s' = t\<lparr>rx := se_replied se sid (rx t)\<rparr>)" by (rule handle_event_cases)
  let ?s = "as_server s0 s"
  have "sv_wallet ?s = Some (fst (rx s))" by (simp add: as_server_def)
  moreover have "handle_wrap (pipeline E (se_look se) rid now3) now1 now2 ev
      \<lparr>seen = sv_seen ?s, rate = sv_rate ?s, rx = (fst (rx s), sv_db ?s)\<rparr> = (out, t)"
    using w runs_on_env [OF assms, of rid now3] by (cases s) (simp add: as_server_def)
  ultimately have "serve E ?s (?s\<lparr>sv_wallet := Some (fst (rx t)), sv_db := snd (rx t), sv_seen := seen t, sv_rate := rate t\<rparr>)"
    by (rule serve.gift_wrap)
  then have "serve E ?s (as_server s0 t)" by (simp add: as_server_def)
  moreover have "(serve E)\<^sup>*\<^sup>* (as_server s0 t) (as_server s0 s')"
    using s' replied_serve [OF assms, of s0 t] by auto
  ultimately show ?thesis using h by (simp add: converse_rtranclp_into_rtranclp)
qed

lemma handle_all_serve:
  assumes "runs_on se E"
  shows "(serve E)\<^sup>*\<^sup>* (as_server s0 s) (as_server s0 (fst (handle_all se evs (s, c))))"
proof (induction evs arbitrary: s c)
  case (Cons ev evs)
  obtain s' c' where h: "handle_event se ev (s, c) = (s', c')" by fastforce
  with handle_event_serve [OF assms, of s0 s ev c] have "(serve E)\<^sup>*\<^sup>* (as_server s0 s) (as_server s0 s')" by simp
  also have "(serve E)\<^sup>*\<^sup>* (as_server s0 s') (as_server s0 (fst (handle_all se evs (s', c'))))" by (rule Cons.IH)
  finally show ?case by (simp add: handle_all_def h)
qed (simp add: handle_all_def)

lemma reconcile_each_serve:
  assumes "runs_on se E"
  shows "(serve E)\<^sup>*\<^sup>* (as_server s0 s) (as_server s0 (fst (reconcile_each se us (s, c))))"
proof (induction us arbitrary: s c)
  case (Cons u us)
  have step: "(serve E)\<^sup>*\<^sup>* (as_server s0 s) (as_server s0 (fst (reconcile_each se us (t, c'))))"
    if "t = s \<or> t = s\<lparr>rx := se_replied se (up_slate_id u) (rx s)\<rparr>" for t c'
  proof -
    have "(serve E)\<^sup>*\<^sup>* (as_server s0 s) (as_server s0 t)"
      using that replied_serve [OF assms, of s0 s "up_slate_id u"] by auto
    then show ?thesis using Cons.IH [of t c'] by (rule rtranclp_trans)
  qed
  show ?case
    by (auto split: option.split prod.split intro: step)
qed simp

lemma refresh_serve:
  assumes "runs_on se E" "refresh_subscription se (w, s, c) = (w', s', c')"
  shows "(serve E)\<^sup>*\<^sup>* (as_server s0 s) (as_server s0 s')"
proof -
  have "s' = s \<or> (\<exists>evs c0. s' = fst (handle_all se evs (s, c0)))"
    using assms(2) by (auto simp: refresh_subscription_def Let_def split: if_splits prod.splits sum.splits) (metis fst_conv)+
  then show ?thesis using handle_all_serve [OF assms(1)] by auto
qed

lemma start_up_serve:
  assumes "runs_on se E" "start_up se s c = (w, s', c')"
  shows "(serve E)\<^sup>*\<^sup>* (as_server s0 s) (as_server s0 s')"
proof -
  obtain s3 c2 c3 where r: "reconcile se (s, c2) = (s3, c3)" "s' = s3 \<or> (\<exists>evs c0. s' = fst (handle_all se evs (s3, c0)))"
    using assms(2) by (auto simp: start_up_def Let_def split: prod.splits sum.splits) (metis fst_conv)+
  have "(serve E)\<^sup>*\<^sup>* (as_server s0 s) (as_server s0 s3)"
    using reconcile_each_serve [OF assms(1), of s0 s "se_unreplied se (rx s)" c2] r(1) by (simp add: reconcile_def)
  also have "(serve E)\<^sup>*\<^sup>* (as_server s0 s3) (as_server s0 s')" using r(2) handle_all_serve [OF assms(1)] by auto
  finally show ?thesis .
qed

lemma service_step_serve:
  assumes "service_step se st st'" "runs_on se E"
  shows "(serve E)\<^sup>*\<^sup>* (as_server s0 (fst (snd st))) (as_server s0 (fst (snd st')))"
  using assms(1)
proof cases
  case (notification w sc look ev)
  obtain s c where "sc = (s, c)" by fastforce
  with notification show ?thesis
    using handle_event_serve [of "se\<lparr>se_look := look\<rparr>" E s0 s ev c] runs_on_at [OF assms(2)] by simp
next
  case (refresh_tick ws look)
  obtain w s c where st: "st = (w, s, c)" by (rule prod_cases3)
  obtain w' s' c' where r: "refresh_subscription (se\<lparr>se_look := look, se_watched := ws\<rparr>) (w, s, c) = (w', s', c')"
    by (rule prod_cases3)
  show ?thesis
    using refresh_serve [OF _ r, of E s0] runs_on_at [OF assms(2)] by (simp add: refresh_tick st r)
qed simp

lemma service_runs:
  assumes "runs_on se E" "(service_step se)\<^sup>*\<^sup>* (start_up se s c) (w, t, c')"
  shows "(serve E)\<^sup>*\<^sup>* (as_server s0 s) (as_server s0 t)"
proof -
  have "(serve E)\<^sup>*\<^sup>* (as_server s0 (fst (snd (start_up se s c)))) (as_server s0 (fst (snd (w, t, c'))))"
    using assms(2)
  proof (induction rule: rtranclp_induct)
    case (step y z)
    then show ?case using service_step_serve [OF step(2) assms(1), of s0] by (auto intro: rtranclp_trans)
  qed simp
  moreover obtain w1 s1 c1 where "start_up se s c = (w1, s1, c1)" by (rule prod_cases3)
  ultimately show ?thesis using start_up_serve [OF assms(1), of s c w1 s1 c1 s0] by (auto intro: rtranclp_trans)
qed

text \<open>C8: the Nostr service does nothing the server model does not have: from start-up, through any sequence
  of notifications, refresh ticks and lost notices, with any behaviour of the relays, what it does to
  the wallet, the database and the dedupe markers is a sequence of the server's steps, so every
  property of the server's reachable states holds while it runs.\<close>

theorem service_refines_server:
  assumes "runs_on se E" "(service_step se)\<^sup>*\<^sup>* (start_up se s c) (w, t, c')"
  shows "(serve E)\<^sup>*\<^sup>* (as_server s0 s) (as_server s0 t)"
  using assms by (rule service_runs)

subsection \<open>A till at work\<close>

definition service_crates :: "(string, string set) wrap_sdk" where
  "service_crates = paying_crates
     \<lparr>ws_rumor_json := (\<lambda>_. ''R''), ws_event_json := (\<lambda>_. ''S''),
      ws_wrap_seal := (\<lambda>t _ k receiver seal. sample_sign k
        \<lparr>up_kind = 1059, up_tags = [[''p'', receiver]], up_content = ''2S'', up_created_at = t\<rparr>)\<rparr>"

definition service_world ::
  "(string list \<times> string list, string \<times> slate_state \<times> u64, string \<times> slate_state \<times> u64, unit, string, string, string) world" where
  "service_world = sample_world
     \<lparr>wo_api := (wo_api sample_world)\<lparr>env_backend := till_backend\<lparr>be_read := (\<lambda>_ _. Inr (''p'', Standard1, 700))\<rparr>\<rparr>,
      wo_signer := Some (''m'', \<lambda>i. i), wo_pub_hex := ws_pub service_crates, wo_unwrap := opened service_crates,
      wo_event_id := ws_event_id service_crates\<rparr>"

text \<open>Relays that hold one wrap and accept everything; the state is what was sent to how many relays.\<close>

definition sample_client :: "(string, (string list \<times> event) list) relay_client" where
  "sample_client =
     \<lparr>rc_now = (\<lambda>c. (5, c)), rc_rand = (\<lambda>c. (sample_rand, c)), rc_fresh = (\<lambda>c. (''e1'', c)), rc_add = (\<lambda>_ c. c),
      rc_connect = (\<lambda>_ c. c), rc_inbox = (\<lambda>_ _ c. (Inr None, c)),
      rc_send = (\<lambda>ts ev c. (SentTo (length ts), c @ [(ts, ev)])), rc_fetch = (\<lambda>_ _ _ c. (Inr [paying_event], c)),
      rc_subscribe = (\<lambda>_ _ _ c. (Inr (), c)), rc_relay_list = map (\<lambda>r. [''r'', r])\<rparr>"

definition sample_service ::
  "(string, string set, (string list \<times> string list) \<times> string db, (string list \<times> event) list) service" where
  "sample_service =
     \<lparr>se_keys = ''m'', se_relays = [''wss://r''],
      se_notify = \<lparr>no_merchant = None, no_merchant_dm = False, no_payer_receipt = False\<rparr>,
      se_look = (\<lambda>h. if h = ''m'' then Some h else None), se_watched = [''m''], se_receive = wo_receive service_world,
      se_replied = (\<lambda>sid st. (fst st, mark_replied sid (snd st))), se_unreplied = (\<lambda>st. unreplied (snd st)),
      se_crates = service_crates, se_client = sample_client, se_key_of_hex = Some\<rparr>"

definition fresh_till :: "((string list \<times> string list) \<times> string db) ingest_state" where
  "fresh_till = \<lparr>seen = {}, rate = [], rx = (([], []), empty_db)\<rparr>"

lemma service_receives:
  "(case wo_receive service_world ''e1'' 5 sample_armor
       \<lparr>ic_payer_hex = ''alice'', ic_recipient_hex = ''m'', ic_memo = None\<rparr> (([], []), empty_db) of
      (r, w, d) \<Rightarrow> r = Inr \<lparr>rp_slate_id = ''p'', rp_amount = 700, rp_s2_armor = ''armor p''\<rparr> \<and>
        map (\<lambda>p. (pay_id p, pay_slate_id p, payment.pay_status p)) (payments d) = [(''p'', Some ''p'', ''received'')])"
  by code_simp

lemma service_client:
  "rc_now (se_client sample_service) c = (5, c)" "rc_fresh (se_client sample_service) c = (''e1'', c)"
  "rc_rand (se_client sample_service) c = (sample_rand, c)"
  "rc_connect (se_client sample_service) ts c = c" "rc_add (se_client sample_service) r c = c"
  "rc_inbox (se_client sample_service) ts p c = (Inr None, c)"
  "rc_send (se_client sample_service) ts ev c = (SentTo (length ts), c @ [(ts, ev)])"
  "rc_fetch (se_client sample_service) ts ws t c = (Inr [paying_event], c)"
  "rc_subscribe (se_client sample_service) ts ws t c = (Inr (), c)"
  by (simp_all add: sample_service_def sample_client_def)

lemma service_wraps: "\<exists>ev. gift_wrap service_crates rnd a b r v = Inr ev"
  by (cases v) (simp_all add: gift_wrap_def sealed_def service_crates_def paying_crates_def sample_crates_def sample_sign_def
      v3_conversation_key_def)

lemma service_delivers:
  "\<exists>ev. deliver_reply service_crates (se_client sample_service) [''wss://r''] rep c = (True, c @ [([''wss://r''], ev)])"
  using service_wraps [of sample_rand "rep_from rep" "rep_payer rep" "reply_rumor service_crates 5 rep" V2]
  by (auto simp: deliver_reply_def dispatch_def recipient_hints_def service_client targets_of_def choose_version_def)

lemma service_opened: "opened service_crates ''m'' paying_event = Some \<lparr>uw_sender = ''alice'', uw_rumor = paying_rumor\<rparr>"
  by (simp add: opened_def unwrap_gift_wrap_def service_crates_def paying_crates_def paying_event_def sample_event_def
      sample_crates_def decrypt_layer_def paying_seal_def paying_rumor_def)

lemma sample_handled:
  "\<exists>t c'. handle_event sample_service paying_event (fresh_till, c) = (t, c') \<and>
     map (\<lambda>p. (pay_id p, payment.pay_status p)) (payments (snd (rx t))) = [(''p'', ''replied'')] \<and> length c' = length c + 1"
proof -
  let ?env = "service_env sample_service ''e1'' 5"
  obtain w d where r: "wo_receive service_world ''e1'' 5 sample_armor
       \<lparr>ic_payer_hex = ''alice'', ic_recipient_hex = ''m'', ic_memo = None\<rparr> (([], []), empty_db) =
       (Inr \<lparr>rp_slate_id = ''p'', rp_amount = 700, rp_s2_armor = ''armor p''\<rparr>, w, d)"
      "map (\<lambda>p. (pay_id p, pay_slate_id p, payment.pay_status p)) (payments d) = [(''p'', Some ''p'', ''received'')]"
    using service_receives by (auto split: prod.splits)
  obtain m1 where m1: "allow_global_unwrap 5 [] = (True, m1)" "fst (allow_sender 5 ''alice'' m1)"
    using sample_limits by blast
  then obtain m2 where m2: "allow_sender 5 ''alice'' m1 = (True, m2)" by (metis (full_types) prod.collapse)
  have env: "ie_resolve ?env ''m'' = Some ''m''" "ie_unwrap ?env = opened service_crates" "ie_master_hex ?env = ''m''"
      "ie_pub_hex ?env = (\<lambda>k. k)" "ie_receive ?env = wo_receive service_world ''e1'' 5" "rumor_id ?env paying_rumor = ''hash''"
    by (simp_all add: service_env_def sample_service_def service_crates_def paying_crates_def sample_crates_def
        rumor_id_def paying_rumor_def)
  note msg = paying_event_facts paying_rumor_facts
  have "\<exists>rep s'. handle_wrap ?env 5 5 paying_event fresh_till = (ReceivedWrap ''p'' 700 rep, s') \<and> rx s' = (w, d)"
    using r(1) m1(1) m2
    by (simp add: handle_wrap_def handle_rumor_def Let_def decide_def mark_def fresh_till_def env msg service_opened)
  then obtain rep s' where h: "handle_wrap ?env 5 5 paying_event fresh_till = (ReceivedWrap ''p'' 700 rep, s')" "rx s' = (w, d)"
    by blast
  have n: "notices sample_service ''p'' 700 rep c = c" by (simp add: notices_def sample_service_def Let_def)
  have se: "se_crates sample_service = service_crates" "se_relays sample_service = [''wss://r'']"
    "se_replied sample_service = (\<lambda>sid st. (fst st, mark_replied sid (snd st)))" by (simp_all add: sample_service_def)
  obtain ev where "deliver_reply service_crates (se_client sample_service) [''wss://r''] rep c = (True, c @ [([''wss://r''], ev)])"
    using service_delivers by blast
  then have e: "handle_event sample_service paying_event (fresh_till, c) =
      (s'\<lparr>rx := (w, mark_replied ''p'' d)\<rparr>, c @ [([''wss://r''], ev)])"
    using h by (simp add: handle_event_def Let_def service_client n se)
  obtain p where "payments d = [p]" "pay_id p = ''p''" "pay_slate_id p = Some ''p''" using r(2) by auto
  then show ?thesis using e by (simp add: mark_replied_def)
qed

lemma sample_started:
  obtains t c where "start_up sample_service fresh_till [] = ({''m''}, t, c)"
    "map (\<lambda>p. (pay_id p, payment.pay_status p)) (payments (snd (rx t))) = [(''p'', ''replied'')]"
proof -
  have "\<exists>c2. publish_inbox (se_crates sample_service) (se_client sample_service) (se_keys sample_service)
      (se_relays sample_service) [] = c2" by blast
  then obtain c2 where c2: "publish_inbox (se_crates sample_service) (se_client sample_service) (se_keys sample_service)
      (se_relays sample_service) [] = c2" by blast
  have "fold (rc_add (se_client sample_service)) rs c = c" for rs c
    by (induction rs arbitrary: c) (simp_all add: service_client)
  moreover have "reconcile sample_service (fresh_till, c2) = (fresh_till, c2)"
    by (simp add: reconcile_def sample_service_def fresh_till_def empty_db_def unreplied_def List.map_filter_def)
  moreover have "set (se_watched sample_service) = {''m''}" by (simp add: sample_service_def)
  moreover obtain t c' where "handle_event sample_service paying_event (fresh_till, c2) = (t, c')"
      "map (\<lambda>p. (pay_id p, payment.pay_status p)) (payments (snd (rx t))) = [(''p'', ''replied'')]"
    using sample_handled [of c2] by (elim exE conjE) (rule that)
  ultimately have "start_up sample_service fresh_till [] = ({''m''}, t, c')"
    by (simp add: start_up_def Let_def service_client c2 handle_all_def)
  with \<open>map _ _ = _\<close> show ?thesis by (rule that [rotated])
qed

lemma sample_runs_on: "runs_on sample_service service_world"
  by (simp add: runs_on_def sample_service_def service_world_def service_crates_def paying_crates_def sample_crates_def)


theorem service_refines_server_witness:
  "\<exists>t. (serve service_world)\<^sup>*\<^sup>* (as_server shop_open fresh_till) (as_server shop_open t) \<and>
     map (\<lambda>p. (pay_id p, payment.pay_status p)) (payments (snd (rx t))) = [(''p'', ''replied'')]"
proof -
  obtain t c where s: "start_up sample_service fresh_till [] = ({''m''}, t, c)"
      "map (\<lambda>p. (pay_id p, payment.pay_status p)) (payments (snd (rx t))) = [(''p'', ''replied'')]"
    by (rule sample_started)
  from s(1) have "(service_step sample_service)\<^sup>*\<^sup>* (start_up sample_service fresh_till []) ({''m''}, t, c)" by simp
  from service_refines_server [OF sample_runs_on this, of shop_open] s(2) show ?thesis by (intro exI [of _ t] conjI)
qed

end
