(* ===== verification/Delivery.thy ===== *)
theory Delivery
  imports Service
begin

text \<open>
  What the service loop delivers: replies that failed to leave are sent again, the relays watch what
  the directory holds, and a payment and its response make the round trip between the payer's wallet
  and the server's.
\<close>

subsection \<open>Replies are sent or kept\<close>

text \<open>The reply that a stored payment's row is turned into at the next start.\<close>

definition resend :: "('k, 'x, 'r, 'c) service \<Rightarrow> unreplied_payment \<Rightarrow> 'k pending_reply option" where
  "resend se u =
     (case se_key_of_hex se (up_payer_hex u) of
        None \<Rightarrow> None
      | Some peer \<Rightarrow> map_option (\<lambda>k. build_reply k peer (up_s2_armor u)) (se_look se (up_recipient_hex u)))"

abbreviation delivers :: "('k, 'x, 'r, 'c) service \<Rightarrow> 'k pending_reply \<Rightarrow> bool \<Rightarrow> bool" where
  "delivers se rep sent \<equiv>
     \<exists>c c'. deliver_reply (se_crates se) (se_client se) (se_relays se) rep c = (sent, c')"

lemma reconcile_each_Cons:
  "reconcile_each se (u # us) (s, c) =
     (case resend se u of
        None \<Rightarrow> reconcile_each se us (s, c)
      | Some rep \<Rightarrow>
          (case deliver_reply (se_crates se) (se_client se) (se_relays se) rep c of
             (sent, c') \<Rightarrow> reconcile_each se us
                (if sent then s\<lparr>rx := se_replied se (up_slate_id u) (rx s)\<rparr> else s, c')))"
  by (simp add: resend_def split: option.split prod.split)

declare reconcile_each.simps(2) [simp del]

context slatepack_receiver
begin

lemma reconcile_each_pending:
  assumes "se_replied se = replied"
  shows "\<exists>S \<subseteq> set us. (\<forall>u \<in> S. \<exists>rep. resend se u = Some rep \<and> delivers se rep True) \<and>
    pending (rx (fst (reconcile_each se us (s, c)))) = filter (\<lambda>v. up_slate_id v \<notin> up_slate_id ` S) (pending (rx s)) \<and>
    (\<forall>u \<in> set us - S. \<forall>rep. resend se u = Some rep \<longrightarrow> delivers se rep False)"
proof (induction us arbitrary: s c)
  case Nil
  show ?case by (simp add: exI [of _ "{}"])
next
  case (Cons u us)
  show ?case
  proof (cases "resend se u")
    case None
    obtain S where "S \<subseteq> set us" "\<forall>u \<in> S. \<exists>rep. resend se u = Some rep \<and> delivers se rep True"
        "pending (rx (fst (reconcile_each se us (s, c)))) = filter (\<lambda>v. up_slate_id v \<notin> up_slate_id ` S) (pending (rx s))"
        "\<forall>u \<in> set us - S. \<forall>rep. resend se u = Some rep \<longrightarrow> delivers se rep False"
      using Cons.IH [of s c] by blast
    with None show ?thesis by (intro exI [of _ S]) (auto simp: reconcile_each_Cons)
  next
    case (Some rep)
    obtain sent c' where d: "deliver_reply (se_crates se) (se_client se) (se_relays se) rep c = (sent, c')" by fastforce
    let ?s = "if sent then s\<lparr>rx := replied (up_slate_id u) (rx s)\<rparr> else s"
    obtain S where S: "S \<subseteq> set us" "\<forall>u \<in> S. \<exists>rep. resend se u = Some rep \<and> delivers se rep True"
        "pending (rx (fst (reconcile_each se us (?s, c')))) = filter (\<lambda>v. up_slate_id v \<notin> up_slate_id ` S) (pending (rx ?s))"
        "\<forall>u \<in> set us - S. \<forall>rep. resend se u = Some rep \<longrightarrow> delivers se rep False"
      using Cons.IH [of ?s c'] by blast
    let ?S = "if sent then insert u S else S"
    have "?S \<subseteq> set (u # us)" using S(1) by auto
    moreover have "\<forall>v \<in> ?S. \<exists>rep. resend se v = Some rep \<and> delivers se rep True"
      using S(2) Some d by (cases sent) auto
    moreover have "reconcile_each se (u # us) (s, c) = reconcile_each se us (?s, c')"
      using Some d assms by (simp add: reconcile_each_Cons)
    moreover have "pending (rx (fst (reconcile_each se us (?s, c')))) =
        filter (\<lambda>v. up_slate_id v \<notin> up_slate_id ` ?S) (pending (rx s))"
      using S(3) by (cases sent) (auto simp: replied_pending intro: filter_cong)
    moreover have "\<forall>v \<in> set (u # us) - ?S. \<forall>rep. resend se v = Some rep \<longrightarrow> delivers se rep False"
      using S(4) Some d by (cases sent) auto
    ultimately show ?thesis by (intro exI [of _ ?S] conjI) simp_all
  qed
qed

end


subsection \<open>The watch set is followed\<close>

text \<open>
  What a relay pool does with the subscription under its fixed id: a successful one replaces the
  set of identities watched there (\<open>active\<close>), a failed one and every other call leave it.
\<close>

definition pool_laws :: "('k, 'c) relay_client \<Rightarrow> ('c \<Rightarrow> string set) \<Rightarrow> bool" where
  "pool_laws cl active \<longleftrightarrow>
     (\<forall>ts ws t c. active (snd (rc_subscribe cl ts ws t c)) =
        (case fst (rc_subscribe cl ts ws t c) of Inr _ \<Rightarrow> ws | Inl _ \<Rightarrow> active c)) \<and>
     (\<forall>c. active (snd (rc_now cl c)) = active c) \<and> (\<forall>c. active (snd (rc_rand cl c)) = active c) \<and>
     (\<forall>c. active (snd (rc_fresh cl c)) = active c) \<and> (\<forall>r c. active (rc_add cl r c) = active c) \<and>
     (\<forall>ts c. active (rc_connect cl ts c) = active c) \<and> (\<forall>ts p c. active (snd (rc_inbox cl ts p c)) = active c) \<and>
     (\<forall>ts ev c. active (snd (rc_send cl ts ev c)) = active c) \<and>
     (\<forall>ts ws t c. active (snd (rc_fetch cl ts ws t c)) = active c)"

lemma pool_now: "pool_laws cl active \<Longrightarrow> rc_now cl c = (t, c') \<Longrightarrow> active c' = active c"
  unfolding pool_laws_def by (metis snd_conv)

lemma pool_rand: "pool_laws cl active \<Longrightarrow> rc_rand cl c = (r, c') \<Longrightarrow> active c' = active c"
  unfolding pool_laws_def by (metis snd_conv)

lemma pool_fresh: "pool_laws cl active \<Longrightarrow> rc_fresh cl c = (r, c') \<Longrightarrow> active c' = active c"
  unfolding pool_laws_def by (metis snd_conv)

lemma pool_inbox: "pool_laws cl active \<Longrightarrow> rc_inbox cl ts p c = (r, c') \<Longrightarrow> active c' = active c"
  unfolding pool_laws_def by (metis snd_conv)

lemma pool_send: "pool_laws cl active \<Longrightarrow> rc_send cl ts ev c = (r, c') \<Longrightarrow> active c' = active c"
  unfolding pool_laws_def by (metis snd_conv)

lemma pool_fetch: "pool_laws cl active \<Longrightarrow> rc_fetch cl ts ws t c = (r, c') \<Longrightarrow> active c' = active c"
  unfolding pool_laws_def by (metis snd_conv)

lemma pool_connect: "pool_laws cl active \<Longrightarrow> active (rc_connect cl ts c) = active c"
  by (simp add: pool_laws_def)

lemma pool_subscribe:
  assumes "pool_laws cl active" "rc_subscribe cl ts ws t c = (r, c')"
  shows "active c' = (case r of Inr _ \<Rightarrow> ws | Inl _ \<Rightarrow> active c)"
  using assms unfolding pool_laws_def by (metis fst_conv snd_conv)

lemma pool_hints:
  assumes "pool_laws cl active" "recipient_hints cl p own c = (h, c')"
  shows "active c' = active c"
proof -
  obtain r c1 where i: "rc_inbox cl own p c = (r, c1)" by fastforce
  have "c' = c1" using assms(2) by (auto simp: recipient_hints_def i split: sum.splits option.splits)
  with pool_inbox [OF assms(1) i] show ?thesis by simp
qed

lemma pool_dispatch:
  assumes "pool_laws cl active" "dispatch n cl own k to r c = (x, c')"
  shows "active c' = active c"
proof -
  obtain hints enc c1 rnd c2 where h: "recipient_hints cl to own c = ((hints, enc), c1)" "rc_rand cl c1 = (rnd, c2)"
    by (metis surj_pair)
  have c2: "active c2 = active c" using pool_hints [OF assms(1) h(1)] pool_rand [OF assms(1) h(2)] by simp
  show ?thesis
  proof (cases "gift_wrap n rnd k to r (choose_version enc)")
    case (Inl e)
    with assms(2) h c2 show ?thesis by (simp add: dispatch_def Let_def)
  next
    case (Inr ev)
    obtain q c3 where q: "rc_send cl (targets_of hints own) ev (rc_connect cl (targets_of hints own) c2) = (q, c3)" by fastforce
    have "c' = c3" using assms(2) h Inr q by (simp add: dispatch_def Let_def)
    with pool_send [OF assms(1) q] pool_connect [OF assms(1)] c2 show ?thesis by simp
  qed
qed

lemma pool_deliver:
  assumes "pool_laws cl active" "deliver_reply n cl own rep c = (x, c')"
  shows "active c' = active c"
proof -
  obtain now c0 r where d: "rc_now cl c = (now, c0)"
      "dispatch n cl own (rep_from rep) (rep_payer rep) (reply_rumor n now rep) c0 = (r, c')"
    using assms(2) by (auto simp: deliver_reply_def Let_def split: prod.splits option.splits send_result.splits)
  from pool_now [OF assms(1) d(1)] pool_dispatch [OF assms(1) d(2)] show ?thesis by simp
qed

lemma pool_dm:
  assumes "pool_laws cl active"
  shows "active (send_dm n cl k to text own c) = active c"
proof -
  obtain now c0 where t: "rc_now cl c = (now, c0)" by fastforce
  obtain r c1 where d: "dispatch n cl own k to \<lparr>rm_id = None, rm_pubkey = ws_pub n k, rm_created_at = now, rm_kind = 14,
      rm_tags = [[''p'', to]], rm_content = text\<rparr> c0 = (r, c1)" by fastforce
  from pool_now [OF assms t] pool_dispatch [OF assms d] show ?thesis by (simp add: send_dm_def Let_def t d)
qed

lemma pool_handle_event:
  assumes "pool_laws (se_client se) active"
  shows "active (snd (handle_event se ev (s, c))) = active c"
proof -
  let ?cl = "se_client se"
  obtain now1 c1 now2 c2 rid c3 now3 c4 where r: "rc_now ?cl c = (now1, c1)" "rc_now ?cl c1 = (now2, c2)"
    "rc_fresh ?cl c2 = (rid, c3)" "rc_now ?cl c3 = (now3, c4)" by fastforce
  obtain out t where w: "handle_wrap (service_env se rid now3) now1 now2 ev s = (out, t)" by fastforce
  have c4: "active c4 = active c"
    using r pool_now [OF assms] pool_fresh [OF assms] by metis
  have n: "active (notices se sid amount rep c4) = active c4" for sid amount rep
    by (simp add: notices_def Let_def pool_dm [OF assms] split: option.split)
  have "active c' = active c"
    if "deliver_reply (se_crates se) ?cl (se_relays se) rep (notices se sid amount rep c4) = (sent, c')" for rep sid amount sent c'
    using pool_deliver [OF assms that] n c4 by simp
  then show ?thesis
    by (cases out) (simp_all add: handle_event_def Let_def r w c4 split: prod.split)
qed

lemma pool_handle_all:
  assumes "pool_laws (se_client se) active"
  shows "active (snd (handle_all se evs sc)) = active (snd sc)"
proof (induction evs arbitrary: sc)
  case (Cons ev evs)
  then show ?case using pool_handle_event [OF assms] by (cases sc) (simp add: handle_all_def)
qed (simp add: handle_all_def)

lemma refresh_follows:
  assumes "pool_laws (se_client se) active" "active c = w" "refresh_subscription se (w, s, c) = (w', s', c')"
  shows "active c' = w' \<and>
    (w' = set (se_watched se) \<or>
     w' = w \<and> (\<exists>t c1 c2 e. rc_subscribe (se_client se) (se_relays se) (set (se_watched se)) t c1 = (Inl e, c2)))"
proof (cases "w = set (se_watched se)")
  case True
  with assms(2,3) show ?thesis by (simp add: refresh_subscription_def plan_refresh_def Let_def)
next
  case False
  let ?cl = "se_client se" and ?W = "set (se_watched se)"
  obtain now c0 where t: "rc_now ?cl c = (now, c0)" by fastforce
  obtain r c1 where sub: "rc_subscribe ?cl (se_relays se) ?W (since_at now) c0 = (r, c1)" by fastforce
  have c1: "active c1 = (case r of Inr _ \<Rightarrow> ?W | Inl _ \<Rightarrow> w)"
    using pool_subscribe [OF assms(1) sub] pool_now [OF assms(1) t] assms(2) by (simp split: sum.split)
  show ?thesis
  proof (cases r)
    case (Inl e)
    with False assms(3) t sub c1 show ?thesis by (auto simp: refresh_subscription_def plan_refresh_def Let_def)
  next
    case (Inr u)
    obtain x c2 where f: "rc_fetch ?cl (se_relays se) (set (rp_added (plan_refresh w ?W))) (since_at now) c1 = (x, c2)"
      by fastforce
    have "active c2 = ?W" using pool_fetch [OF assms(1) f] c1 Inr by simp
    then have "active (snd (handle_all se evs (s, c2))) = ?W" for evs using pool_handle_all [OF assms(1)] by simp
    moreover have "w' = ?W \<and> (c' = c1 \<or> c' = c2 \<or> (\<exists>evs. handle_all se evs (s, c2) = (s', c')))"
      using False assms(3) t sub f Inr
      by (cases x) (auto simp: refresh_subscription_def plan_refresh_def Let_def split: if_splits)
    ultimately show ?thesis using c1 Inr \<open>active c2 = ?W\<close> by (metis old.sum.simps(6) snd_conv)
  qed
qed

lemma steps_follow:
  assumes "(service_step se)\<^sup>*\<^sup>* (w, s, c) (w', s', c')" "pool_laws (se_client se) active" "active c = w"
  shows "active c' = w'"
  using assms(1)
proof (induction "(w', s', c')" arbitrary: w' s' c' rule: rtranclp_induct)
  case base
  with assms(3) show ?case by simp
next
  case (step st)
  obtain w1 s1 c1 where st: "st = (w1, s1, c1)" by (rule prod_cases3)
  have a: "active c1 = w1" by (rule step.hyps(3) [OF st])
  from step.hyps(2) show ?case unfolding st
  proof cases
    case (notification look ev)
    then show ?thesis
      using a pool_handle_event [of "se\<lparr>se_look := look\<rparr>" active ev s1 c1] assms(2)
      by (cases "handle_event (se\<lparr>se_look := look\<rparr>) ev (s1, c1)") simp
  next
    case (refresh_tick ws look)
    then show ?thesis
      using refresh_follows [of "se\<lparr>se_look := look, se_watched := ws\<rparr>" active c1 w1 s1 w' s' c'] a assms(2) by simp
  qed (use a in simp)
qed


definition watching_client :: "(string, string set) relay_client" where
  "watching_client =
     \<lparr>rc_now = (\<lambda>c. (5, c)), rc_rand = (\<lambda>c. (sample_rand, c)), rc_fresh = (\<lambda>c. (''e1'', c)), rc_add = (\<lambda>_ c. c),
      rc_connect = (\<lambda>_ c. c), rc_inbox = (\<lambda>_ _ c. (Inr None, c)), rc_send = (\<lambda>ts ev c. (SentTo (length ts), c)),
      rc_fetch = (\<lambda>_ _ _ c. (Inr [], c)), rc_subscribe = (\<lambda>_ ws _ _. (Inr (), ws)),
      rc_relay_list = map (\<lambda>r. [''r'', r])\<rparr>"

definition watching_service ::
  "(string, string set, (string list \<times> string list) \<times> string db, string set) service" where
  "watching_service =
     \<lparr>se_keys = ''m'', se_relays = [''wss://r''], se_notify = se_notify sample_service, se_look = se_look sample_service,
      se_watched = [''m''], se_receive = se_receive sample_service, se_replied = se_replied sample_service,
      se_unreplied = se_unreplied sample_service, se_crates = service_crates, se_client = watching_client,
      se_key_of_hex = Some\<rparr>"


text \<open>
  The subscription at start-up has no such care: when it fails, the watch set is remembered as if it
  held, and no refresh tick tries again until the set itself changes.
\<close>

lemma failed_start_is_not_retried:
  assumes "pool_laws (se_client se) active" "\<And>ts ws t c. \<exists>e c'. rc_subscribe (se_client se) ts ws t c = (Inl e, c')"
    and "start_up se s c = (w, s', c')"
  shows "w = set (se_watched se) \<and> refresh_subscription se (w, s', c') = (w, s', c')"
  using assms(3)
  by (auto simp: start_up_def refresh_subscription_def plan_refresh_def Let_def split: prod.splits)

subsection \<open>There and back\<close>

text \<open>What a payer's wallet sends: one slatepack in a direct message to the shop's identity \<open>b\<close>.\<close>

definition payment_rumor :: "('k, 'x) wrap_sdk \<Rightarrow> 'k \<Rightarrow> int \<Rightarrow> string \<Rightarrow> string option \<Rightarrow> rumor" where
  "payment_rumor n a sent_at pack note =
     \<lparr>rm_id = None, rm_pubkey = ws_pub n a, rm_created_at = sent_at, rm_kind = 14, rm_tags = build_rumor_tags note,
      rm_content = build_payment_content pack\<rparr>"

text \<open>C7: a payment makes the round trip. A payer's slatepack, wrapped for an identity the server holds in
  either NIP-44 version, is unwrapped and handed to the wallet as it was sent, with the payer, the
  identity and the note; and the response the server then wraps, in either version, opens at the payer
  as a message from the very identity that was paid, with exactly the wallet's response slatepack in
  it.\<close>

theorem payment_round_trip:
  assumes laws: "wrap_laws n" and w: "gift_wrap n rnd a (ws_pub n b) (payment_rumor n a sent_at pack note) v = Inr ev"
    and blocks: "is_block (trim pack)" "length (trim pack) \<le> MAX_SLATEPACK" "is_block (trim reply_pack)" "length (trim reply_pack) \<le> MAX_SLATEPACK"
    and env: "ie_unwrap env = opened n" "ie_pub_hex env = ws_pub n" "ie_resolve env (ws_pub n b) = Some b"
      "ws_pub n a \<noteq> ie_master_hex env"
    and guards: "length (ev_content ev) \<le> MAX_WRAP_CONTENT" "ev_id ev \<notin> seen s"
      "rumor_id env (ensure_id n (payment_rumor n a sent_at pack note)) \<notin> seen s"
      "allow_global_unwrap now1 (rate s) = (True, m1)" "allow_sender now2 (ws_pub n a) m1 = (True, m2)"
    and got: "ie_receive env (trim pack)
        \<lparr>ic_payer_hex = ws_pub n a, ic_recipient_hex = ws_pub n b, ic_memo = extract_subject (build_rumor_tags note)\<rparr> (rx s) =
        (Inr \<lparr>rp_slate_id = sid, rp_amount = amt, rp_s2_armor = reply_pack\<rparr>, r')"
  shows "\<exists>rep s'. handle_wrap env now1 now2 ev s = (ReceivedWrap sid amt rep, s') \<and> rx s' = r' \<and>
    (\<forall>rnd' now v' ev'. gift_wrap n rnd' (rep_from rep) (rep_payer rep) (reply_rumor n now rep) v' = Inr ev' \<longrightarrow>
       find_p_tag (ev_tags ev') = Some (ws_pub n a) \<and>
       (\<exists>u. unwrap_gift_wrap n a ev' = Inr u \<and> uw_sender u = ws_pub n b \<and>
            extract_slatepack (rm_content (uw_rumor u)) = Some (trim reply_pack)))"
proof -
  let ?r = "ensure_id n (payment_rumor n a sent_at pack note)"
  have r: "rm_pubkey ?r = ws_pub n a" "rm_is_dm ?r" "rm_content ?r = build_payment_content pack" "rm_tags ?r = build_rumor_tags note"
    by (simp_all add: ensure_id_def payment_rumor_def rm_is_dm_def)
  have open_it: "ev_is_gift_wrap ev" "find_p_tag (ev_tags ev) = Some (ws_pub n b)"
      "opened n b ev = Some \<lparr>uw_sender = ws_pub n a, uw_rumor = ?r\<rparr>"
    using wrap_opens [OF laws w] by (simp_all add: opened_def payment_rumor_def)
  have armor: "extract_slatepack (build_payment_content pack) = Some (trim pack)"
    by (rule built_content_extracts [OF blocks(1,2)]) simp
  then have len: "length (build_payment_content pack) \<le> MAX_RUMOR_CONTENT"
    by (auto simp: extract_slatepack_def split: if_splits)
  let ?rep = "build_reply b (ws_pub n a) reply_pack"
  have "\<exists>s'. handle_wrap env now1 now2 ev s = (ReceivedWrap sid amt ?rep, s') \<and> rx s' = r'"
    using open_it env guards got r armor len
    by (simp add: handle_wrap_def handle_rumor_def Let_def decide_def mark_def)
  moreover have "find_p_tag (ev_tags ev') = Some (ws_pub n a) \<and>
       (\<exists>u. unwrap_gift_wrap n a ev' = Inr u \<and> uw_sender u = ws_pub n b \<and>
            extract_slatepack (rm_content (uw_rumor u)) = Some (trim reply_pack))"
    if "gift_wrap n rnd' (rep_from ?rep) (rep_payer ?rep) (reply_rumor n now ?rep) v' = Inr ev'" for rnd' now v' ev'
  proof -
    have "gift_wrap n rnd' b (ws_pub n a) (reply_rumor n now ?rep) v' = Inr ev'" using that by (simp add: build_reply_def)
    note o = wrap_opens [OF laws this]
    have "rm_pubkey (reply_rumor n now ?rep) = ws_pub n b"
      "rm_content (ensure_id n (reply_rumor n now ?rep)) = build_payment_content reply_pack"
      by (simp_all add: reply_rumor_def build_reply_def ensure_id_def)
    with o built_content_extracts [OF blocks(3,4)] show ?thesis by simp
  qed
  ultimately show ?thesis by blast
qed

definition trip_rumor :: rumor where
  "trip_rumor = \<lparr>rm_id = Some ''hash'', rm_pubkey = ''alice'', rm_created_at = 5, rm_kind = 14, rm_tags = build_rumor_tags None,
     rm_content = build_payment_content sample_armor\<rparr>"

definition trip_seal :: event where
  "trip_seal = \<lparr>ev_id = ''id'', ev_pubkey = ''alice'', ev_created_at = 1, ev_kind = 13, ev_tags = [], ev_content = ''2R'',
     ev_sig = ''alice''\<rparr>"

definition trip_event :: event where
  "trip_event = \<lparr>ev_id = ''id'', ev_pubkey = ''eph'', ev_created_at = 2, ev_kind = 1059, ev_tags = [[''p'', ''m'']],
     ev_content = ''2S'', ev_sig = ''eph''\<rparr>"

text \<open>The sample crates, with short texts for one rumor and one seal.\<close>

definition trip_rumor_json :: "rumor \<Rightarrow> string" where
  "trip_rumor_json r = (if r = trip_rumor then ''R'' else CHR ''X'' # sample_json_rumor r)"

definition trip_event_json :: "event \<Rightarrow> string" where
  "trip_event_json e = (if e = trip_seal then ''S'' else CHR ''X'' # sample_json_event e)"

definition trip_crates :: "(string, string set) wrap_sdk" where
  "trip_crates = sample_crates
     \<lparr>ws_rumor_json := trip_rumor_json,
      ws_rumor_of_json := (\<lambda>j. if j = ''R'' then Inr trip_rumor else sample_rumor_json (tl j)),
      ws_event_json := trip_event_json,
      ws_event_of_json := (\<lambda>j. if j = ''S'' then Inr trip_seal else sample_event_json (tl j)),
      ws_wrap_seal := (\<lambda>t _ k receiver seal. sample_sign k
        \<lparr>up_kind = 1059, up_tags = [[''p'', receiver]], up_content = CHR ''2'' # trip_event_json seal, up_created_at = t\<rparr>)\<rparr>"

definition trip_ingest :: "(string, string list) ingest_env" where
  "trip_ingest = sample_ingest\<lparr>ie_unwrap := opened trip_crates,
     ie_receive := (\<lambda>a c l. (Inr \<lparr>rp_slate_id = ''s1'', rp_amount = 700, rp_s2_armor = sample_armor\<rparr>, a # l))\<rparr>"

lemma trip_crates_laws: "wrap_laws trip_crates"
  by (auto simp: wrap_laws_def trip_crates_def sample_crates_def sample_json sample_sign_def v3_conversation_key_def
      trip_rumor_json_def trip_event_json_def)

lemma trip_wrap:
  "gift_wrap trip_crates sample_rand ''alice'' (ws_pub trip_crates ''m'') (payment_rumor trip_crates ''alice'' 5 sample_armor None) V2 =
     Inr trip_event"
  by (simp add: gift_wrap_def sealed_def trip_crates_def sample_crates_def sample_sign_def payment_rumor_def ensure_id_def
      trip_rumor_json_def trip_rumor_def trip_event_json_def trip_seal_def trip_event_def sample_rand_def)

theorem payment_round_trip_witness:
  "\<exists>rep s' ev' u. handle_wrap trip_ingest 5 5 trip_event \<lparr>seen = {}, rate = [], rx = []\<rparr> = (ReceivedWrap ''s1'' 700 rep, s') \<and>
     rx s' = [sample_armor] \<and>
     gift_wrap trip_crates sample_rand (rep_from rep) (rep_payer rep) (reply_rumor trip_crates 6 rep) V3 = Inr ev' \<and>
     unwrap_gift_wrap trip_crates ''alice'' ev' = Inr u \<and> extract_slatepack (rm_content (uw_rumor u)) = Some sample_armor"
proof -
  obtain m1 where m1: "allow_global_unwrap 5 [] = (True, m1)" "fst (allow_sender 5 ''alice'' m1)"
    using sample_limits by blast
  then obtain m2 where m2: "allow_sender 5 ''alice'' m1 = (True, m2)" by (metis (full_types) prod.collapse)
  have block: "is_block (trim sample_armor)" "trim sample_armor = sample_armor" by code_simp+
  have short: "length sample_armor \<le> MAX_SLATEPACK" by (simp add: sample_armor_def MAX_SLATEPACK_def)
  have pub: "ws_pub trip_crates k = k" for k by (simp add: trip_crates_def sample_crates_def)
  have env: "ie_unwrap trip_ingest = opened trip_crates" "ie_pub_hex trip_ingest = ws_pub trip_crates"
      "ie_resolve trip_ingest ''m'' = Some ''m''" "''alice'' \<noteq> ie_master_hex trip_ingest"
      "ie_receive trip_ingest a c [] = (Inr \<lparr>rp_slate_id = ''s1'', rp_amount = 700, rp_s2_armor = sample_armor\<rparr>, [a])" for a c
    by (simp_all add: trip_ingest_def sample_ingest_def trip_crates_def sample_crates_def)
  have "length (ev_content trip_event) \<le> MAX_WRAP_CONTENT" by (simp add: trip_event_def MAX_WRAP_CONTENT_def)
  from payment_round_trip [OF trip_crates_laws trip_wrap, where env = trip_ingest and s = "\<lparr>seen = {}, rate = [], rx = []\<rparr>",
      OF _ _ _ _ env(1,2) _ _ this, unfolded pub, of sample_armor 5 m1 5 m2 "''s1''" 700 "[sample_armor]"]
  obtain rep s' where h: "handle_wrap trip_ingest 5 5 trip_event \<lparr>seen = {}, rate = [], rx = []\<rparr> = (ReceivedWrap ''s1'' 700 rep, s')"
      "rx s' = [sample_armor]"
      "\<forall>rnd' now v' ev'. gift_wrap trip_crates rnd' (rep_from rep) (rep_payer rep) (reply_rumor trip_crates now rep) v' = Inr ev' \<longrightarrow>
         find_p_tag (ev_tags ev') = Some ''alice'' \<and>
         (\<exists>u. unwrap_gift_wrap trip_crates ''alice'' ev' = Inr u \<and> uw_sender u = ''m'' \<and>
              extract_slatepack (rm_content (uw_rumor u)) = Some sample_armor)"
    using block short env m1(1) m2 by auto
  obtain ev' where "gift_wrap trip_crates sample_rand (rep_from rep) (rep_payer rep) (reply_rumor trip_crates 6 rep) V3 = Inr ev'"
    by (simp add: gift_wrap_def sealed_def trip_crates_def sample_crates_def sample_sign_def v3_conversation_key_def)
  with h show ?thesis by blast
qed

definition pending_row :: payment where
  "pending_row =
     \<lparr>pay_id = ''p'', pay_amount = 700, payer = Some ''alice'', pay_slate_id = Some ''p'', kernel = None, proof_blob = None,
      payment.pay_status = ''received'', confirmed_height = None, pay_created_at = 1, s2_armor = Some ''A'',
      pay_confirmed_at = None, pay_invoice_id = None, pay_user_id = None, recipient = Some ''m'', confirmations = 0\<rparr>"

definition pending_till :: "((string list \<times> string list) \<times> string db) ingest_state" where
  "pending_till = \<lparr>seen = {}, rate = [], rx = (([], []), empty_db\<lparr>payments := [pending_row]\<rparr>)\<rparr>"


subsection \<open>Where we say we listen\<close>

text \<open>
  What this server publishes, another one reads back: the first three relays, without trailing
  slashes, and the wish for NIP-44 version 3.
\<close>

lemma relay_hints_inbox:
  "length rs + length us \<le> MAX_DM_RELAYS \<Longrightarrow>
   relay_hints rs (map (\<lambda>r. [''relay'', r]) us @ [capability_tag]) = rs @ map (trim_end_matches (CHR ''/'')) us"
  by (induction us arbitrary: rs) (auto simp: capability_tag_def ENCRYPTION_TAG_def)

lemma encryption_capability_inbox:
  "encryption_capability (map (\<lambda>r. [''relay'', r]) us @ [capability_tag]) = Some ENCRYPTION_CAPABILITIES"
  by (induction us) (auto simp: capability_tag_def ENCRYPTION_TAG_def)

lemma inbox_read_back:
  assumes "rc_inbox cl own p c = (Inr (Some (inbox_tags (take MAX_DM_RELAYS rs))), c')"
  shows "fst (fst (recipient_hints cl p own c)) = map (trim_end_matches (CHR ''/'')) (take 3 rs) \<and>
    choose_version (snd (fst (recipient_hints cl p own c))) = V3"
proof -
  have "choose_version (Some ENCRYPTION_CAPABILITIES) = V3" by code_simp
  then show ?thesis
    using assms relay_hints_inbox [of "[]" "take MAX_DM_RELAYS rs"] encryption_capability_inbox [of "take MAX_DM_RELAYS rs"]
    by (simp add: recipient_hints_def inbox_tags_def MAX_DM_RELAYS_def)
qed

end
