(* ===== verification/Files.thy ===== *)
theory Files
  imports Text
begin

text \<open>
  What the code uses of \<open>std::fs\<close> and \<open>std::path\<close>: regular files with their permission bits, the
  calls that can fail, and paths as text. Directories are not kept: creating one can only fail.
\<close>

record stored_file =
  fl_body :: string
  fl_mode :: nat

type_synonym disk = "string \<Rightarrow> stored_file option"

datatype fs_call = MakeDir string | SetMode string nat | WriteFile string | RemoveFile string | ReadFile string

text \<open>\<open>io\<close> says which calls fail on a disk, and how.\<close>

type_synonym fs_faults = "fs_call \<Rightarrow> disk \<Rightarrow> string option"

text \<open>\<open>fs::write\<close> keeps the mode of a file that is there; \<open>umask_mode\<close> is the mode of a new one.\<close>

definition put_file :: "nat \<Rightarrow> string \<Rightarrow> string \<Rightarrow> disk \<Rightarrow> disk" where
  "put_file umask_mode p contents d =
     d(p \<mapsto> \<lparr>fl_body = contents, fl_mode = (case d p of None \<Rightarrow> umask_mode | Some f \<Rightarrow> fl_mode f)\<rparr>)"

definition chmod_to :: "string \<Rightarrow> nat \<Rightarrow> disk \<Rightarrow> disk" where
  "chmod_to p m d = (case d p of None \<Rightarrow> d | Some f \<Rightarrow> d(p \<mapsto> f\<lparr>fl_mode := m\<rparr>))"

definition read_to_string :: "fs_faults \<Rightarrow> string \<Rightarrow> disk \<Rightarrow> string + string" where
  "read_to_string io p d =
     (case d p of
        None \<Rightarrow> Inl ''No such file or directory (os error 2)''
      | Some f \<Rightarrow> (case io (ReadFile p) d of Some e \<Rightarrow> Inl e | None \<Rightarrow> Inr (fl_body f)))"

text \<open>\<open>Path::parent\<close> of a file.\<close>

definition parent_dir :: "string \<Rightarrow> string" where
  "parent_dir p =
     (let d = rev (tl (dropWhile (\<lambda>c. c \<noteq> CHR ''/'') (rev p))) in
      if d = [] \<and> starts_with ''/'' p then ''/'' else d)"

subsection \<open>Calls in sequence\<close>

definition fs_call_as :: "fs_faults \<Rightarrow> (string \<Rightarrow> 'e) \<Rightarrow> fs_call \<Rightarrow> (disk \<Rightarrow> disk) \<Rightarrow> disk \<Rightarrow> ('e + unit) \<times> disk" where
  "fs_call_as io wrap call upd d = (case io call d of Some e \<Rightarrow> (Inl (wrap e), d) | None \<Rightarrow> (Inr (), upd d))"

definition then_fs :: "('e + 'a) \<times> disk \<Rightarrow> ('a \<Rightarrow> disk \<Rightarrow> ('e + 'b) \<times> disk) \<Rightarrow> ('e + 'b) \<times> disk" where
  "then_fs r k = (case r of (Inl e, d) \<Rightarrow> (Inl e, d) | (Inr x, d) \<Rightarrow> k x d)"

lemma fs_call_as_Inr:
  "fs_call_as io wrap call upd d = (Inr u, d') \<longleftrightarrow> io call d = None \<and> d' = upd d"
  by (auto simp: fs_call_as_def split: option.split)

lemma then_fs_Inr: "then_fs r k = (Inr y, d') \<longleftrightarrow> (\<exists>x d. r = (Inr x, d) \<and> k x d = (Inr y, d'))"
  by (auto simp: then_fs_def split: prod.split sum.split)

lemma chmod_put_file: "chmod_to p m (put_file u p contents d) = d(p \<mapsto> \<lparr>fl_body = contents, fl_mode = m\<rparr>)"
  by (simp add: chmod_to_def put_file_def)

lemma chmod_to_other: "q \<noteq> p \<Longrightarrow> chmod_to p m d q = d q"
  by (simp add: chmod_to_def split: option.split)

end
