(* ===== verification/Wizard.thy ===== *)
theory Wizard
  imports Setup Wallet Files
begin

text \<open>
  \<open>crates/gp-server/src/setup.rs\<close>: the \<open>gp-server setup\<close> wizard around the pure half in \<open>Setup\<close>.
  It asks, creates or reopens the wallet, persists the password as the restart mode says and
  writes the env file. The terminal is a list of input lines (as \<open>read_line\<close> returns them, or a
  read error) and the list of what was shown: a \<open>screen\<close> is named by its purpose and carries
  the values printed in it. Terminal echo is not modelled; writing to the terminal succeeds.
\<close>

subsection \<open>The outside\<close>

datatype seed_plan = Fresh string | Pasted string | Existing

datatype screen =
  NotATerminal | Welcome | AskUrl | Question string | Complaint string | AskBind | AskNode | Probing
| UsingNode string bool | KeepingWallet | AskPassword | NewPassword | RepeatPassword | EnterPassword
| AskSeed | ShowSeed string | AskAck string | TypeYes | AskRestart "nat option" restart_mode | AskCurrencies
| AskRail | NoPasswordOnDisk | Reopening | Creating | WalletReady string | PlaintextWarning string
| SeedReminder seed_plan | SetUp restart_mode bool string | WooBlock string | ProxyHint string string
| Wrote string string restart_mode bool

text \<open>What starting \<open>systemd-creds encrypt\<close> came to: the spawn, the write to its stdin, its exit.\<close>

datatype spawned = NoProgram | NotStarted string | Started "string + unit" "string + bool"

text \<open>
  \<open>su_io\<close> says which file system calls fail, \<open>su_umask_mode\<close> is the mode of a new file,
  \<open>su_seed_file\<close> whether the seed file is there, \<open>su_random\<close> the draws of the CSPRNG in order.
\<close>

record 'w setup_world =
  su_lower :: "string \<Rightarrow> string"
  su_io :: fs_faults
  su_umask_mode :: nat
  su_host :: host
  su_lifecycle :: "'w lifecycle"
  su_seed_file :: "string \<Rightarrow> 'w \<Rightarrow> bool"
  su_address :: "'w \<Rightarrow> wallet_error + string"
  su_entropy_words :: "u8 list \<Rightarrow> string + string"
  su_probe :: "string \<Rightarrow> bool"
  su_random :: "nat \<Rightarrow> u8 list"
  su_creds :: "string \<Rightarrow> string \<Rightarrow> disk \<Rightarrow> spawned \<times> disk"

type_synonym sealer = "string \<Rightarrow> string \<Rightarrow> disk \<Rightarrow> (string + bool) \<times> disk"

record setup_options =
  so_reconfigure :: bool
  so_prefix :: "string option"
  so_node_override :: "string option"
  so_force_run :: bool
  so_stdin_is_tty :: bool
  so_seal :: "sealer option"

type_synonym input = "(string + string) list"

record 'w till =
  tl_disk :: disk
  tl_wallet :: "chain_t option \<times> 'w"
  tl_in :: input
  tl_out :: "screen list"

type_synonym ('w, 'a) act = "'w till \<Rightarrow> (string + 'a) \<times> 'w till"

definition give :: "'a \<Rightarrow> ('w, 'a) act" where "give x st = (Inr x, st)"
definition refuse :: "string \<Rightarrow> ('w, 'a) act" where "refuse e st = (Inl e, st)"

definition bind_act :: "('w, 'a) act \<Rightarrow> ('a \<Rightarrow> ('w, 'b) act) \<Rightarrow> ('w, 'b) act" where
  "bind_act m k st = (case m st of (Inl e, st') \<Rightarrow> (Inl e, st') | (Inr x, st') \<Rightarrow> k x st')"

definition say :: "screen list \<Rightarrow> ('w, unit) act" where
  "say s st = (Inr (), st\<lparr>tl_out := tl_out st @ s\<rparr>)"

definition systemd_creds_seal :: "'w setup_world \<Rightarrow> sealer" where
  "systemd_creds_seal W password dest d =
     (case su_creds W password dest d of
        (NoProgram, d') \<Rightarrow> (Inr False, d')
      | (NotStarted e, d') \<Rightarrow> (Inl (''could not run systemd-creds: '' @ e), d')
      | (Started (Inl e) _, d') \<Rightarrow> (Inl (''could not pass the password to systemd-creds: '' @ e), d')
      | (Started (Inr _) (Inl e), d') \<Rightarrow> (Inl (''systemd-creds did not complete: '' @ e), d')
      | (Started (Inr _) (Inr ok), d') \<Rightarrow> (Inr ok, d'))"

subsection \<open>Where things are written\<close>

record paths =
  pa_env_file :: string
  pa_secrets_dir :: string
  pa_wallet_password_file :: string
  pa_encrypted_cred_file :: string
  pa_data_dir :: string
  pa_db_path :: string
  pa_dropin_file :: string
  pa_encrypted_dropin_file :: string
  pa_runtime_password_file :: string

definition reroot :: "string option \<Rightarrow> string \<Rightarrow> string" where
  "reroot prefix p =
     (case prefix of Some d \<Rightarrow> join_path d (dropWhile (\<lambda>c. c = CHR ''/'') p) | None \<Rightarrow> p)"

definition resolve_paths :: "string option \<Rightarrow> paths" where
  "resolve_paths prefix =
     (let secrets_dir = reroot prefix ''etc/goblinpay/secrets'';
          dropin_dir = ''etc/systemd/system/gp-server.service.d'' in
      \<lparr>pa_env_file = reroot prefix ''etc/goblinpay.env'',
       pa_secrets_dir = secrets_dir,
       pa_wallet_password_file = join_path secrets_dir ''wallet_password'',
       pa_encrypted_cred_file = join_path secrets_dir ''wallet_password.cred'',
       pa_data_dir = reroot prefix ''var/lib/goblinpay/gp-data'',
       pa_db_path = reroot prefix ''var/lib/goblinpay/goblinpay.db'',
       pa_dropin_file = reroot prefix (dropin_dir @ ''/manual.conf''),
       pa_encrypted_dropin_file = reroot prefix (dropin_dir @ ''/encrypted.conf''),
       pa_runtime_password_file = reroot prefix RUNTIME_WALLET_PASSWORD_FILE\<rparr>)"

definition seed_path :: "string \<Rightarrow> string" where
  "seed_path dir = join_path (join_path (join_path dir ''wallet'') ''wallet_data'') ''wallet.seed''"

subsection \<open>Files\<close>

definition fs_do :: "'w setup_world \<Rightarrow> string \<Rightarrow> fs_call \<Rightarrow> (disk \<Rightarrow> disk) \<Rightarrow> ('w, unit) act" where
  "fs_do W what call upd st =
     (case su_io W call (tl_disk st) of
        Some e \<Rightarrow> (Inl (what @ '': '' @ e), st)
      | None \<Rightarrow> (Inr (), st\<lparr>tl_disk := upd (tl_disk st)\<rparr>))"

definition make_dirs :: "'w setup_world \<Rightarrow> string \<Rightarrow> ('w, unit) act" where
  "make_dirs W p = fs_do W (''cannot create '' @ p) (MakeDir p) (\<lambda>d. d)"

definition chmod :: "'w setup_world \<Rightarrow> string \<Rightarrow> nat \<Rightarrow> ('w, unit) act" where
  "chmod W p mode = fs_do W (''cannot chmod '' @ p) (SetMode p mode) (chmod_to p mode)"

definition write_file :: "'w setup_world \<Rightarrow> string \<Rightarrow> string \<Rightarrow> ('w, unit) act" where
  "write_file W p contents = fs_do W (''cannot write '' @ p) (WriteFile p) (put_file (su_umask_mode W) p contents)"

definition ensure_dir :: "'w setup_world \<Rightarrow> string \<Rightarrow> nat \<Rightarrow> ('w, unit) act" where
  "ensure_dir W p mode = bind_act (make_dirs W p) (\<lambda>_. chmod W p mode)"

definition remove_if_exists :: "'w setup_world \<Rightarrow> string \<Rightarrow> ('w, unit) act" where
  "remove_if_exists W p st =
     (case tl_disk st p of
        None \<Rightarrow> (Inr (), st)
      | Some _ \<Rightarrow> fs_do W (''cannot remove '' @ p) (RemoveFile p) (\<lambda>d. d(p := None)) st)"

definition write_secret_file :: "'w setup_world \<Rightarrow> string \<Rightarrow> string \<Rightarrow> ('w, unit) act" where
  "write_secret_file W p contents =
     bind_act (remove_if_exists W p) (\<lambda>_.
     bind_act (write_file W p (contents @ [CHR 0x0A])) (\<lambda>_.
     chmod W p 0x100))"

definition write_dropin_file :: "'w setup_world \<Rightarrow> string \<Rightarrow> string \<Rightarrow> ('w, unit) act" where
  "write_dropin_file W p contents =
     bind_act (make_dirs W (parent_dir p)) (\<lambda>_.
     bind_act (write_file W p contents) (\<lambda>_.
     chmod W p 0x1A4))"

definition write_env_file :: "'w setup_world \<Rightarrow> string \<Rightarrow> string \<Rightarrow> ('w, unit) act" where
  "write_env_file W p contents =
     bind_act (make_dirs W (parent_dir p)) (\<lambda>_.
     bind_act (write_file W p contents) (\<lambda>_.
     chmod W p 0x1A0))"

subsection \<open>Asking\<close>

text \<open>
  A prompt maps the remaining input to its answer, what is left of the input and what was shown.
  Every read consumes a line, so the loops end with the input.
\<close>

type_synonym 'a prompt = "input \<Rightarrow> (string + 'a) \<times> input \<times> screen list"

definition ask :: "'a prompt \<Rightarrow> ('w, 'a) act" where
  "ask f st = (case f (tl_in st) of (r, rest, shown) \<Rightarrow> (r, st\<lparr>tl_in := rest, tl_out := tl_out st @ shown\<rparr>))"

definition io_err :: "string \<Rightarrow> string" where "io_err e = ''io error: '' @ e"

fun read_line_opt :: "input \<Rightarrow> (string + string option) \<times> input" where
  "read_line_opt [] = (Inr None, [])"
| "read_line_opt (Inl e # rest) = (Inl (io_err e), rest)"
| "read_line_opt (Inr l # rest) = (Inr (Some (trim_newlines l)), rest)"

definition read_line :: "input \<Rightarrow> (string + string) \<times> input" where
  "read_line inp =
     (case read_line_opt inp of
        (Inl e, rest) \<Rightarrow> (Inl e, rest)
      | (Inr None, rest) \<Rightarrow> (Inr [], rest)
      | (Inr (Some l), rest) \<Rightarrow> (Inr l, rest))"

text \<open>One question, one line, turned into an answer that cannot fail.\<close>

definition one_line :: "screen list \<Rightarrow> (string \<Rightarrow> 'a) \<Rightarrow> 'a prompt" where
  "one_line shown f inp =
     (case read_line inp of (Inl e, rest) \<Rightarrow> (Inl e, rest, shown) | (Inr l, rest) \<Rightarrow> (Inr (f l), rest, shown))"

definition and_shown :: "screen list \<Rightarrow> (string + 'a) \<times> input \<times> screen list \<Rightarrow> (string + 'a) \<times> input \<times> screen list" where
  "and_shown s r = (case r of (a, rest, shown) \<Rightarrow> (a, rest, s @ shown))"

fun prompt_required :: "(string \<Rightarrow> string + 'a) \<Rightarrow> string \<Rightarrow> 'a prompt" where
  "prompt_required parse q [] =
     (case parse [] of
        Inr v \<Rightarrow> (Inr v, [], [Question q])
      | Inl e \<Rightarrow> (Inl (''no answer provided: '' @ e), [], [Question q, Complaint e]))"
| "prompt_required parse q (Inl e # rest) = (Inl (io_err e), rest, [Question q])"
| "prompt_required parse q (Inr l # rest) =
     (case parse (trim_newlines l) of
        Inr v \<Rightarrow> (Inr v, rest, [Question q])
      | Inl e \<Rightarrow>
          if trim_newlines l = [] then (Inl (''no answer provided: '' @ e), rest, [Question q, Complaint e])
          else and_shown [Question q, Complaint e] (prompt_required parse q rest))"

fun prompt_wallet_password_loop :: "string prompt" where
  "prompt_wallet_password_loop [] = (Inl ''no wallet password provided (end of input)'', [], [NewPassword])"
| "prompt_wallet_password_loop (Inl e # rest) = (Inl (io_err e), rest, [NewPassword])"
| "prompt_wallet_password_loop (Inr a # rest) =
     (case validate_password (trim_newlines a) of
        Inl e \<Rightarrow> and_shown [NewPassword, Complaint e] (prompt_wallet_password_loop rest)
      | Inr _ \<Rightarrow>
          (case rest of
             [] \<Rightarrow> (Inl ''wallet password not confirmed (end of input)'', [], [NewPassword, RepeatPassword])
           | Inl e # rest' \<Rightarrow> (Inl (io_err e), rest', [NewPassword, RepeatPassword])
           | Inr b # rest' \<Rightarrow>
               if passwords_match (trim_newlines a) (trim_newlines b)
               then (Inr (trim_newlines a), rest', [NewPassword, RepeatPassword])
               else and_shown [NewPassword, RepeatPassword, Complaint ''passwords do not match; try again'']
                      (prompt_wallet_password_loop rest')))"

definition prompt_wallet_password :: "string prompt" where
  "prompt_wallet_password inp = and_shown [AskPassword] (prompt_wallet_password_loop inp)"

fun prompt_existing_password :: "string prompt" where
  "prompt_existing_password [] = (Inl ''no wallet password provided (end of input)'', [], [EnterPassword])"
| "prompt_existing_password (Inl e # rest) = (Inl (io_err e), rest, [EnterPassword])"
| "prompt_existing_password (Inr l # rest) =
     (if trim_newlines l \<noteq> [] then (Inr (trim_newlines l), rest, [EnterPassword])
      else and_shown [EnterPassword, Complaint ''password must not be empty''] (prompt_existing_password rest))"

fun require_ack :: "(string \<Rightarrow> string) \<Rightarrow> string \<Rightarrow> unit prompt" where
  "require_ack lower q [] =
     (Inl ''seed not acknowledged (end of input); type yes to confirm you wrote it down'', [], [AskAck q])"
| "require_ack lower q (Inl e # rest) = (Inl (io_err e), rest, [AskAck q])"
| "require_ack lower q (Inr l # rest) =
     (if parse_ack lower (trim_newlines l) then (Inr (), rest, [AskAck q])
      else and_shown [AskAck q, TypeYes] (require_ack lower q rest))"

definition resolve_node :: "'w setup_world \<Rightarrow> setup_options \<Rightarrow> string prompt" where
  "resolve_node W opts inp =
     (case so_node_override opts of
        Some url \<Rightarrow> (Inr url, inp, [UsingNode url True])
      | None \<Rightarrow>
          (case read_line inp of
             (Inl e, rest) \<Rightarrow> (Inl e, rest, [AskNode])
           | (Inr answer, rest) \<Rightarrow>
               if trim answer = []
               then (case select_node CURATED_NODES (su_probe W) of
                       Some url \<Rightarrow> (Inr url, rest, [AskNode, Probing, UsingNode url False])
                     | None \<Rightarrow> (Inl (''none of the curated Grin nodes answered. Check this host's network, or '' @
                                    ''pass --node <url> to use a node you trust.''), rest, [AskNode, Probing]))
               else (case normalize_url answer of
                       Inl e \<Rightarrow> (Inl e, rest, [AskNode])
                     | Inr url \<Rightarrow> (Inr url, rest, [AskNode, UsingNode url False]))))"

definition prompt_restart_mode :: "(string \<Rightarrow> string) \<Rightarrow> nat option \<Rightarrow> restart_mode \<Rightarrow> restart_mode prompt" where
  "prompt_restart_mode lower number dflt =
     one_line [AskRestart number dflt] (\<lambda>l. parse_restart_mode_default lower l dflt)"

subsection \<open>The password at rest\<close>

definition call_sealer :: "sealer \<Rightarrow> string \<Rightarrow> string \<Rightarrow> ('w, bool) act" where
  "call_sealer seal password dest st = (case seal password dest (tl_disk st) of (r, d) \<Rightarrow> (r, st\<lparr>tl_disk := d\<rparr>))"

text \<open>The result says whether an unattended password was sealed.\<close>

definition apply_restart_persistence ::
  "'w setup_world \<Rightarrow> paths \<Rightarrow> restart_mode \<Rightarrow> string \<Rightarrow> sealer \<Rightarrow> ('w, bool) act" where
  "apply_restart_persistence W ps m password seal =
     (case m of
        Unattended \<Rightarrow>
          bind_act (ensure_dir W (pa_secrets_dir ps) 0x1C0) (\<lambda>_.
          bind_act (call_sealer seal password (pa_encrypted_cred_file ps)) (\<lambda>sealed.
          if sealed
          then bind_act (write_dropin_file W (pa_encrypted_dropin_file ps)
                           (render_encrypted_dropin (pa_encrypted_cred_file ps))) (\<lambda>_.
               bind_act (remove_if_exists W (pa_wallet_password_file ps)) (\<lambda>_.
               bind_act (remove_if_exists W (pa_dropin_file ps)) (\<lambda>_.
               give True)))
          else bind_act (say [PlaintextWarning (pa_wallet_password_file ps)]) (\<lambda>_.
               bind_act (write_secret_file W (pa_wallet_password_file ps) password) (\<lambda>_.
               bind_act (remove_if_exists W (pa_encrypted_cred_file ps)) (\<lambda>_.
               bind_act (remove_if_exists W (pa_encrypted_dropin_file ps)) (\<lambda>_.
               bind_act (remove_if_exists W (pa_dropin_file ps)) (\<lambda>_.
               give False)))))))
      | Manual \<Rightarrow>
          bind_act (write_dropin_file W (pa_dropin_file ps) (render_manual_dropin (pa_runtime_password_file ps))) (\<lambda>_.
          bind_act (remove_if_exists W (pa_wallet_password_file ps)) (\<lambda>_.
          bind_act (remove_if_exists W (pa_encrypted_cred_file ps)) (\<lambda>_.
          bind_act (remove_if_exists W (pa_encrypted_dropin_file ps)) (\<lambda>_.
          give False)))))"

subsection \<open>The wizard\<close>

definition current_mode :: "paths \<Rightarrow> disk \<Rightarrow> restart_mode" where
  "current_mode ps d = (if d (pa_dropin_file ps) \<noteq> None then Manual else Unattended)"

text \<open>Questions 5 to 7 for a new wallet.\<close>

definition mnemonic_from_entropy :: "'w setup_world \<Rightarrow> u8 list \<Rightarrow> wallet_error + string" where
  "mnemonic_from_entropy W entropy =
     (case su_entropy_words W entropy of
        Inl e \<Rightarrow> Inl (WalletError (''mnemonic generation failed: '' @ e)) | Inr words \<Rightarrow> Inr words)"

definition ask_seed :: "'w setup_world \<Rightarrow> ('w, seed_plan) act" where
  "ask_seed W =
     bind_act (ask (one_line [AskSeed] (\<lambda>l. l))) (\<lambda>line.
       if trim line = []
       then bind_act (case mnemonic_from_entropy W (su_random W 0) of
                        Inl e \<Rightarrow> refuse (''could not generate a seed: '' @ show_wallet_error e) | Inr words \<Rightarrow> give words) (\<lambda>words.
            bind_act (say [ShowSeed words]) (\<lambda>_.
            bind_act (ask (require_ack (su_lower W) ''Have you written down these 24 words? Type yes to continue'')) (\<lambda>_.
            give (Fresh words))))
       else bind_act (ask (require_ack (su_lower W) ''Keep your written backup of this seed safe. Type yes to continue'')) (\<lambda>_.
            give (Pasted (trim line))))"

definition ask_secrets :: "'w setup_world \<Rightarrow> paths \<Rightarrow> ('w, seed_plan \<times> string option \<times> restart_mode) act" where
  "ask_secrets W ps st =
     (if su_seed_file W (seed_path (pa_data_dir ps)) (snd (tl_wallet st))
      then bind_act (say [KeepingWallet]) (\<lambda>_.
           bind_act (ask (prompt_restart_mode (su_lower W) None (current_mode ps (tl_disk st)))) (\<lambda>m.
           give (Existing, None, m))) st
      else bind_act (ask prompt_wallet_password) (\<lambda>password.
           bind_act (ask_seed W) (\<lambda>plan.
           bind_act (ask (prompt_restart_mode (su_lower W) (Some 7) Unattended)) (\<lambda>m.
           give (plan, Some password, m)))) st)"

definition create_at ::
  "'w setup_world \<Rightarrow> string \<Rightarrow> string \<Rightarrow> string option \<Rightarrow> string \<Rightarrow> string \<Rightarrow> ('w, unit) act" where
  "create_at W what dir words password url st =
     (case open_at (su_host W) (su_lifecycle W) dir words password url Mainnet (tl_wallet st) of
        (Inl e, w') \<Rightarrow> (Inl (what @ '': '' @ show_wallet_error e), st\<lparr>tl_wallet := w'\<rparr>)
      | (Inr u, w') \<Rightarrow> (Inr u, st\<lparr>tl_wallet := w'\<rparr>))"

text \<open>The password of an existing wallet: from the plaintext file, else typed.\<close>

definition reopen_password :: "'w setup_world \<Rightarrow> paths \<Rightarrow> ('w, string) act" where
  "reopen_password W ps st =
     (case read_to_string (su_io W) (pa_wallet_password_file ps) (tl_disk st) of
        Inr s \<Rightarrow> (Inr (trim_newlines s), st)
      | Inl _ \<Rightarrow> bind_act (say [NoPasswordOnDisk]) (\<lambda>_. ask prompt_existing_password) st)"

definition open_till ::
  "'w setup_world \<Rightarrow> paths \<Rightarrow> sealer \<Rightarrow> seed_plan \<Rightarrow> string option \<Rightarrow> restart_mode \<Rightarrow> string \<Rightarrow> ('w, bool) act" where
  "open_till W ps seal plan chosen m url =
     (let create = (\<lambda>words.
            bind_act (say [Creating]) (\<lambda>_.
            bind_act (create_at W ''wallet creation failed'' (pa_data_dir ps) (Some words) (the chosen) url) (\<lambda>_.
            apply_restart_persistence W ps m (the chosen) seal)))
      in case plan of
           Existing \<Rightarrow>
             bind_act (reopen_password W ps) (\<lambda>password.
             bind_act (say [Reopening]) (\<lambda>_.
             bind_act (create_at W ''could not reopen the existing wallet'' (pa_data_dir ps) None password url) (\<lambda>_.
             apply_restart_persistence W ps m password seal)))
         | Fresh words \<Rightarrow> create words
         | Pasted words \<Rightarrow> create words)"

definition runtime_password_file :: "paths \<Rightarrow> restart_mode \<Rightarrow> bool \<Rightarrow> string" where
  "runtime_password_file ps m enc =
     (case m of
        Unattended \<Rightarrow> if enc then CREDENTIALS_WALLET_PASSWORD_PATH else pa_wallet_password_file ps
      | Manual \<Rightarrow> pa_runtime_password_file ps)"

definition final_screens :: "paths \<Rightarrow> setup_params \<Rightarrow> seed_plan \<Rightarrow> restart_mode \<Rightarrow> bool \<Rightarrow> screen list" where
  "final_screens ps p plan m enc =
     [SeedReminder plan, SetUp m enc (pa_runtime_password_file ps), WooBlock (woo_paste_block p),
      ProxyHint (base_path (sp_public_url p)) (sp_public_url p),
      Wrote (pa_env_file ps)
        (case m of Unattended \<Rightarrow> if enc then pa_encrypted_cred_file ps else pa_wallet_password_file ps
                 | Manual \<Rightarrow> pa_dropin_file ps) m enc]"

text \<open>All questions, in order.\<close>

record answers =
  an_public_url :: string
  an_webhook_url :: string
  an_bind :: string
  an_node_url :: string
  an_plan :: seed_plan
  an_password :: "string option"
  an_restart_mode :: restart_mode
  an_currencies :: "string list"
  an_rail :: bool

definition ask_all :: "'w setup_world \<Rightarrow> setup_options \<Rightarrow> paths \<Rightarrow> ('w, answers) act" where
  "ask_all W opts ps =
     bind_act (say [Welcome, AskUrl]) (\<lambda>_.
     bind_act (ask (prompt_required normalize_url ''   your till URL'')) (\<lambda>public_url.
     bind_act (ask (prompt_required webhook_url_from_shop
       ''2) Your shop's website URL (the WooCommerce site), e.g. https://myshop.com'')) (\<lambda>webhook_url.
     bind_act (ask (one_line [AskBind] normalize_bind)) (\<lambda>bind.
     bind_act (ask (resolve_node W opts)) (\<lambda>url.
     bind_act (ask_secrets W ps) (\<lambda>(plan, chosen, m).
     bind_act (ask (one_line [AskCurrencies] (setup_parse_currencies (su_lower W)))) (\<lambda>currencies.
     bind_act (ask (one_line [AskRail] (\<lambda>l. parse_yes_no (su_lower W) l False))) (\<lambda>rail.
     give \<lparr>an_public_url = public_url, an_webhook_url = webhook_url, an_bind = bind, an_node_url = url,
           an_plan = plan, an_password = chosen, an_restart_mode = m, an_currencies = currencies,
           an_rail = rail\<rparr>))))))))"

definition params_of :: "'w setup_world \<Rightarrow> paths \<Rightarrow> answers \<Rightarrow> bool \<Rightarrow> setup_params" where
  "params_of W ps a enc =
     \<lparr>sp_bind = an_bind a, sp_public_url = an_public_url a, sp_webhook_url = an_webhook_url a,
      sp_node_url = an_node_url a, sp_relays = DEFAULT_RELAYS, sp_currencies = an_currencies a,
      sp_grin1_rail = an_rail a, sp_api_token = gen_api_token (su_random W 1),
      sp_admin_token = gen_admin_token (su_random W 2), sp_webhook_secret = gen_webhook_secret (su_random W 3),
      sp_data_dir = pa_data_dir ps, sp_db_path = pa_db_path ps,
      sp_wallet_password_file = runtime_password_file ps (an_restart_mode a) enc,
      sp_restart_mode = an_restart_mode a, sp_unattended_encrypted = enc\<rparr>"

definition show_address :: "'w setup_world \<Rightarrow> ('w, unit) act" where
  "show_address W st =
     (case su_address W (snd (tl_wallet st)) of
        Inr addr \<Rightarrow> say [WalletReady addr] st
      | Inl e \<Rightarrow> refuse (''wallet opened but address read failed: '' @ show_wallet_error e) st)"

text \<open>Everything after the last question: directories, wallet, password, env file.\<close>

definition carry_out :: "'w setup_world \<Rightarrow> paths \<Rightarrow> sealer \<Rightarrow> answers \<Rightarrow> ('w, unit) act" where
  "carry_out W ps seal a =
     bind_act (ensure_dir W (pa_data_dir ps) 0x1C0) (\<lambda>_.
     bind_act (ensure_dir W (pa_secrets_dir ps) 0x1C0) (\<lambda>_.
     bind_act (open_till W ps seal (an_plan a) (an_password a) (an_restart_mode a) (an_node_url a)) (\<lambda>enc.
     bind_act (show_address W) (\<lambda>_.
     bind_act (write_env_file W (pa_env_file ps) (render_env (params_of W ps a enc))) (\<lambda>_.
     say (final_screens ps (params_of W ps a enc) (an_plan a) (an_restart_mode a) enc))))))"

definition sealer_of :: "'w setup_world \<Rightarrow> setup_options \<Rightarrow> sealer" where
  "sealer_of W opts = (case so_seal opts of None \<Rightarrow> systemd_creds_seal W | Some s \<Rightarrow> s)"

definition run_wizard :: "'w setup_world \<Rightarrow> setup_options \<Rightarrow> ('w, unit) act" where
  "run_wizard W opts st =
     (let ps = resolve_paths (so_prefix opts); seed_file = seed_path (pa_data_dir ps) in
      if \<not> so_stdin_is_tty opts \<and> \<not> so_force_run opts
      then bind_act (say [NotATerminal]) (\<lambda>_. refuse ''not a TTY; guidance printed'') st
      else if \<not> so_reconfigure opts \<and> (su_seed_file W seed_file (snd (tl_wallet st)) \<or> tl_disk st (pa_env_file ps) \<noteq> None)
      then refuse (''a GoblinPay wallet or config already exists ('' @ seed_file @ '' / '' @ pa_env_file ps @
             ''). Refusing to overwrite it. Re-run with --reconfigure only if you are sure '' @
             ''(this does NOT delete the encrypted seed).'') st
      else bind_act (ask_all W opts ps) (carry_out W ps (sealer_of W opts)) st)"

subsection \<open>What an action did\<close>

lemma bind_act_Inr:
  "bind_act m k st = (Inr x, st') \<longleftrightarrow> (\<exists>y s1. m st = (Inr y, s1) \<and> k y s1 = (Inr x, st'))"
  by (auto simp: bind_act_def split: prod.split sum.split)

lemma fs_do_Inr:
  "fs_do W what call upd st = (Inr x, st') \<longleftrightarrow> su_io W call (tl_disk st) = None \<and> st' = st\<lparr>tl_disk := upd (tl_disk st)\<rparr>"
  by (auto simp: fs_do_def split: option.split)

lemma give_Inr: "give y st = (Inr x, st') \<longleftrightarrow> x = y \<and> st' = st"
  by (auto simp: give_def)

lemma say_Inr: "say s st = (Inr x, st') \<longleftrightarrow> st' = st\<lparr>tl_out := tl_out st @ s\<rparr>"
  by (auto simp: say_def)

lemma refuse_Inr: "refuse e st = (Inr x, st') \<longleftrightarrow> False"
  by (simp add: refuse_def)

lemma ask_Inr:
  "ask f st = (Inr x, st') \<longleftrightarrow>
     (\<exists>rest shown. f (tl_in st) = (Inr x, rest, shown) \<and> st' = st\<lparr>tl_in := rest, tl_out := tl_out st @ shown\<rparr>)"
  by (auto simp: ask_def split: prod.split)

lemma call_sealer_Inr:
  "call_sealer seal pw dest st = (Inr x, st') \<longleftrightarrow>
     (\<exists>d. seal pw dest (tl_disk st) = (Inr x, d) \<and> st' = st\<lparr>tl_disk := d\<rparr>)"
  by (auto simp: call_sealer_def split: prod.split)

lemmas act_Inr = bind_act_Inr call_sealer_Inr give_Inr say_Inr refuse_Inr ask_Inr

lemma remove_if_exists_Inr:
  "remove_if_exists W p st = (Inr x, st') \<Longrightarrow> st' = st\<lparr>tl_disk := (tl_disk st)(p := None)\<rparr>"
  by (cases st) (auto simp: remove_if_exists_def fs_do_Inr fun_upd_idem split: option.splits)

lemma ensure_dir_Inr:
  "ensure_dir W p mode st = (Inr x, st') \<Longrightarrow> st' = st\<lparr>tl_disk := chmod_to p mode (tl_disk st)\<rparr>"
  by (auto simp: ensure_dir_def make_dirs_def chmod_def act_Inr fs_do_Inr)

lemma write_dropin_Inr:
  "write_dropin_file W p contents st = (Inr x, st') \<Longrightarrow>
     st' = st\<lparr>tl_disk := (tl_disk st)(p \<mapsto> \<lparr>fl_body = contents, fl_mode = 0x1A4\<rparr>)\<rparr>"
  by (auto simp: write_dropin_file_def make_dirs_def write_file_def chmod_def act_Inr fs_do_Inr chmod_put_file)

lemma write_env_Inr:
  "write_env_file W p contents st = (Inr x, st') \<Longrightarrow>
     st' = st\<lparr>tl_disk := (tl_disk st)(p \<mapsto> \<lparr>fl_body = contents, fl_mode = 0x1A0\<rparr>)\<rparr>"
  by (auto simp: write_env_file_def make_dirs_def write_file_def chmod_def act_Inr fs_do_Inr chmod_put_file)

lemma write_secret_Inr:
  "write_secret_file W p contents st = (Inr x, st') \<Longrightarrow>
     st' = st\<lparr>tl_disk := (tl_disk st)(p \<mapsto> \<lparr>fl_body = contents @ [CHR 0x0A], fl_mode = 0x100\<rparr>)\<rparr>"
  by (auto simp: write_secret_file_def write_file_def chmod_def act_Inr fs_do_Inr chmod_put_file
      dest!: remove_if_exists_Inr)

lemmas file_acts = remove_if_exists_Inr ensure_dir_Inr write_dropin_Inr write_env_Inr write_secret_Inr

subsection \<open>One password shape at rest\<close>

text \<open>The paths of a run are told apart by their last parts, whatever the prefix.\<close>

lemma join_path_append: "\<exists>d'. \<forall>s. join_path d s = d' @ s"
  by (cases "d = []"; cases "last d = CHR ''/''") (auto simp: join_path_def intro: exI [of _ d] exI [of _ "d @ ''/''"])

lemma reroot_append: "\<exists>d'. \<forall>s. s = [] \<or> hd s \<noteq> CHR ''/'' \<longrightarrow> reroot prefix s = d' @ s"
proof (cases prefix)
  case (Some d)
  obtain d' where "\<forall>s. join_path d s = d' @ s" using join_path_append by blast
  with Some show ?thesis
    by (intro exI [of _ d'] allI impI) (auto simp: reroot_def dropWhile_eq_self_iff)
qed (auto simp: reroot_def intro: exI [of _ "[]"])

lemma resolve_paths_distinct:
  fixes prefix
  defines "ps \<equiv> resolve_paths prefix"
  shows "distinct [pa_env_file ps, pa_secrets_dir ps, pa_wallet_password_file ps, pa_encrypted_cred_file ps,
    pa_dropin_file ps, pa_encrypted_dropin_file ps, pa_data_dir ps]"
proof -
  obtain d where d: "\<And>s. s = [] \<or> hd s \<noteq> CHR ''/'' \<Longrightarrow> reroot prefix s = d @ s"
    using reroot_append by blast
  have joined: "join_path (d @ ''etc/goblinpay/secrets'') s = d @ ''etc/goblinpay/secrets/'' @ s" for s
    by (simp add: join_path_def)
  show ?thesis
    unfolding ps_def by (simp add: resolve_paths_def Let_def d joined)
qed

text \<open>What a sealer may do: write its destination; a success leaves the credential there.\<close>

definition seal_law :: "sealer \<Rightarrow> bool" where
  "seal_law seal \<longleftrightarrow>
     (\<forall>pw dest d r d'. seal pw dest d = (r, d') \<longrightarrow>
        (\<forall>q. q \<noteq> dest \<longrightarrow> d' q = d q) \<and> (r = Inr True \<longrightarrow> d' dest \<noteq> None))"

definition at_rest :: "paths \<Rightarrow> restart_mode \<Rightarrow> bool \<Rightarrow> string \<Rightarrow> disk \<Rightarrow> bool" where
  "at_rest ps m enc pw d \<longleftrightarrow>
     (d (pa_wallet_password_file ps) =
        (if m = Unattended \<and> \<not> enc then Some \<lparr>fl_body = pw @ [CHR 0x0A], fl_mode = 0x100\<rparr> else None)) \<and>
     (d (pa_encrypted_cred_file ps) \<noteq> None \<longleftrightarrow> m = Unattended \<and> enc) \<and>
     (d (pa_encrypted_dropin_file ps) =
        (if m = Unattended \<and> enc
         then Some \<lparr>fl_body = render_encrypted_dropin (pa_encrypted_cred_file ps), fl_mode = 0x1A4\<rparr> else None)) \<and>
     (d (pa_dropin_file ps) =
        (if m = Manual then Some \<lparr>fl_body = render_manual_dropin (pa_runtime_password_file ps), fl_mode = 0x1A4\<rparr>
         else None))"

lemma persistence_shape:
  assumes run: "apply_restart_persistence W ps m pw seal st = (Inr enc, st')" and ps: "ps = resolve_paths prefix"
    and law: "seal_law seal"
  shows "at_rest ps m enc pw (tl_disk st') \<and> tl_wallet st' = tl_wallet st \<and>
    (\<forall>q. q \<notin> {pa_secrets_dir ps, pa_wallet_password_file ps, pa_encrypted_cred_file ps, pa_dropin_file ps,
               pa_encrypted_dropin_file ps} \<longrightarrow> tl_disk st' q = tl_disk st q)"
proof (cases m)
  case Manual
  with run resolve_paths_distinct [of prefix, folded ps] show ?thesis
    by (auto simp: apply_restart_persistence_def act_Inr at_rest_def dest!: file_acts)
next
  case Unattended
  obtain s1 s2 r d where steps: "ensure_dir W (pa_secrets_dir ps) 0x1C0 st = (Inr (), s1)"
      "seal pw (pa_encrypted_cred_file ps) (tl_disk s1) = (Inr r, d)" "s2 = s1\<lparr>tl_disk := d\<rparr>"
    using run Unattended by (auto simp: apply_restart_persistence_def act_Inr)
  have sealed: "\<forall>q. q \<noteq> pa_encrypted_cred_file ps \<longrightarrow> d q = tl_disk s1 q"
      "r \<longrightarrow> d (pa_encrypted_cred_file ps) \<noteq> None"
    using law steps(2) by (auto simp: seal_law_def)
  note facts = ensure_dir_Inr [OF steps(1)] sealed resolve_paths_distinct [of prefix, folded ps]
  show ?thesis
  proof (cases r)
    case True
    with run Unattended steps facts show ?thesis
      by (auto simp: apply_restart_persistence_def act_Inr at_rest_def chmod_to_other dest!: file_acts)
  next
    case False
    with run Unattended steps facts show ?thesis
      by (auto simp: apply_restart_persistence_def act_Inr at_rest_def chmod_to_other dest!: file_acts)
  qed
qed

subsection \<open>What was typed\<close>

lemma trim_newlines_idem: "trim_newlines (trim_newlines s) = trim_newlines s"
  by (simp add: trim_newlines_def)

lemma trim_newlines_LF: "trim_newlines (s @ [CHR 0x0A]) = trim_newlines s"
  by (simp add: trim_newlines_def)

text \<open>A chosen password was typed twice in a row, is not empty and survives its file.\<close>

lemma wallet_password_chosen:
  "prompt_wallet_password_loop inp = (Inr pw, rest, shown) \<Longrightarrow>
     pw \<noteq> [] \<and> trim_newlines pw = pw \<and>
     (\<exists>before a b. inp = before @ Inr a # Inr b # rest \<and> pw = trim_newlines a \<and> pw = trim_newlines b)"
proof (induction inp arbitrary: shown rule: prompt_wallet_password_loop.induct)
  case (3 a inp)
  have longer: "\<exists>before a b. c # inp1 = before @ Inr a # Inr b # rest \<and> pw = trim_newlines a \<and> pw = trim_newlines b"
    if "\<exists>before a b. inp1 = before @ Inr a # Inr b # rest \<and> pw = trim_newlines a \<and> pw = trim_newlines b" for c inp1
    using that by (metis append_Cons)
  show ?case
  proof (cases "trim_newlines a = []")
    case True
    with 3(3) obtain shown' where "prompt_wallet_password_loop inp = (Inr pw, rest, shown')"
      by (auto simp: validate_password_def and_shown_def split: prod.splits)
    with 3(1) [of "''password must not be empty''"] True longer show ?thesis
      by (simp add: validate_password_def)
  next
    case False
    with 3(3) obtain l inp' where inp: "inp = l # inp'"
      by (cases inp) (auto simp: validate_password_def)
    with False 3(3) obtain b where b: "l = Inr b" by (cases l) (auto simp: validate_password_def)
    show ?thesis
    proof (cases "trim_newlines a = trim_newlines b")
      case True
      with 3(3) False inp b have "rest = inp'" "pw = trim_newlines a"
        by (auto simp: validate_password_def passwords_match_def)
      with True False inp b show ?thesis by (auto simp: trim_newlines_idem intro!: exI [of _ "[]"])
    next
      case unequal: False
      with 3(3) False inp b obtain shown' where "prompt_wallet_password_loop inp' = (Inr pw, rest, shown')"
        by (auto simp: validate_password_def passwords_match_def and_shown_def split: prod.splits)
      with 3(2) [of "()" l inp' b] False inp b unequal longer show ?thesis
        by (simp add: validate_password_def passwords_match_def)
    qed
  qed
qed simp_all

subsection \<open>Questions change nothing\<close>

definition only_asks :: "('w, 'a) act \<Rightarrow> bool" where
  "only_asks m \<longleftrightarrow> (\<forall>st. tl_disk (snd (m st)) = tl_disk st \<and> tl_wallet (snd (m st)) = tl_wallet st)"

named_theorems asks

lemma bind_asks [asks]: "only_asks m \<Longrightarrow> (\<And>x. only_asks (k x)) \<Longrightarrow> only_asks (bind_act m k)"
  unfolding only_asks_def bind_act_def by (simp split: prod.split sum.split) (metis snd_conv)

lemma steps_ask [asks]: "only_asks (say s)" "only_asks (give x)" "only_asks (refuse e)" "only_asks (ask f)"
  by (auto simp: only_asks_def say_def give_def refuse_def ask_def split: prod.split)

lemma ask_seed_asks [asks]: "only_asks (ask_seed W)"
  unfolding ask_seed_def by (intro asks) (auto intro!: asks split: sum.split)

lemma case_asks [asks]: "(\<And>a b c. only_asks (k a b c)) \<Longrightarrow> only_asks (case t of (a, b, c) \<Rightarrow> k a b c)"
  by (simp split: prod.split)

lemma ask_secrets_asks [asks]: "only_asks (ask_secrets W ps)"
proof -
  have kept: "only_asks (bind_act (say [KeepingWallet]) (\<lambda>_. bind_act (ask (prompt_restart_mode (su_lower W) None m)) (\<lambda>m.
      give (Existing, None :: string option, m))))" for m by (intro asks)
  have fresh: "only_asks (bind_act (ask prompt_wallet_password) (\<lambda>password. bind_act (ask_seed W) (\<lambda>plan.
      bind_act (ask (prompt_restart_mode (su_lower W) (Some 7) Unattended)) (\<lambda>m.
      give (plan, Some password, m)))))" by (intro asks)
  show ?thesis
    using fresh by (simp add: only_asks_def ask_secrets_def kept [unfolded only_asks_def, rule_format])
qed

lemma ask_all_asks: "only_asks (ask_all W opts ps)"
  unfolding ask_all_def by (intro asks)

lemma asks_same: "only_asks m \<Longrightarrow> m st = (r, st') \<Longrightarrow> tl_disk st' = tl_disk st \<and> tl_wallet st' = tl_wallet st"
  unfolding only_asks_def by (metis snd_conv)

subsection \<open>The wallet is never replaced\<close>

definition keeps_wallet :: "('w, 'a) act \<Rightarrow> bool" where
  "keeps_wallet m \<longleftrightarrow> (\<forall>st. tl_wallet (snd (m st)) = tl_wallet st)"

definition reopens :: "'w setup_world \<Rightarrow> 'w \<Rightarrow> ('w, 'a) act \<Rightarrow> bool" where
  "reopens W w m \<longleftrightarrow>
     (\<forall>st. snd (tl_wallet st) = w \<longrightarrow>
        (\<exists>pw. snd (tl_wallet (snd (m st))) \<in> {w, snd (lc_open (su_lifecycle W) pw w)}))"

named_theorems keeps

lemma bind_keeps [keeps]: "keeps_wallet m \<Longrightarrow> (\<And>x. keeps_wallet (k x)) \<Longrightarrow> keeps_wallet (bind_act m k)"
  unfolding keeps_wallet_def bind_act_def by (simp split: prod.split sum.split) (metis snd_conv)

lemma asks_keeps: "only_asks m \<Longrightarrow> keeps_wallet m"
  by (simp add: only_asks_def keeps_wallet_def)

lemma file_acts_keep [keeps]:
  "keeps_wallet (fs_do W what call upd)" "keeps_wallet (remove_if_exists W p)" "keeps_wallet (call_sealer seal pw dest)"
  by (auto simp: keeps_wallet_def fs_do_def remove_if_exists_def call_sealer_def split: option.split prod.split)

lemma say_keeps [keeps]: "keeps_wallet (say s)" "keeps_wallet (give x)" "keeps_wallet (refuse e)"
  by (simp_all add: steps_ask asks_keeps)

lemma writes_keep [keeps]:
  "keeps_wallet (ensure_dir W p n)" "keeps_wallet (write_secret_file W p c)" "keeps_wallet (write_dropin_file W p c)"
  "keeps_wallet (write_env_file W p c)"
  unfolding ensure_dir_def write_secret_file_def write_dropin_file_def write_env_file_def make_dirs_def chmod_def
    write_file_def by (intro keeps)+

lemma if_keeps [keeps]: "keeps_wallet m \<Longrightarrow> keeps_wallet m' \<Longrightarrow> keeps_wallet (if b then m else m')"
  by simp

lemma persistence_keeps [keeps]: "keeps_wallet (apply_restart_persistence W ps m pw seal)"
  unfolding apply_restart_persistence_def by (cases m) (simp_all, (intro keeps)+)

lemma show_address_keeps [keeps]: "keeps_wallet (show_address W)"
  by (simp add: keeps_wallet_def show_address_def say_def refuse_def split: sum.split)

lemma reopens_before: "keeps_wallet m \<Longrightarrow> (\<And>x. reopens W w (k x)) \<Longrightarrow> reopens W w (bind_act m k)"
  unfolding keeps_wallet_def reopens_def bind_act_def by (simp split: prod.split sum.split) (metis snd_conv)

lemma reopens_after: "reopens W w m \<Longrightarrow> (\<And>x. keeps_wallet (k x)) \<Longrightarrow> reopens W w (bind_act m k)"
  unfolding keeps_wallet_def reopens_def bind_act_def
  by (simp split: prod.split sum.split) (metis snd_conv)

lemma create_at_reopens:
  assumes "lc_exists (su_lifecycle W) w = Inr True"
  shows "reopens W w (create_at W what dir words pw url)"
  unfolding reopens_def
proof (intro allI impI exI [of _ pw])
  fix st :: "'a till" assume "snd (tl_wallet st) = w"
  then obtain g where "tl_wallet st = (g, w)" by (cases "tl_wallet st") simp
  with present_wallet_kept [OF assms, of "su_host W" dir words pw url Mainnet g]
  show "snd (tl_wallet (snd (create_at W what dir words pw url st))) \<in> {w, snd (lc_open (su_lifecycle W) pw w)}"
    by (auto simp: create_at_def split: prod.splits sum.splits)
qed

lemma reopen_password_keeps: "keeps_wallet (reopen_password W ps :: ('w, string) act)"
proof -
  have "keeps_wallet (bind_act (say [NoPasswordOnDisk]) (\<lambda>_. ask prompt_existing_password) :: ('w, string) act)"
    by (rule asks_keeps) (intro asks)
  then show ?thesis by (simp add: keeps_wallet_def reopen_password_def split: sum.split)
qed

lemma carry_out_reopens:
  assumes "lc_exists (su_lifecycle W) w = Inr True"
  shows "reopens W w (carry_out W ps seal a)"
proof -
  have "reopens W w (open_till W ps seal plan chosen m url)" for plan chosen m url
    unfolding open_till_def Let_def
    by (cases plan) (simp_all, (rule reopens_before reopens_after create_at_reopens [OF assms] keeps reopen_password_keeps)+)
  then show ?thesis unfolding carry_out_def
    by - (rule reopens_before reopens_after keeps | assumption)+
qed


subsection \<open>What a new till boots from\<close>

lemma ask_seed_Inr: "ask_seed W st = (Inr plan, st') \<Longrightarrow> \<exists>words. plan = Fresh words \<or> plan = Pasted words"
  by (auto simp: ask_seed_def act_Inr split: if_splits sum.splits)

lemma ask_secrets_fresh:
  assumes "ask_secrets W ps st = (Inr (plan, chosen, m), st')"
    "\<not> su_seed_file W (seed_path (pa_data_dir ps)) (snd (tl_wallet st))"
  shows "\<exists>words pw. (plan = Fresh words \<or> plan = Pasted words) \<and> chosen = Some pw \<and> pw \<noteq> [] \<and> trim_newlines pw = pw"
  using assms
  by (auto simp: ask_secrets_def act_Inr prompt_wallet_password_def and_shown_def split: prod.splits
      dest!: wallet_password_chosen ask_seed_Inr)

lemma ask_all_fresh:
  assumes "ask_all W opts ps st = (Inr a, st')" "\<not> su_seed_file W (seed_path (pa_data_dir ps)) (snd (tl_wallet st))"
  shows "\<exists>words pw. (an_plan a = Fresh words \<or> an_plan a = Pasted words) \<and> an_password a = Some pw \<and> pw \<noteq> [] \<and>
    trim_newlines pw = pw"
proof -
  obtain s1 s2 where s: "ask_secrets W ps s1 = (Inr (an_plan a, an_password a, an_restart_mode a), s2)"
      "tl_wallet s1 = tl_wallet st"
    using assms(1) by (fastforce simp: ask_all_def act_Inr)
  with ask_secrets_fresh [OF s(1)] assms(2) show ?thesis by simp
qed

lemma create_at_Inr:
  "create_at W what dir words pw url st = (Inr u, st') \<longleftrightarrow>
     (\<exists>w'. open_at (su_host W) (su_lifecycle W) dir words pw url Mainnet (tl_wallet st) = (Inr u, w') \<and>
       st' = st\<lparr>tl_wallet := w'\<rparr>)"
  by (auto simp: create_at_def split: prod.splits sum.splits)

lemma open_till_fresh:
  assumes "open_till W ps seal plan (Some pw) m url st = (Inr enc, st')" "plan = Fresh words \<or> plan = Pasted words"
  shows "\<exists>s1. open_at (su_host W) (su_lifecycle W) (pa_data_dir ps) (Some words) pw url Mainnet (tl_wallet st) =
      (Inr (), tl_wallet s1) \<and> apply_restart_persistence W ps m pw seal s1 = (Inr enc, st')"
  using assms by (auto simp: open_till_def act_Inr create_at_Inr) (force+)

lemma show_address_Inr: "show_address W st = (Inr u, st') \<Longrightarrow> tl_disk st' = tl_disk st \<and> tl_wallet st' = tl_wallet st"
  by (auto simp: show_address_def act_Inr split: sum.splits)

lemma carry_out_Inr:
  assumes "carry_out W ps seal a st = (Inr u, st')"
  shows "\<exists>enc s2 s3. open_till W ps seal (an_plan a) (an_password a) (an_restart_mode a) (an_node_url a) s2 = (Inr enc, s3) \<and>
    tl_wallet s2 = tl_wallet st \<and> tl_wallet st' = tl_wallet s3 \<and>
    tl_disk st' = (tl_disk s3)(pa_env_file ps \<mapsto> \<lparr>fl_body = render_env (params_of W ps a enc), fl_mode = 0x1A0\<rparr>)"
proof -
  from assms obtain s1 s2 s3 s4 s5 enc where s:
      "ensure_dir W (pa_data_dir ps) 0x1C0 st = (Inr (), s1)" "ensure_dir W (pa_secrets_dir ps) 0x1C0 s1 = (Inr (), s2)"
      "open_till W ps seal (an_plan a) (an_password a) (an_restart_mode a) (an_node_url a) s2 = (Inr enc, s3)"
      "show_address W s3 = (Inr (), s4)"
      "write_env_file W (pa_env_file ps) (render_env (params_of W ps a enc)) s4 = (Inr (), s5)"
      "tl_disk st' = tl_disk s5" "tl_wallet st' = tl_wallet s5"
    unfolding carry_out_def act_Inr by (elim exE conjE) simp
  with ensure_dir_Inr [OF s(1)] ensure_dir_Inr [OF s(2)] show_address_Inr [OF s(4)] write_env_Inr [OF s(5)] show ?thesis
    by (intro exI [of _ enc] exI [of _ s2] exI [of _ s3]) simp
qed

lemma env_file_apart:
  fixes prefix
  defines "ps \<equiv> resolve_paths prefix"
  shows "pa_wallet_password_file ps \<noteq> pa_env_file ps" "pa_encrypted_cred_file ps \<noteq> pa_env_file ps"
    "pa_dropin_file ps \<noteq> pa_env_file ps" "pa_encrypted_dropin_file ps \<noteq> pa_env_file ps"
  using resolve_paths_distinct [of prefix, folded ps_def] by auto

lemma at_rest_env: "at_rest (resolve_paths prefix) m enc pw d \<Longrightarrow>
    at_rest (resolve_paths prefix) m enc pw (d(pa_env_file (resolve_paths prefix) := f))"
  by (simp add: at_rest_def env_file_apart)


subsection \<open>A sample run\<close>

definition sample_setup :: "string option setup_world" where
  "sample_setup =
     \<lparr>su_lower = (\<lambda>s. s), su_io = (\<lambda>_ _. None), su_umask_mode = 0x1A4, su_host = sample_host,
      su_lifecycle = sample_lifecycle, su_seed_file = (\<lambda>_ w. w \<noteq> None), su_address = (\<lambda>_. Inr ''grin1x''),
      su_entropy_words = (\<lambda>_. Inr ''abandon art''), su_probe = (\<lambda>_. True), su_random = (\<lambda>_. replicate 16 0),
      su_creds = (\<lambda>_ _ d. (NoProgram, d))\<rparr>"

definition sample_options :: setup_options where
  "sample_options =
     \<lparr>so_reconfigure = False, so_prefix = Some ''/'', so_node_override = None, so_force_run = False,
      so_stdin_is_tty = True, so_seal = None\<rparr>"

definition sample_input :: input where
  "sample_input = map (\<lambda>l. Inr (l @ [CHR 0x0A]))
     [''https://pay.shop.com'', ''https://shop.com/'', [], [], ''pw1'', ''pw2'', ''pw'', ''pw'', [], ''what'', ''yes'', [],
      [], []]"

definition blank_till :: "string option \<Rightarrow> string option till" where
  "blank_till w = \<lparr>tl_disk = (\<lambda>_. None), tl_wallet = (None, w), tl_in = sample_input, tl_out = []\<rparr>"

lemma sample_seal_law: "seal_law (sealer_of sample_setup sample_options)"
  by (simp add: seal_law_def sealer_of_def sample_options_def sample_setup_def systemd_creds_seal_def)

lemma sample_run: "fst (run_wizard sample_setup sample_options (blank_till None)) = Inr ()"
  by code_simp

definition sample_answers :: answers where
  "sample_answers =
     \<lparr>an_public_url = ''https://pay.shop.com'', an_webhook_url = ''https://shop.com/wp-json/goblinpay/v1/webhook'',
      an_bind = DEFAULT_BIND, an_node_url = ''https://main.gri.mw'', an_plan = Fresh ''abandon art'',
      an_password = Some ''pw'', an_restart_mode = Unattended, an_currencies = [''usd''], an_rail = False\<rparr>"

definition sample_till_params :: setup_params where
  "sample_till_params =
     \<lparr>sp_bind = ''127.0.0.1:8080'', sp_public_url = ''https://pay.shop.com'',
      sp_webhook_url = ''https://shop.com/wp-json/goblinpay/v1/webhook'', sp_node_url = ''https://main.gri.mw'',
      sp_relays = DEFAULT_RELAYS, sp_currencies = [''usd''], sp_grin1_rail = False,
      sp_api_token = ''gp_live_00000000000000000000000000000000'',
      sp_admin_token = ''gpadm_00000000000000000000000000000000'',
      sp_webhook_secret = ''whsec_00000000000000000000000000000000'',
      sp_data_dir = ''/var/lib/goblinpay/gp-data'', sp_db_path = ''/var/lib/goblinpay/goblinpay.db'',
      sp_wallet_password_file = ''/etc/goblinpay/secrets/wallet_password'', sp_restart_mode = Unattended,
      sp_unattended_encrypted = False\<rparr>"

lemma sample_asked:
  "fst (ask_all sample_setup sample_options (resolve_paths (Some ''/'')) (blank_till None)) = Inr sample_answers"
  by code_simp

lemma sample_rendered: "params_of sample_setup (resolve_paths (Some ''/'')) sample_answers False = sample_till_params"
  by code_simp

lemma sample_io: "su_io sample_setup c d = None"
  by (simp add: sample_setup_def)

lemma sample_usable: "usable_params (su_lower sample_setup) sample_till_params"
  unfolding usable_params_def clean_params_def by code_simp

lemma sample_password_file:
  "tl_disk (snd (run_wizard sample_setup sample_options (blank_till None))) ''/etc/goblinpay/secrets/wallet_password'' =
     Some \<lparr>fl_body = ''pw'' @ [CHR 0x0A], fl_mode = 0x100\<rparr>"
  by code_simp

lemma sample_paths:
  "pa_env_file (resolve_paths (Some ''/'')) = DEFAULT_ENV_FILE"
  "pa_wallet_password_file (resolve_paths (Some ''/'')) = ''/etc/goblinpay/secrets/wallet_password''"
  by code_simp+



subsection \<open>Observations\<close>

text \<open>The restart mode a run left is the default the next run offers.\<close>

lemma mode_is_remembered: "at_rest ps m enc pw d \<Longrightarrow> current_mode ps d = m"
  by (cases m) (simp_all add: at_rest_def current_mode_def)

text \<open>\<open>systemd-creds\<close> keeps the sealer's law when it writes its destination only.\<close>

lemma systemd_creds_law:
  assumes "\<And>pw dest d s d'. su_creds W pw dest d = (s, d') \<Longrightarrow>
     (\<forall>q. q \<noteq> dest \<longrightarrow> d' q = d q) \<and> (\<forall>u. s = Started (Inr u) (Inr True) \<longrightarrow> d' dest \<noteq> None)"
  shows "seal_law (systemd_creds_seal W)"
  unfolding seal_law_def
proof (intro allI impI)
  fix pw dest d r d' assume r: "systemd_creds_seal W pw dest d = (r, d')"
  obtain s e where s: "su_creds W pw dest d = (s, e)" by fastforce
  with r have "e = d'" "r = Inr True \<longrightarrow> s = Started (Inr ()) (Inr True)"
    by (auto simp: systemd_creds_seal_def split: spawned.splits sum.splits)
  with assms [OF s] show "(\<forall>q. q \<noteq> dest \<longrightarrow> d' q = d q) \<and> (r = Inr True \<longrightarrow> d' dest \<noteq> None)" by auto
qed

text \<open>
  Without \<open>--prefix\<close> the paths are relative, so a plain \<open>gp-server setup\<close> writes below the directory
  it is run in and not where the unit and the server look; with the prefix \<open>/\<close> they are the documented ones.
\<close>

lemma default_paths_are_relative:
  "pa_env_file (resolve_paths None) = ''etc/goblinpay.env''" "pa_env_file (resolve_paths None) \<noteq> DEFAULT_ENV_FILE"
  "pa_encrypted_cred_file (resolve_paths None) \<noteq> ENCRYPTED_WALLET_PASSWORD_FILE"
  "pa_env_file (resolve_paths (Some ''/'')) = DEFAULT_ENV_FILE"
  "pa_encrypted_cred_file (resolve_paths (Some ''/'')) = ENCRYPTED_WALLET_PASSWORD_FILE"
  by code_simp+

text \<open>An empty answer to a required question ends the wizard; only other bad answers are asked again.\<close>

lemma empty_answer_aborts:
  "prompt_required normalize_url q (Inr [CHR 0x0A] # rest) =
     (Inl ''no answer provided: a URL is required'', rest, [Question q, Complaint ''a URL is required''])"
proof -
  have "normalize_url [] = Inl ''a URL is required''" by code_simp
  then show ?thesis by (simp add: trim_newlines_def)
qed

end
