(* ===== verification/Identity.thy ===== *)
theory Identity
  imports Files Wallet
begin

text \<open>
  \<open>crates/gp-nostr/src/identity.rs\<close>: the server's payment identity, from the configuration, from
  \<open><data_dir>/nostr/identity.json\<close>, or freshly generated and stored there encrypted (NIP-49). The key
  types of nostr-sdk are \<open>'k\<close> (a key pair), \<open>'s\<close> (a secret key) and \<open>'e\<close> (an encrypted one).
\<close>

definition NCRYPTSEC_LOG_N :: nat where "NCRYPTSEC_LOG_N = 16"

record server_identity =
  si_ver :: nat
  si_ncryptsec :: string
  si_npub :: string

datatype identity_error = IdConfig string | IdKey string | IdIo string

definition show_identity_error :: "identity_error \<Rightarrow> string" where
  "show_identity_error e =
     (case e of
        IdConfig m \<Rightarrow> ''identity config error: '' @ m
      | IdKey m \<Rightarrow> ''identity key error: '' @ m
      | IdIo m \<Rightarrow> ''identity io error: '' @ m)"

record ('k, 's, 'e) id_sdk =
  id_parse :: "string \<Rightarrow> string + 's"
  id_keys :: "'s \<Rightarrow> 'k"
  id_secret :: "'k \<Rightarrow> 's"
  id_encrypt :: "'s \<Rightarrow> string \<Rightarrow> nat \<Rightarrow> string + 'e"
  id_to_bech32 :: "'e \<Rightarrow> string + string"
  id_of_bech32 :: "string \<Rightarrow> string + 'e"
  id_decrypt :: "'e \<Rightarrow> string \<Rightarrow> 's option"
  id_npub :: "'k \<Rightarrow> string + string"
  id_to_json :: "server_identity \<Rightarrow> string + string"
  id_of_json :: "string \<Rightarrow> string + server_identity"
  id_dbg_path :: "string \<Rightarrow> string"

definition FILE_NAME :: string where "FILE_NAME = ''identity.json''"

definition identity_path :: "string \<Rightarrow> string" where
  "identity_path base = join_path (join_path base ''nostr'') FILE_NAME"

definition key_error :: "string \<Rightarrow> string + 'a \<Rightarrow> identity_error + 'a" where
  "key_error what r = (case r of Inl e \<Rightarrow> Inl (IdKey (what @ e)) | Inr x \<Rightarrow> Inr x)"

definition load_identity :: "('k, 's, 'e) id_sdk \<Rightarrow> fs_faults \<Rightarrow> string \<Rightarrow> disk \<Rightarrow> server_identity option" where
  "load_identity n io dir d =
     (case read_to_string io (identity_path dir) d of
        Inl _ \<Rightarrow> None
      | Inr raw \<Rightarrow> (case id_of_json n raw of Inl _ \<Rightarrow> None | Inr i \<Rightarrow> Some i))"

definition restrict :: "('k, 's, 'e) id_sdk \<Rightarrow> fs_faults \<Rightarrow> string \<Rightarrow> nat \<Rightarrow> disk \<Rightarrow> (identity_error + unit) \<times> disk" where
  "restrict n io p m =
     fs_call_as io (\<lambda>e. IdIo (''chmod '' @ id_dbg_path n p @ '': '' @ e)) (SetMode p m) (chmod_to p m)"

definition save_identity ::
  "('k, 's, 'e) id_sdk \<Rightarrow> fs_faults \<Rightarrow> nat \<Rightarrow> server_identity \<Rightarrow> string \<Rightarrow> disk \<Rightarrow> (identity_error + unit) \<times> disk" where
  "save_identity n io umask i base d =
     (let dir = join_path base ''nostr''; path = identity_path base in
      then_fs (fs_call_as io (\<lambda>e. IdIo (''create '' @ id_dbg_path n dir @ '': '' @ e)) (MakeDir dir) (\<lambda>d. d) d) (\<lambda>_ d.
      then_fs (restrict n io dir 0x1C0 d) (\<lambda>_ d.
      case id_to_json n i of
        Inl e \<Rightarrow> (Inl (IdIo (''serialize identity: '' @ e)), d)
      | Inr raw \<Rightarrow>
          then_fs (fs_call_as io (\<lambda>e. IdIo (''write '' @ id_dbg_path n path @ '': '' @ e)) (WriteFile path)
                     (put_file umask path raw) d) (\<lambda>_ d.
          restrict n io path 0x180 d))))"

definition decrypt_ncryptsec :: "('k, 's, 'e) id_sdk \<Rightarrow> string \<Rightarrow> string \<Rightarrow> identity_error + 'k" where
  "decrypt_ncryptsec n text password =
     and_then (key_error ''invalid ncryptsec: '' (id_of_bech32 n text)) (\<lambda>enc.
     case id_decrypt n enc password of
       None \<Rightarrow> Inl (IdKey ''wrong password for ncryptsec'')
     | Some sk \<Rightarrow> Inr (id_keys n sk))"

definition unlock :: "('k, 's, 'e) id_sdk \<Rightarrow> server_identity \<Rightarrow> string \<Rightarrow> identity_error + 'k" where
  "unlock n i password = decrypt_ncryptsec n (si_ncryptsec i) password"

definition identity_from_keys :: "('k, 's, 'e) id_sdk \<Rightarrow> 'k \<Rightarrow> string \<Rightarrow> identity_error + server_identity" where
  "identity_from_keys n k password =
     and_then (key_error ''encrypt failed: '' (id_encrypt n (id_secret n k) password NCRYPTSEC_LOG_N)) (\<lambda>enc.
     and_then (key_error ''bech32 failed: '' (id_to_bech32 n enc)) (\<lambda>text.
     and_then (key_error ''bech32 failed: '' (id_npub n k)) (\<lambda>npub.
     Inr \<lparr>si_ver = 1, si_ncryptsec = text, si_npub = npub\<rparr>)))"

text \<open>\<open>fresh\<close> is the key pair \<open>Keys::generate\<close> draws.\<close>

definition load_or_create ::
  "('k, 's, 'e) id_sdk \<Rightarrow> fs_faults \<Rightarrow> nat \<Rightarrow> config \<Rightarrow> 'k \<Rightarrow> disk \<Rightarrow> (identity_error + 'k) \<times> disk" where
  "load_or_create n io umask cfg fresh d =
     (case nsec cfg of
        Some s \<Rightarrow> (and_then (key_error ''invalid GP_NSEC: '' (id_parse n (trim s))) (\<lambda>sk. Inr (id_keys n sk)), d)
      | None \<Rightarrow>
          (case wallet_password cfg of
             None \<Rightarrow> (Inl (IdConfig (''GP_WALLET_PASSWORD (or _FILE) is required to unlock or persist the '' @
                        ''Nostr identity (set GP_NSEC to bypass at-rest encryption)'')), d)
           | Some password \<Rightarrow>
               (case ncryptsec cfg of
                  Some text \<Rightarrow> (decrypt_ncryptsec n (trim text) password, d)
                | None \<Rightarrow>
                    (case load_identity n io (data_dir cfg) d of
                       Some i \<Rightarrow> (unlock n i password, d)
                     | None \<Rightarrow>
                         (case identity_from_keys n fresh password of
                            Inl e \<Rightarrow> (Inl e, d)
                          | Inr i \<Rightarrow> then_fs (save_identity n io umask i (data_dir cfg) d) (\<lambda>_ d. (Inr fresh, d)))))))"

subsection \<open>One identity, kept\<close>

text \<open>nostr-sdk and serde read back what they wrote, under the same password.\<close>

definition id_laws :: "('k, 's, 'e) id_sdk \<Rightarrow> bool" where
  "id_laws n \<longleftrightarrow>
     (\<forall>sk pw l e. id_encrypt n sk pw l = Inr e \<longrightarrow> id_decrypt n e pw = Some sk) \<and>
     (\<forall>e t. id_to_bech32 n e = Inr t \<longrightarrow> id_of_bech32 n t = Inr e) \<and>
     (\<forall>i t. id_to_json n i = Inr t \<longrightarrow> id_of_json n t = Inr i) \<and>
     (\<forall>k. id_keys n (id_secret n k) = k)"

lemma key_error_Inr: "key_error what r = Inr x \<longleftrightarrow> r = Inr x"
  by (cases r) (simp_all add: key_error_def)

lemma identity_from_keys_unlocks:
  "id_laws n \<Longrightarrow> identity_from_keys n k pw = Inr i \<Longrightarrow> unlock n i pw = Inr k"
  by (auto simp: id_laws_def identity_from_keys_def unlock_def decrypt_ncryptsec_def and_then_Inr key_error_def
      split: sum.splits)

lemma json_reads_back: "id_laws n \<Longrightarrow> id_to_json n i = Inr t \<Longrightarrow> id_of_json n t = Inr i"
  unfolding id_laws_def by blast

lemma identity_path_not_dir: "identity_path dir \<noteq> join_path dir ''nostr''"
  by (simp add: identity_path_def join_path_def FILE_NAME_def)

lemma save_identity_Inr:
  assumes "save_identity n io umask i dir d = (Inr u, d')"
  obtains raw where "id_to_json n i = Inr raw" "d' (identity_path dir) = Some \<lparr>fl_body = raw, fl_mode = 0x180\<rparr>"
    "\<And>q. q \<noteq> identity_path dir \<Longrightarrow> q \<noteq> join_path dir ''nostr'' \<Longrightarrow> d' q = d q"
  using assms
  by (auto simp: save_identity_def Let_def then_fs_Inr restrict_def fs_call_as_Inr chmod_put_file chmod_to_other
      split: sum.splits)

lemma identity_ignores_mnemonic:
  "load_or_create n io umask (cfg\<lparr>mnemonic := m\<rparr>) fresh d = load_or_create n io umask cfg fresh d"
  by (simp add: load_or_create_def cong: option.case_cong sum.case_cong)


definition sample_id :: "(string, string, string) id_sdk" where
  "sample_id =
     \<lparr>id_parse = Inr, id_keys = (\<lambda>s. s), id_secret = (\<lambda>k. k), id_encrypt = (\<lambda>s _ _. Inr s), id_to_bech32 = Inr,
      id_of_bech32 = Inr, id_decrypt = (\<lambda>e _. Some e), id_npub = (\<lambda>_. Inr ''npub''),
      id_to_json = (\<lambda>i. if si_ver i = 1 \<and> si_npub i = ''npub'' then Inr (si_ncryptsec i) else Inl ''unsupported''),
      id_of_json = (\<lambda>t. Inr \<lparr>si_ver = 1, si_ncryptsec = t, si_npub = ''npub''\<rparr>), id_dbg_path = (\<lambda>p. p)\<rparr>"


text \<open>An identity file that cannot be read or parsed counts as absent: it is overwritten with a fresh key.\<close>

lemma unreadable_identity_is_replaced:
  assumes "nsec cfg = None" "ncryptsec cfg = None" "load_identity n io (data_dir cfg) d = None"
    "load_or_create n io umask cfg fresh d = (Inr k, d')"
  shows "k = fresh \<and> (\<exists>raw. d' (identity_path (data_dir cfg)) = Some \<lparr>fl_body = raw, fl_mode = 0x180\<rparr>)"
proof -
  from assms obtain pw where pw: "wallet_password cfg = Some pw"
    by (cases "wallet_password cfg") (simp_all add: load_or_create_def)
  with assms obtain i where "identity_from_keys n fresh pw = Inr i"
    by (cases "identity_from_keys n fresh pw") (simp_all add: load_or_create_def)
  with assms pw have "then_fs (save_identity n io umask i (data_dir cfg) d) (\<lambda>_ d. (Inr fresh, d)) = (Inr k, d')"
    by (simp add: load_or_create_def)
  then show ?thesis unfolding then_fs_Inr by (auto elim: save_identity_Inr)
qed

lemma corrupt_file_is_no_identity:
  "d (identity_path dir) = Some f \<Longrightarrow> id_of_json n (fl_body f) = Inl e \<Longrightarrow> load_identity n io dir d = None"
  by (auto simp: load_identity_def read_to_string_def split: option.split)

end
