(* ===== verification/Boot.thy ===== *)
theory Boot
  imports Service Wizard Identity
begin

text \<open>
  \<open>crates/gp-server/src/main.rs\<close>: the \<open>setup\<close> subcommand, the guided first run, what a boot opens
  (wallet, identity, key directory, Nostr service) and which tasks it starts. The process state is
  a \<open>till\<close>: disk, wallet and terminal; a fatal error is an exit code. Sockets and threads are not modelled. A fault of
  a PEM file is one of opening it.
\<close>

subsection \<open>\<open>gp-server setup\<close>\<close>

fun setup_flags :: "string list \<Rightarrow> setup_options \<Rightarrow> string list + setup_options" where
  "setup_flags [] o' = Inr o'"
| "setup_flags (a # args) o' =
     (if a = ''--reconfigure'' then setup_flags args (o'\<lparr>so_reconfigure := True\<rparr>)
      else if a = ''--batch'' then setup_flags args (o'\<lparr>so_force_run := True\<rparr>)
      else if a = ''--prefix'' then
        (case args of
           [] \<Rightarrow> Inl [''--prefix needs a directory argument'']
         | p # rest \<Rightarrow> setup_flags rest (o'\<lparr>so_prefix := Some p\<rparr>))
      else if a = ''--node'' then
        (case args of
           [] \<Rightarrow> Inl [''--node needs a URL argument'']
         | u # rest \<Rightarrow> setup_flags rest (o'\<lparr>so_node_override := Some u\<rparr>))
      else Inl [''unknown setup flag `'' @ a @ ''`'',
                ''usage: gp-server setup [--reconfigure] [--prefix DIR] [--node URL] [--batch]''])"

definition plain_options :: "bool \<Rightarrow> setup_options" where
  "plain_options tty =
     \<lparr>so_reconfigure = False, so_prefix = None, so_node_override = None, so_force_run = False,
      so_stdin_is_tty = tty, so_seal = None\<rparr>"

text \<open>The exit code, the lines on stderr, the state left.\<close>

definition run_setup :: "'w setup_world \<Rightarrow> string list \<Rightarrow> bool \<Rightarrow> 'w till \<Rightarrow> nat \<times> string list \<times> 'w till" where
  "run_setup W args tty st =
     (case setup_flags args (plain_options tty) of
        Inl errs \<Rightarrow> (2, errs, st)
      | Inr opts \<Rightarrow>
          (case run_wizard W opts st of
             (Inr _, st') \<Rightarrow> (0, [], st')
           | (Inl e, st') \<Rightarrow> (1, [''setup: '' @ e], st')))"

subsection \<open>The first run\<close>

datatype boot = Continue config | ExitWith nat

definition first_run_or_boot ::
  "'w setup_world \<Rightarrow> bool \<Rightarrow> bool \<Rightarrow> config \<Rightarrow> 'w till \<Rightarrow> boot \<times> 'w till" where
  "first_run_or_boot W stdin_tty stdout_tty cfg st =
     (if \<not> needs_first_run_setup cfg (su_seed_file W (seed_path (data_dir cfg)) (snd (tl_wallet st)))
              (tl_disk st DEFAULT_ENV_FILE \<noteq> None) then (Continue cfg, st)
      else if \<not> stdin_tty \<or> \<not> stdout_tty then (Continue cfg, st)
      else (case run_wizard W (plain_options True) st of
              (Inl _, st') \<Rightarrow> (ExitWith 1, st')
            | (Inr _, st') \<Rightarrow>
                (case config_from_written_env (su_lower W) (\<lambda>f. read_to_string (su_io W) f (tl_disk st')) DEFAULT_ENV_FILE of
                   Inr cfg' \<Rightarrow> (Continue cfg', st')
                 | Inl _ \<Rightarrow> (ExitWith 0, st'))))"

subsection \<open>Opening the till\<close>

text \<open>
  What a boot is given besides the operating system: the derivation functions, nostr-sdk, the relay
  pool, and \<open>bo_world\<close>, the code the handlers call. \<open>bo_secret\<close> are the bytes of a pair's secret key.
\<close>

record ('w, 's, 'v, 'n, 'k, 'p, 'q, 'e, 'x, 'c, 'b) boot_env =
  bo_id :: "('k, 'q, 'e) id_sdk"
  bo_keys :: "('k, 'p) key_sdk"
  bo_nostr :: "'p nostr_sdk"
  bo_secret :: "'k \<Rightarrow> bytes"
  bo_sha :: "bytes \<Rightarrow> bytes"
  bo_valid :: "bytes \<Rightarrow> bool"
  bo_xonly :: "bytes \<Rightarrow> bytes"
  bo_crates :: "('k, 'x) wrap_sdk"
  bo_client :: "('k, 'c) relay_client"
  bo_world :: "('w, 's, 'v, 'n, 'p, 'k, 'b) world"

text \<open>The world the handlers of this process run in.\<close>

definition world_of ::
  "('w, 's, 'v, 'n, 'k, 'p, 'q, 'e, 'x, 'c, 'b) boot_env \<Rightarrow> config \<Rightarrow> 'k \<Rightarrow> ('w, 's, 'v, 'n, 'p, 'k, 'b) world" where
  "world_of B cfg keys =
     (bo_world B)
       \<lparr>wo_cfg := cfg,
        wo_signer := Some (ws_pub (bo_crates B) keys,
          \<lambda>iid. case invoice_pubkey_hex (bo_sha B) (bo_valid B) (bo_xonly B) (bo_secret B keys) iid of
                  Some h \<Rightarrow> h | None \<Rightarrow> []),
        wo_epub := (\<lambda>u e. case endpub_pubkey_hex (bo_sha B) (bo_valid B) (bo_xonly B) (bo_secret B keys) u e of
                  Some h \<Rightarrow> h | None \<Rightarrow> []),
        wo_pub_hex := ws_pub (bo_crates B), wo_unwrap := opened (bo_crates B),
        wo_event_id := ws_event_id (bo_crates B)\<rparr>"

datatype notice = SeedAlreadyThere string | WalletAt string | IdentityAt string | MerchantUnset

record ('w, 'k, 'x, 'c, 'b) started =
  sd_keys :: 'k
  sd_directory :: "'k db_directory"
  sd_service :: "('k, 'x, 'w \<times> 'b db, 'c) service"
  sd_notices :: "notice list"

text \<open>The service \<open>start_ingest\<close> builds over an opened wallet, an identity and a directory.\<close>

definition service_of ::
  "('w, 's, 'v, 'n, 'k, 'p, 'q, 'e, 'x, 'c, 'b) boot_env \<Rightarrow> config \<Rightarrow> 'k \<Rightarrow> 'k db_directory
   \<Rightarrow> ('k, 'x, 'w \<times> 'b db, 'c) service" where
  "service_of B cfg keys dir =
     \<lparr>se_keys = keys, se_relays = resolve_relays (relay_mode cfg) (bundled_relay_url cfg) (relays cfg),
      se_notify =
        \<lparr>no_merchant = map_option (sdk_to_hex (bo_keys B)) (Option.bind (merchant_npub cfg) (pubkey_from_str (bo_nostr B))),
         no_merchant_dm = notify_merchant_dm cfg, no_payer_receipt = notify_payer_receipt cfg\<rparr>,
      se_look = dir_resolve (bo_keys B) dir, se_watched = map (sdk_to_hex (bo_keys B)) (dir_watched (bo_keys B) dir),
      se_receive = wo_receive (world_of B cfg keys),
      se_replied = (\<lambda>sid st. (fst st, mark_replied sid (snd st))), se_unreplied = (\<lambda>st. unreplied (snd st)),
      se_crates = bo_crates B, se_client = bo_client B,
      se_key_of_hex = (\<lambda>h. map_option (sdk_to_hex (bo_keys B)) (sdk_from_hex (bo_keys B) h))\<rparr>"

text \<open>\<open>None\<close> is a panic (a derivation without a valid scalar).\<close>

definition start_ingest ::
  "'w setup_world \<Rightarrow> ('w, 's, 'v, 'n, 'k, 'p, 'q, 'e, 'x, 'c, 'b) boot_env \<Rightarrow> config \<Rightarrow> 'k \<Rightarrow> bool \<Rightarrow> bool \<Rightarrow> 'b db \<Rightarrow> 'w till
   \<Rightarrow> (string \<times> nat + ('w, 'k, 'x, 'c, 'b) started) option \<times> 'w till" where
  "start_ingest W B cfg fresh inv_read ep_read d st =
     (let was_initialized = su_seed_file W (seed_path (data_dir cfg)) (snd (tl_wallet st)) in
      case open_wallet_cfg (su_host W) (su_lifecycle W) cfg (tl_wallet st) of
        (Inl e, w) \<Rightarrow> (Some (Inl (''wallet error: '' @ show_wallet_error e, 2)), st\<lparr>tl_wallet := w\<rparr>)
      | (Inr _, w) \<Rightarrow>
          (case su_address W (snd w) of
             Inl e \<Rightarrow> (Some (Inl (''wallet error: '' @ show_wallet_error e, 2)), st\<lparr>tl_wallet := w\<rparr>)
           | Inr addr \<Rightarrow>
               (case load_or_create (bo_id B) (su_io W) (su_umask_mode W) cfg fresh (tl_disk st) of
                  (Inl e, dk) \<Rightarrow> (Some (Inl (''identity error: '' @ show_identity_error e, 2)), st\<lparr>tl_wallet := w, tl_disk := dk\<rparr>)
                | (Inr keys, dk) \<Rightarrow>
                    let dir = directory_new (bo_keys B) keys;
                        built = build_snapshot (bo_sha B) (bo_valid B) (bo_xonly B) (bo_secret B keys) inv_read ep_read
                                  (cfg_match_mode cfg) (endpub_overlap_epochs cfg) d;
                        merchant = Option.bind (merchant_npub cfg) (pubkey_from_str (bo_nostr B));
                        notes = (if was_initialized \<and> mnemonic cfg \<noteq> None then [SeedAlreadyThere (data_dir cfg)] else []) @
                          [WalletAt addr, IdentityAt (npub_of (bo_nostr B) (sdk_public (bo_keys B) keys))] @
                          (if notify_merchant_dm cfg \<and> merchant = None then [MerchantUnset] else [])
                    in (map_option (\<lambda>m. let dir' = dir\<lparr>dir_snapshot := m\<rparr> in
                          Inr \<lparr>sd_keys = keys, sd_directory = dir', sd_service = service_of B cfg keys dir',
                               sd_notices = notes\<rparr>) built, st\<lparr>tl_wallet := w, tl_disk := dk\<rparr>))))"

subsection \<open>The TLS configuration\<close>

text \<open>The PEM parsers and rustls; a reader is what the file holds.\<close>

record ('c, 'y, 't) tls_sdk =
  ts_certs :: "string \<Rightarrow> string + 'c list"
  ts_key :: "string \<Rightarrow> string + 'y option"
  ts_single :: "'c list \<Rightarrow> 'y \<Rightarrow> string + 't"

definition or_error :: "('e \<Rightarrow> string) \<Rightarrow> 'e + 'a \<Rightarrow> string + 'a" where
  "or_error wrap r = (case r of Inl e \<Rightarrow> Inl (wrap e) | Inr x \<Rightarrow> Inr x)"

definition tls_server_config ::
  "('c, 'y, 't) tls_sdk \<Rightarrow> fs_faults \<Rightarrow> disk \<Rightarrow> string \<Rightarrow> string \<Rightarrow> string + 't" where
  "tls_server_config T io d cert_path key_path =
     and_then (or_error (\<lambda>e. ''GP_TLS_CERT `'' @ cert_path @ ''` unreadable: '' @ e) (read_to_string io cert_path d)) (\<lambda>pem.
     and_then (or_error (\<lambda>e. ''GP_TLS_CERT `'' @ cert_path @ ''` invalid PEM: '' @ e) (ts_certs T pem)) (\<lambda>certs.
     if certs = [] then Inl (''GP_TLS_CERT `'' @ cert_path @ ''` contains no certificates'')
     else
     and_then (or_error (\<lambda>e. ''GP_TLS_KEY `'' @ key_path @ ''` unreadable: '' @ e) (read_to_string io key_path d)) (\<lambda>kpem.
     and_then (or_error (\<lambda>e. ''GP_TLS_KEY `'' @ key_path @ ''` invalid PEM: '' @ e) (ts_key T kpem)) (\<lambda>found.
     case found of
       None \<Rightarrow> Inl (''GP_TLS_KEY `'' @ key_path @ ''` contains no private key'')
     | Some key \<Rightarrow> or_error (\<lambda>e. ''TLS config rejected: '' @ e) (ts_single T certs key)))))"

lemma tls_config_served:
  "tls_server_config T io d cert key = Inr t \<Longrightarrow>
     \<exists>pem certs kpem k. read_to_string io cert d = Inr pem \<and> ts_certs T pem = Inr certs \<and> certs \<noteq> [] \<and>
       read_to_string io key d = Inr kpem \<and> ts_key T kpem = Inr (Some k) \<and> ts_single T certs k = Inr t"
  by (auto simp: tls_server_config_def or_error_def and_then_def split: sum.splits if_splits option.splits)

subsection \<open>What runs\<close>

datatype task =
  IngestService | Maintenance int int | ConfirmPoll confirm_policy | WebhookWorker string | SweepTask
| ForeignApi nat | OnionService nat | HttpApi string | HttpsApi string string string

text \<open>\<open>bound\<close>: the Foreign API's port could be bound; \<open>onion_key\<close>: the wallet gave its onion seed.\<close>

definition main_tasks :: "config \<Rightarrow> bool \<Rightarrow> bool \<Rightarrow> task list" where
  "main_tasks cfg bound onion_key =
     (if ingest cfg then [Maintenance (endpub_rotate_interval cfg) (endpub_overlap_epochs cfg), IngestService] else []) @
     [ConfirmPoll (policy_from_config cfg)] @
     (case webhook_secret cfg of
        Some s \<Rightarrow> if webhook_url cfg \<noteq> None then [WebhookWorker s] else []
      | None \<Rightarrow> []) @
     (if grin1_rail cfg \<and> ingest cfg
      then SweepTask # (if bound
                        then ForeignApi (grin1_foreign_port cfg) #
                             (if onion_key then [OnionService (grin1_foreign_port cfg)] else [])
                        else [])
      else []) @
     [case tls cfg of TlsOff \<Rightarrow> HttpApi (bind_addr cfg) | Rustls cert key \<Rightarrow> HttpsApi (bind_addr cfg) cert key]"

subsection \<open>A boot resumes the server\<close>

lemma started_service:
  assumes "start_ingest W B cfg fresh ir er d st = (Some (Inr b), st')"
  shows "\<exists>m. build_snapshot (bo_sha B) (bo_valid B) (bo_xonly B) (bo_secret B (sd_keys b)) ir er (cfg_match_mode cfg)
      (endpub_overlap_epochs cfg) d = Some m \<and>
    sd_directory b = (directory_new (bo_keys B) (sd_keys b))\<lparr>dir_snapshot := m\<rparr> \<and>
    sd_service b = service_of B cfg (sd_keys b) (sd_directory b) \<and>
    open_wallet_cfg (su_host W) (su_lifecycle W) cfg (tl_wallet st) = (Inr (), tl_wallet st') \<and>
    fst (load_or_create (bo_id B) (su_io W) (su_umask_mode W) cfg fresh (tl_disk st)) = Inr (sd_keys b)"
  using assms by (auto simp: start_ingest_def Let_def split: prod.splits sum.splits)

lemma service_of_runs_on: "runs_on (service_of B cfg keys dir) (world_of B cfg keys)"
  by (simp add: runs_on_def service_of_def world_of_def)

lemma restarted_reachable:
  assumes "reachable E s"
  shows "reachable E (s\<lparr>sv_seen := {}, sv_rate := []\<rparr>)"
proof -
  have "serve E s (s\<lparr>sv_seen := {}, sv_rate := [], sv_oracle := sv_oracle s\<rparr>)" by (rule serve.restart)
  with assms show ?thesis by (fastforce simp: reachable_def intro: rtranclp.rtrancl_into_rtrancl)
qed

lemma serve_reachable: "reachable E s \<Longrightarrow> (serve E)\<^sup>*\<^sup>* s t \<Longrightarrow> reachable E t"
  by (auto simp: reachable_def intro: rtranclp_trans)

text \<open>C34: a boot resumes the server where it stopped. Opened on the database and the wallet of a server in a
  reachable state, under the same identity, the service that \<open>start_ingest\<close> starts, with empty in-memory
  state, keeps the server within its reachable states through start-up and any run of its loop, with any
  behaviour of the relays; and from its first subscription on it watches, and holds the keys of, exactly the
  master identity, every open derived invoice and every current or overlapping tenant key.\<close>

theorem boot_resumes_server:
  assumes "reachable (world_of B cfg keys) s" "sd_keys b = keys"
    and "start_ingest W B cfg fresh True True (sv_db s) st = (Some (Inr b), st')"
    and "sv_wallet s = Some (snd (tl_wallet st'))"
    and "key_laws (bo_keys B) (bo_valid B) (bo_xonly B)" "ws_pub (bo_crates B) keys = key_hex (bo_keys B) keys"
    and "\<And>iid. invoice_pubkey_hex (bo_sha B) (bo_valid B) (bo_xonly B) (bo_secret B keys) iid \<noteq> None"
    and "\<And>u e. endpub_pubkey_hex (bo_sha B) (bo_valid B) (bo_xonly B) (bo_secret B keys) u e \<noteq> None"
    and "(service_step (sd_service b))\<^sup>*\<^sup>*
      (start_up (sd_service b) \<lparr>seen = {}, rate = [], rx = (snd (tl_wallet st'), sv_db s)\<rparr> c) (ws, t, c')"
  shows "reachable (world_of B cfg keys) (as_server s t) \<and>
    set (se_watched (sd_service b)) =
      insert (ws_pub (bo_crates B) keys)
        ({h. \<exists>i \<in> set (invoices (sv_db s)). inv_status i = ''open'' \<and> scoped (cfg_match_mode cfg) DerivedMode i \<and>
             recipient_pubkey i = Some h} \<union>
         ep_pubkey ` set (watched_pubkeys (endpub_overlap_epochs cfg) (sv_db s))) \<and>
    set (se_watched (sd_service b)) = {h. se_look (sd_service b) h \<noteq> None}"
proof -
  let ?E = "world_of B cfg keys"
  let ?child = "\<lambda>iid. case invoice_pubkey_hex (bo_sha B) (bo_valid B) (bo_xonly B) (bo_secret B keys) iid of
                  Some h \<Rightarrow> h | None \<Rightarrow> []"
  obtain m where m: "build_snapshot (bo_sha B) (bo_valid B) (bo_xonly B) (bo_secret B keys) True True (cfg_match_mode cfg)
      (endpub_overlap_epochs cfg) (sv_db s) = Some m"
      "sd_service b = service_of B cfg keys ((directory_new (bo_keys B) keys)\<lparr>dir_snapshot := m\<rparr>)"
    using started_service [OF assms(3)] assms(2) by auto
  have "(serve ?E)\<^sup>*\<^sup>* (as_server s \<lparr>seen = {}, rate = [], rx = (snd (tl_wallet st'), sv_db s)\<rparr>) (as_server s t)"
    using service_runs [OF service_of_runs_on assms(9) [unfolded m(2)]] .
  moreover have "as_server s \<lparr>seen = {}, rate = [], rx = (snd (tl_wallet st'), sv_db s)\<rparr> = s\<lparr>sv_seen := {}, sv_rate := []\<rparr>"
    using assms(4) by (cases s) (simp add: as_server_def)
  ultimately have reach: "reachable ?E (as_server s t)"
    using serve_reachable [OF restarted_reachable [OF assms(1)]] by simp
  have children: "invoice_pubkey_hex (bo_sha B) (bo_valid B) (bo_xonly B) (bo_secret B keys) iid = Some (?child iid)" for iid
    using assms(7) [of iid] by (auto split: option.split)
  have epubs: "endpub_pubkey_hex (bo_sha B) (bo_valid B) (bo_xonly B) (bo_secret B keys) u e = Some (wo_epub ?E u e)" for u e
    using assms(8) [of u e] by (auto simp: world_of_def split: option.split)
  have signer: "wo_signer ?E = Some (ws_pub (bo_crates B) keys, ?child)" and cfg: "wo_cfg ?E = cfg"
    by (simp_all add: world_of_def)
  let ?dir = "(directory_new (bo_keys B) keys)\<lparr>dir_snapshot := m\<rparr>"
  have held: "{h. dir_resolve (bo_keys B) ?dir h \<noteq> None} =
      insert (ws_pub (bo_crates B) keys)
        ({h. \<exists>i \<in> set (invoices (sv_db s)). inv_status i = ''open'' \<and> scoped (cfg_match_mode cfg) DerivedMode i \<and>
             recipient_pubkey i = Some h} \<union>
         ep_pubkey ` set (watched_pubkeys (endpub_overlap_epochs cfg) (sv_db s))) \<and>
      sdk_to_hex (bo_keys B) ` set (dir_watched (bo_keys B) ?dir) = {h. dir_resolve (bo_keys B) ?dir h \<noteq> None}"
    using rebuilt_directory [OF assms(1) signer assms(5) assms(6) [symmetric] children epubs, unfolded cfg,
        of "endpub_overlap_epochs cfg"] m(1) unfolding Let_def by auto
  have "set (se_watched (sd_service b)) = sdk_to_hex (bo_keys B) ` set (dir_watched (bo_keys B) ?dir)"
    "se_look (sd_service b) = dir_resolve (bo_keys B) ?dir"
    unfolding m(2) by (simp_all add: service_of_def)
  with reach held show ?thesis by simp
qed

subsection \<open>A till that boots\<close>

definition till_world :: "(string list \<times> string list) setup_world" where
  "till_world =
     \<lparr>su_lower = (\<lambda>s. s), su_io = (\<lambda>_ _. None), su_umask_mode = 0x1A4, su_host = sample_host,
      su_lifecycle = \<lparr>lc_setup = Inr (), lc_exists = (\<lambda>_. Inr True), lc_mnemonic = (\<lambda>_ _. Inr ''words''),
        lc_create = (\<lambda>_ _ w. (Inr (), w)), lc_open = (\<lambda>_ w. (Inr (), w))\<rparr>,
      su_seed_file = (\<lambda>_ _. True), su_address = (\<lambda>_. Inr ''grin1x''), su_entropy_words = (\<lambda>_. Inr ''words''),
      su_probe = (\<lambda>_. True), su_random = (\<lambda>_. []), su_creds = (\<lambda>_ _ d. (NoProgram, d))\<rparr>"

definition till_keys :: "(string, string) key_sdk" where
  "till_keys = \<lparr>sdk_from_secret = (\<lambda>s. Some (hex_encode s)), sdk_public = (\<lambda>k. k), sdk_to_hex = (\<lambda>h. h), sdk_from_hex = Some\<rparr>"

definition till_boot ::
  "(string list \<times> string list, string \<times> slate_state \<times> u64, string \<times> slate_state \<times> u64, unit, string, string, string, string,
    string set, (string list \<times> event) list, string) boot_env" where
  "till_boot =
     \<lparr>bo_id = sample_id, bo_keys = till_keys, bo_nostr = sample_nostr, bo_secret = (\<lambda>_. [7]), bo_sha = (\<lambda>b. b),
      bo_valid = (\<lambda>_. True), bo_xonly = (\<lambda>b. b), bo_crates = service_crates, bo_client = sample_client,
      bo_world = service_world\<rparr>"

definition till_config :: config where
  "till_config = api_config\<lparr>wallet_password := Some ''pw''\<rparr>"

definition cold_till :: "(string list \<times> string list) till" where
  "cold_till = \<lparr>tl_disk = (\<lambda>_. None), tl_wallet = (None, ([], [])), tl_in = [], tl_out = []\<rparr>"

lemma till_started:
  "\<exists>b st'. start_ingest till_world till_boot till_config ''m'' True True (empty_db :: string db) cold_till =
     (Some (Inr b), st') \<and> sd_keys b = ''m'' \<and> tl_wallet st' = (Some Mainnet, ([], []))"
proof -
  have wallet: "open_wallet_cfg (su_host till_world) (su_lifecycle till_world) till_config (tl_wallet cold_till) =
      (Inr (), (Some Mainnet, ([], [])))" by code_simp
  have "fst (load_or_create sample_id (su_io till_world) (su_umask_mode till_world) till_config ''m'' (tl_disk cold_till)) = Inr ''m''"
    by code_simp
  then obtain dk where identity:
      "load_or_create sample_id (su_io till_world) (su_umask_mode till_world) till_config ''m'' (tl_disk cold_till) = (Inr ''m'', dk)"
    by (metis prod.collapse)
  have "build_snapshot (\<lambda>b. b) (\<lambda>_. True) (\<lambda>b. b) [7] True True md ov (empty_db :: string db) = Some []" for md ov
    by (simp add: build_snapshot_def derived_invoices_def watched_pubkeys_def empty_db_def)
  moreover have "mnemonic till_config = None" by code_simp
  ultimately show ?thesis using wallet identity
    by (simp add: start_ingest_def Let_def till_boot_def) (simp add: till_world_def Let_def)
qed

theorem boot_resumes_server_witness:
  "\<exists>b t. reachable (world_of till_boot till_config ''m'') (as_server shop_open t) \<and>
     set (se_watched (sd_service
         (b :: (string list \<times> string list, string, string set, (string list \<times> event) list, string) started))) = {''m''}"
proof -
  obtain b st' where b: "start_ingest till_world till_boot till_config ''m'' True True (empty_db :: string db) cold_till =
      (Some (Inr b), st')" "sd_keys b = ''m''" "tl_wallet st' = (Some Mainnet, ([], []))" using till_started by blast
  have shop: "sv_db shop_open = empty_db" "sv_wallet shop_open = Some (snd (tl_wallet st'))"
    by (simp_all add: shop_open_def b(3))
  have reach: "reachable (world_of till_boot till_config ''m'') shop_open"
    unfolding reachable_def by (intro exI [of _ shop_open]) (simp add: booted_def shop_open_def)
  have laws: "key_laws (bo_keys till_boot) (bo_valid till_boot) (bo_xonly till_boot)"
    "ws_pub (bo_crates till_boot) ''m'' = key_hex (bo_keys till_boot) ''m''"
    by (simp_all add: key_laws_def till_boot_def till_keys_def service_crates_def paying_crates_def sample_crates_def)
  have derived: "invoice_pubkey_hex (bo_sha till_boot) (bo_valid till_boot) (bo_xonly till_boot) (bo_secret till_boot ''m'') iid \<noteq> None"
    "endpub_pubkey_hex (bo_sha till_boot) (bo_valid till_boot) (bo_xonly till_boot) (bo_secret till_boot ''m'') u e \<noteq> None" for iid u e
    by (simp_all add: till_boot_def invoice_pubkey_hex_def endpub_pubkey_hex_def child_pubkey_hex_def child_secret_first)
  obtain ws t c' where "start_up (sd_service b) \<lparr>seen = {}, rate = [], rx = (snd (tl_wallet st'), sv_db shop_open)\<rparr> [] = (ws, t, c')"
    by (rule prod_cases3)
  then have "(service_step (sd_service b))\<^sup>*\<^sup>*
      (start_up (sd_service b) \<lparr>seen = {}, rate = [], rx = (snd (tl_wallet st'), sv_db shop_open)\<rparr> []) (ws, t, c')" by simp
  note run = boot_resumes_server [OF reach b(2) b(1) [folded shop(1)] shop(2) laws derived this]
  have none: "invoices (sv_db shop_open) = []" "watched_pubkeys (endpub_overlap_epochs till_config) (sv_db shop_open) = []"
    by (simp_all add: shop_open_def empty_db_def watched_pubkeys_def)
  have "set (se_watched (sd_service b)) = {ws_pub (bo_crates till_boot) ''m''}"
    unfolding run [THEN conjunct2, THEN conjunct1] none by simp
  moreover have "ws_pub (bo_crates till_boot) ''m'' = ''m''"
    by (simp add: till_boot_def service_crates_def paying_crates_def sample_crates_def)
  ultimately have watched: "set (se_watched (sd_service b)) = {''m''}" by simp
  show ?thesis by (rule exI [of _ b], rule exI [of _ t], rule conjI, rule run [THEN conjunct1], rule watched)
qed

subsection \<open>Observations\<close>

text \<open>Events are queued exactly when the worker that delivers them runs.\<close>

lemma webhook_worker_iff: "(\<exists>s. WebhookWorker s \<in> set (main_tasks cfg bound key)) \<longleftrightarrow>
    webhook_pair (webhook_url cfg) (webhook_secret cfg) \<noteq> None"
  by (auto simp: main_tasks_def webhook_pair_def split: option.split tls_t.split)

text \<open>The worker signs with the secret the events are queued under.\<close>

lemma webhook_worker_secret:
  "WebhookWorker s \<in> set (main_tasks cfg bound key) \<Longrightarrow> webhook_secret cfg = Some s"
  by (auto simp: main_tasks_def split: option.splits tls_t.splits if_splits)

text \<open>The onion service runs only in front of a Foreign API that listens, beside the sweep that cancels late invoices.\<close>

lemma onion_needs_api:
  "OnionService p \<in> set (main_tasks cfg bound key) \<Longrightarrow>
     ForeignApi p \<in> set (main_tasks cfg bound key) \<and> SweepTask \<in> set (main_tasks cfg bound key) \<and> ingest cfg"
  by (auto simp: main_tasks_def split: option.splits tls_t.splits if_splits)

text \<open>
  A guided first run writes below the working directory and reads \<open>/etc/goblinpay.env\<close>: on a box where
  setup has just succeeded, unattended, it does not boot but ends with exit code 0.
\<close>

lemma first_run_does_not_boot:
  "fst (first_run_or_boot sample_setup True True default_config (blank_till None)) = ExitWith 0"
  "fst (run_wizard sample_setup (plain_options True) (blank_till None)) = Inr ()"
  by code_simp+

lemma bad_flag_changes_nothing:
  "fst (run_setup W args tty st) = 2 \<longleftrightarrow> (\<exists>errs. setup_flags args (plain_options tty) = Inl errs)"
  "fst (run_setup W args tty st) = 2 \<Longrightarrow> snd (snd (run_setup W args tty st)) = st"
  by (auto simp: run_setup_def split: sum.splits prod.splits)

end
