(* ===== verification/Admin.thy ===== *)
theory Admin
  imports Directory
begin

text \<open>
  \<open>crates/gp-server/src/admin.rs\<close>: the dashboard and the JSON management API behind
  \<open>GP_ADMIN_TOKEN\<close>. A reply is its data: the HTML template and the JSON layout are left out. A row
  whose \<open>slate_id\<close> is NULL does not decode, and a list that does not decode is shown empty.
\<close>

subsection \<open>What is shown\<close>

record payment_row =
  pr_slate_id :: string
  pr_amount_grin :: string
  pr_status :: string
  pr_invoice_id :: string
  pr_user_id :: string
  pr_created_at :: int

record balance_row =
  br_user_id :: string
  br_npub :: string
  br_epoch :: int
  br_balance_grin :: string

record admin_page =
  ap_base :: string
  ap_payments :: "payment_row list"
  ap_balances :: "balance_row list"
  ap_node_url :: string
  ap_match_mode :: string
  ap_ingest :: bool
  ap_relay_count :: nat
  ap_webhook_configured :: bool
  ap_pending_webhooks :: nat
  ap_rotate_interval :: int
  ap_overlap_epochs :: int

record payment_item =
  pi_payment_id :: string
  pi_amount :: int
  pi_payer :: "string option"
  pi_status :: string
  pi_invoice_id :: "string option"
  pi_user_id :: "string option"
  pi_created_at :: int

record endpub_view =
  ev_user_id :: string
  ev_epoch :: int
  ev_endpub :: string
  ev_npub :: string
  ev_nprofile :: string
  ev_qr_svg :: string

record delivery_item =
  di_event_id :: string
  di_payment_id :: "string option"
  di_event_type :: string
  di_attempts :: int
  di_delivered :: bool
  di_next_attempt_at :: int
  di_last_error :: "string option"

datatype admin_reply =
  Deny | DenyPage | NoIdentity | UserNotFound | AdminError | Page admin_page | PaymentList "payment_item list"
| EndpubReply endpub_view | UserList "(string \<times> int \<times> string \<times> string \<times> int) list"
| IntervalUpdated string | DeliveryList "delivery_item list"

definition or_empty :: "'a list sql_result \<Rightarrow> 'a list" where
  "or_empty r = (case r of Inl _ \<Rightarrow> [] | Inr xs \<Rightarrow> xs)"

definition is_admin :: "('w, 's, 'v, 'n, 'pk) api_env \<Rightarrow> config \<Rightarrow> string option \<Rightarrow> bool" where
  "is_admin env cfg header = authorized (env_slice_eq env) header (admin_token cfg)"

definition npub_of_hex :: "'pk nostr_sdk \<Rightarrow> string \<Rightarrow> string" where
  "npub_of_hex n hex = (case pk_from_hex n hex of None \<Rightarrow> [] | Some pk \<Rightarrow> npub_of n pk)"

text \<open>\<open>ORDER BY created_at DESC LIMIT n\<close>.\<close>

definition newest :: "nat \<Rightarrow> ('a \<Rightarrow> int) \<Rightarrow> 'a list \<Rightarrow> 'a list" where
  "newest n stamp xs = take n (sort_key (\<lambda>x. - stamp x) xs)"

definition recent_payment_rows :: "'b db \<Rightarrow> payment_row list" where
  "recent_payment_rows d =
     (case those (map (\<lambda>p. map_option (\<lambda>sid. \<lparr>pr_slate_id = sid, pr_amount_grin = nanogrin_to_grin (as_u64 (pay_amount p)),
                  pr_status = payment.pay_status p, pr_invoice_id = or_default (pay_invoice_id p) [],
                  pr_user_id = or_default (pay_user_id p) [], pr_created_at = pay_created_at p\<rparr>) (pay_slate_id p))
             (newest 50 pay_created_at (payments d))) of
        None \<Rightarrow> [] | Some rows \<Rightarrow> rows)"

definition balance_rows :: "'pk nostr_sdk \<Rightarrow> 'b db \<Rightarrow> balance_row list" where
  "balance_rows n d =
     map (\<lambda>b. \<lparr>br_user_id = ub_user b, br_npub = npub_of_hex n (ub_endpub b), br_epoch = ub_epoch b,
               br_balance_grin = nanogrin_to_grin (as_u64 (max (ub_balance b) 0))\<rparr>)
       (or_empty (list_with_balances d))"

definition mode_debug_lower :: "match_mode_t \<Rightarrow> string" where
  "mode_debug_lower m = (case m of MemoMode \<Rightarrow> ''memo'' | DerivedMode \<Rightarrow> ''derived'' | AmountMode \<Rightarrow> ''amount'')"

definition dashboard :: "('w, 's, 'v, 'n, 'pk) api_env \<Rightarrow> config \<Rightarrow> string option \<Rightarrow> 'b db \<Rightarrow> admin_reply" where
  "dashboard env cfg header d =
     (if \<not> is_admin env cfg header then DenyPage
      else Page
        \<lparr>ap_base = base_path (public_url cfg), ap_payments = recent_payment_rows d,
         ap_balances = balance_rows (env_nostr env) d, ap_node_url = node_url cfg,
         ap_match_mode = mode_debug_lower (cfg_match_mode cfg), ap_ingest = ingest cfg,
         ap_relay_count = length (resolve_relays (relay_mode cfg) (bundled_relay_url cfg) (relays cfg)),
         ap_webhook_configured = (webhook_url cfg \<noteq> None),
         ap_pending_webhooks = count_where (\<lambda>r. delivered r = 0) (deliveries d),
         ap_rotate_interval = endpub_rotate_interval cfg, ap_overlap_epochs = endpub_overlap_epochs cfg\<rparr>)"

definition list_payments :: "('w, 's, 'v, 'n, 'pk) api_env \<Rightarrow> config \<Rightarrow> string option \<Rightarrow> 'b db \<Rightarrow> admin_reply" where
  "list_payments env cfg header d =
     (if \<not> is_admin env cfg header then Deny
      else PaymentList
        (case those (map (\<lambda>p. map_option (\<lambda>sid. \<lparr>pi_payment_id = sid, pi_amount = pay_amount p, pi_payer = payer p,
                     pi_status = payment.pay_status p, pi_invoice_id = pay_invoice_id p, pi_user_id = pay_user_id p,
                     pi_created_at = pay_created_at p\<rparr>) (pay_slate_id p))
                (newest 200 pay_created_at (payments d))) of
           None \<Rightarrow> [] | Some rows \<Rightarrow> rows))"

definition endpub_json :: "('w, 's, 'v, 'n, 'pk) api_env \<Rightarrow> config \<Rightarrow> string \<Rightarrow> int \<Rightarrow> string \<Rightarrow> admin_reply" where
  "endpub_json env cfg uid ep pubkey =
     (let n = env_nostr env; rs = resolve_relays (relay_mode cfg) (bundled_relay_url cfg) (relays cfg);
          (npub, profile, qr) =
            (case pk_from_hex n pubkey of
               Some pk \<Rightarrow> (npub_of n pk, nprofile n pk rs, or_default (env_svg env (nprofile n pk rs) (qr_logo cfg)) [])
             | None \<Rightarrow> ([], [], []))
      in EndpubReply \<lparr>ev_user_id = uid, ev_epoch = ep, ev_endpub = pubkey, ev_npub = npub, ev_nprofile = profile,
                      ev_qr_svg = qr\<rparr>)"

subsection \<open>The handlers\<close>

text \<open>\<open>epub\<close> derives an endpub from the identity's secret; \<open>signer\<close> says whether an identity is loaded.\<close>

definition admin_create_user ::
  "('w, 's, 'v, 'n, 'pk) api_env \<Rightarrow> config \<Rightarrow> bool \<Rightarrow> (string \<Rightarrow> int \<Rightarrow> string) \<Rightarrow> string option \<Rightarrow> string option \<Rightarrow> int option
   \<Rightarrow> string \<Rightarrow> int \<Rightarrow> int \<Rightarrow> 'b db \<Rightarrow> admin_reply \<times> 'b db" where
  "admin_create_user env cfg signer epub header ido interval rnd now now' d =
     (if \<not> is_admin env cfg header then (Deny, d)
      else if \<not> signer then (NoIdentity, d)
      else (case create_user epub rnd now now' ido interval d of
              (Inr (u, e), d') \<Rightarrow> (endpub_json env cfg (user_id u) (ep_epoch e) (ep_pubkey e), d')
            | (Inl _, d') \<Rightarrow> (AdminError, d')))"

definition list_users :: "('w, 's, 'v, 'n, 'pk) api_env \<Rightarrow> config \<Rightarrow> string option \<Rightarrow> 'b db \<Rightarrow> admin_reply" where
  "list_users env cfg header d =
     (if \<not> is_admin env cfg header then Deny
      else UserList
        (map (\<lambda>b. (ub_user b, ub_epoch b, ub_endpub b, npub_of_hex (env_nostr env) (ub_endpub b), ub_balance b))
          (or_empty (list_with_balances d))))"

definition admin_get_user ::
  "('w, 's, 'v, 'n, 'pk) api_env \<Rightarrow> config \<Rightarrow> string option \<Rightarrow> string \<Rightarrow> 'b db \<Rightarrow> admin_reply" where
  "admin_get_user env cfg header uid d =
     (if \<not> is_admin env cfg header then Deny
      else (case current_endpub uid d of
              Some e \<Rightarrow> endpub_json env cfg uid (ep_epoch e) (ep_pubkey e)
            | None \<Rightarrow> UserNotFound))"

definition rotate_user ::
  "('w, 's, 'v, 'n, 'pk) api_env \<Rightarrow> config \<Rightarrow> bool \<Rightarrow> (string \<Rightarrow> int \<Rightarrow> string) \<Rightarrow> string option \<Rightarrow> string \<Rightarrow> int \<Rightarrow> int
   \<Rightarrow> 'b db \<Rightarrow> admin_reply \<times> 'b db" where
  "rotate_user env cfg signer epub header uid now now' d =
     (if \<not> is_admin env cfg header then (Deny, d)
      else if \<not> signer then (NoIdentity, d)
      else (case rotate epub now now' uid d of
              (Inr e, d') \<Rightarrow> (endpub_json env cfg uid (ep_epoch e) (ep_pubkey e), d')
            | (Inl _, d') \<Rightarrow> (AdminError, d')))"

definition admin_rotate_interval ::
  "('w, 's, 'v, 'n, 'pk) api_env \<Rightarrow> config \<Rightarrow> string option \<Rightarrow> string \<Rightarrow> int option \<Rightarrow> 'b db \<Rightarrow> admin_reply \<times> 'b db" where
  "admin_rotate_interval env cfg header uid interval d =
     (if \<not> is_admin env cfg header then (Deny, d)
      else (case set_rotate_interval uid interval d of
              (True, d') \<Rightarrow> (IntervalUpdated uid, d')
            | (False, d') \<Rightarrow> (UserNotFound, d')))"

definition list_webhooks :: "('w, 's, 'v, 'n, 'pk) api_env \<Rightarrow> config \<Rightarrow> string option \<Rightarrow> 'b db \<Rightarrow> admin_reply" where
  "list_webhooks env cfg header d =
     (if \<not> is_admin env cfg header then Deny
      else DeliveryList
        (map (\<lambda>r. \<lparr>di_event_id = del_id r, di_payment_id = del_payment_id r, di_event_type = event_type r,
                  di_attempts = attempts r, di_delivered = (delivered r = 1), di_next_attempt_at = next_attempt_at r,
                  di_last_error = last_error r\<rparr>)
          (newest 200 del_created_at (deliveries d))))"

subsection \<open>The route table\<close>

datatype admin_request =
  GetDashboard | GetPayments | GetUsers | PostUser "string option" "int option" | GetUser string | PostRotate string
| PostInterval string "int option" | GetWebhooks

definition admin_request_handler ::
  "('w, 's, 'v, 'n, 'pk) api_env \<Rightarrow> config \<Rightarrow> bool \<Rightarrow> (string \<Rightarrow> int \<Rightarrow> string) \<Rightarrow> string option \<Rightarrow> admin_request \<Rightarrow> string \<Rightarrow> int
   \<Rightarrow> int \<Rightarrow> 'b db \<Rightarrow> admin_reply \<times> 'b db" where
  "admin_request_handler env cfg signer epub header req rnd now now' d =
     (case req of
        GetDashboard \<Rightarrow> (dashboard env cfg header d, d)
      | GetPayments \<Rightarrow> (list_payments env cfg header d, d)
      | GetUsers \<Rightarrow> (list_users env cfg header d, d)
      | PostUser ido interval \<Rightarrow> admin_create_user env cfg signer epub header ido interval rnd now now' d
      | GetUser uid \<Rightarrow> (admin_get_user env cfg header uid d, d)
      | PostRotate uid \<Rightarrow> rotate_user env cfg signer epub header uid now now' d
      | PostInterval uid interval \<Rightarrow> admin_rotate_interval env cfg header uid interval d
      | GetWebhooks \<Rightarrow> (list_webhooks env cfg header d, d))"

subsection \<open>The gate\<close>

lemma endpub_json_fields:
  "endpub_json env cfg uid ep pk = EndpubReply v \<Longrightarrow> ev_user_id v = uid \<and> ev_epoch v = ep \<and> ev_endpub v = pk"
  by (auto simp: endpub_json_def Let_def split: prod.splits)

lemma admin_requests_denied:
  assumes "admin_request_handler env cfg signer epub header req rnd now now' d = (reply, d')"
  shows "\<not> authorized (env_slice_eq env) header (admin_token cfg) \<longrightarrow> reply \<in> {Deny, DenyPage} \<and> d' = d"
  using assms
  by (cases req) (auto simp: admin_request_handler_def is_admin_def dashboard_def list_payments_def list_users_def
      admin_get_user_def list_webhooks_def admin_create_user_def rotate_user_def admin_rotate_interval_def)

lemma admin_requests_op:
  assumes "admin_request_handler env cfg signer epub header req rnd now now' d = (reply, d')"
  shows "d' = d \<or> tenant_op epub d d'"
proof (cases req)
  case (PostUser ido interval)
  with assms tenant_op.user_created [of epub d rnd now now' ido interval] show ?thesis
    by (auto simp: admin_request_handler_def admin_create_user_def split: if_splits prod.splits sum.splits)
next
  case (PostRotate uid)
  with assms tenant_op.user_rotated [of epub d now now' uid] show ?thesis
    by (auto simp: admin_request_handler_def rotate_user_def split: if_splits prod.splits sum.splits)
next
  case (PostInterval uid i)
  with assms tenant_op.user_interval [of epub d uid i] show ?thesis
    by (auto simp: admin_request_handler_def admin_rotate_interval_def split: if_splits prod.splits bool.splits)
qed (use assms in \<open>simp_all add: admin_request_handler_def\<close>)

text \<open>The admin surface is closed without the admin token and narrow with it. A request without a bearer
  token equal to the configured one (none is accepted when none is configured) is denied and changes
  nothing; an authorized one does at most one of the three tenant operations, so invoices, payments and
  webhooks are as before and the server's invariants survive every admin request.\<close>

lemma admin_requests_gated:
  assumes "admin_request_handler env cfg signer epub header req rnd now now' d = (reply, d')"
  shows "(\<not> authorized (env_slice_eq env) header (admin_token cfg) \<longrightarrow> reply \<in> {Deny, DenyPage} \<and> d' = d) \<and>
    (d' = d \<or> tenant_op epub d d') \<and> (tenants_wf epub d \<longrightarrow> tenants_wf epub d') \<and>
    invoices d' = invoices d \<and> payments d' = payments d \<and> deliveries d' = deliveries d"
  using admin_requests_denied [OF assms] admin_requests_op [OF assms] tenant_op_tables tenant_op_wf by metis

lemma create_user_Inr:
  assumes "tenants_wf epub d" "create_user epub rnd now now' ido interval d = (Inr (u, e), d')"
  shows "get_user (user_id u) d' = Some u \<and> ep_key e = (user_id u, epoch u) \<and> ep_pubkey e = epub (user_id u) (epoch u)"
proof -
  define uid where "uid = (case ido of Some i \<Rightarrow> i | None \<Rightarrow> rnd)"
  define row where "row = \<lparr>user_id = uid, rotate_interval = interval, epoch = 0, last_rotated_at = now, user_created_at = now\<rparr>"
  have none: "get_user uid d = None"
    using assms(2) by (auto simp: create_user_def uid_def [symmetric] Let_def split: if_splits)
  have found: "get_user uid (d\<lparr>users := users d @ [row]\<rparr>) = Some row"
    using none by (simp add: get_user_def lookup_by_append row_def)
  have "Endpub.assign epub now' uid 0 (d\<lparr>users := users d @ [row]\<rparr>) =
      (Inr (new_endpub epub now' uid 0), d\<lparr>users := users d @ [row], endpubs := endpubs d @ [new_endpub epub now' uid 0]\<rparr>)"
    using assign_fresh [of uid 0 "d\<lparr>users := users d @ [row]\<rparr>" epub now'] no_endpub_without_user [OF assms(1) none] found
    by simp
  moreover from found have "get_user uid (d\<lparr>users := users d @ [row], endpubs := eps\<rparr>) = Some row" for eps
    by (simp add: get_user_def)
  ultimately have "u = row \<and> e = new_endpub epub now' uid 0 \<and> get_user uid d' = Some row"
    using assms(2) none by (auto simp: create_user_def uid_def [symmetric] row_def [symmetric] Let_def)
  then show ?thesis by (simp add: row_def)
qed


definition admin_till :: config where
  "admin_till = default_config\<lparr>admin_token := Some ''gpadm''\<rparr>"

lemma sample_user_created:
  "\<exists>v. fst (admin_request_handler (wo_api sample_world) admin_till True (\<lambda>u e. u @ show_nat (nat e)) (Some ''Bearer gpadm'')
     (PostUser (Some ''bob'') None) ''r'' 1 1 (empty_db :: string db)) = EndpubReply v \<and> ev_user_id v = ''bob'' \<and> ev_epoch v = 0"
proof -
  let ?reply = "fst (admin_request_handler (wo_api sample_world) admin_till True (\<lambda>u e. u @ show_nat (nat e)) (Some ''Bearer gpadm'')
     (PostUser (Some ''bob'') None) ''r'' 1 1 (empty_db :: string db))"
  have "case ?reply of EndpubReply v \<Rightarrow> ev_user_id v = ''bob'' \<and> ev_epoch v = 0 | _ \<Rightarrow> False" by code_simp
  then show ?thesis by (cases ?reply) simp_all
qed


end
