(* ===== verification/Receipt.thy ===== *)
theory Receipt
  imports Confirm Protocol Json
begin

text \<open>
  \<open>crates/gp-nostr/src/receipt.rs\<close> and the receipt page of \<open>payments.rs\<close>: the signed payment
  receipt, its verification, and the hexadecimal reader it uses. SHA-256, BIP-340 signatures and
  the serialization of a receipt (serde) are a \<open>receipt_sdk\<close>. A slice at a byte that is inside a
  character panics in Rust; such a run has the outcome \<open>Panics\<close>.
\<close>

datatype 'a outcome = Panics | Gives 'a

definition RECEIPT_VERSION :: nat where "RECEIPT_VERSION = 1"

record receipt =
  rcp_version :: nat
  rcp_payment_id :: string
  rcp_amount :: u64
  rcp_kernel_excess :: string
  rcp_confirmed_height :: "u64 option"
  rcp_confirmations :: "u64 option"
  rcp_proof :: "json option"
  rcp_issued_at :: string
  rcp_server_pubkey :: string

record signed_receipt =
  sr_receipt :: receipt
  sr_sig :: string

datatype receipt_error = KeyError string | SerializeError string

definition show_receipt_error :: "receipt_error \<Rightarrow> string" where
  "show_receipt_error e =
     (case e of
        KeyError m \<Rightarrow> ''receipt key error: '' @ m
      | SerializeError m \<Rightarrow> ''receipt serialize error: '' @ m)"

record 'k receipt_sdk =
  rs_secret :: "'k \<Rightarrow> string + u8 list"
  rs_xonly :: "u8 list \<Rightarrow> u8 list"
  rs_to_vec :: "receipt \<Rightarrow> string + string"
  rs_sha :: "string \<Rightarrow> u8 list"
  rs_sign :: "u8 list \<Rightarrow> u8 list \<Rightarrow> u8 list"
  rs_point :: "u8 list \<Rightarrow> bool"
  rs_verify :: "u8 list \<Rightarrow> u8 list \<Rightarrow> u8 list \<Rightarrow> bool"

subsection \<open>Hexadecimal\<close>

definition radix16 :: "char \<Rightarrow> nat option" where
  "radix16 c =
     (let n = of_char c :: nat in
      if 48 \<le> n \<and> n \<le> 57 then Some (n - 48)
      else if 97 \<le> n \<and> n \<le> 102 then Some (n - 87)
      else if 65 \<le> n \<and> n \<le> 70 then Some (n - 55) else None)"

text \<open>\<open>u8::from_str_radix\<close> of two bytes: a leading plus sign is accepted.\<close>

definition parse_byte :: "char \<Rightarrow> char \<Rightarrow> u8 option" where
  "parse_byte a b =
     (if a = CHR ''+'' then map_option word_of_nat (radix16 b)
      else (case (radix16 a, radix16 b) of (Some x, Some y) \<Rightarrow> Some (word_of_nat (16 * x + y)) | _ \<Rightarrow> None))"

fun decode_pairs :: "string \<Rightarrow> u8 list option outcome" where
  "decode_pairs (a # b # s) =
     (if continuation a \<or> (s \<noteq> [] \<and> continuation (hd s)) then Panics
      else (case parse_byte a b of
              None \<Rightarrow> Gives None
            | Some v \<Rightarrow>
                (case decode_pairs s of Panics \<Rightarrow> Panics | Gives None \<Rightarrow> Gives None | Gives (Some r) \<Rightarrow> Gives (Some (v # r)))))"
| "decode_pairs _ = Gives (Some [])"

definition decode_fixed :: "nat \<Rightarrow> string \<Rightarrow> u8 list option outcome" where
  "decode_fixed n hex =
     (let h = trim hex in if length h \<noteq> n * 2 then Gives None else decode_pairs h)"

subsection \<open>Signing and verifying\<close>

definition receipt_digest :: "'k receipt_sdk \<Rightarrow> receipt \<Rightarrow> receipt_error + u8 list" where
  "receipt_digest n r =
     (case rs_to_vec n r of Inl e \<Rightarrow> Inl (SerializeError e) | Inr bs \<Rightarrow> Inr (rs_sha n bs))"

definition sign_receipt :: "'k receipt_sdk \<Rightarrow> 'k \<Rightarrow> receipt \<Rightarrow> receipt_error + signed_receipt" where
  "sign_receipt n keys r0 =
     (case rs_secret n keys of
        Inl e \<Rightarrow> Inl (KeyError (''bad identity secret key: '' @ e))
      | Inr sk \<Rightarrow>
          let r = r0\<lparr>rcp_server_pubkey := hex_encode (rs_xonly n sk)\<rparr> in
          (case receipt_digest n r of
             Inl e \<Rightarrow> Inl e
           | Inr digest \<Rightarrow> Inr \<lparr>sr_receipt = r, sr_sig = hex_encode (rs_sign n digest sk)\<rparr>))"

definition verify_receipt :: "'k receipt_sdk \<Rightarrow> signed_receipt \<Rightarrow> bool outcome" where
  "verify_receipt n s =
     (case receipt_digest n (sr_receipt s) of
        Inl _ \<Rightarrow> Gives False
      | Inr digest \<Rightarrow>
          (case decode_fixed 32 (rcp_server_pubkey (sr_receipt s)) of
             Panics \<Rightarrow> Panics
           | Gives None \<Rightarrow> Gives False
           | Gives (Some pk) \<Rightarrow>
               (case decode_fixed 64 (sr_sig s) of
                  Panics \<Rightarrow> Panics
                | Gives None \<Rightarrow> Gives False
                | Gives (Some sg) \<Rightarrow> Gives (rs_point n pk \<and> rs_verify n sg digest pk))))"

definition verify_receipt_from :: "'k receipt_sdk \<Rightarrow> signed_receipt \<Rightarrow> string \<Rightarrow> bool outcome" where
  "verify_receipt_from n s expected =
     (if map ascii_lower (rcp_server_pubkey (sr_receipt s)) = map ascii_lower (trim expected)
      then verify_receipt n s else Gives False)"

subsection \<open>The receipt page\<close>

datatype receipt_reply = NoSigner | NoPayment | NoKernel | Served signed_receipt | SignFailed

definition payment_receipt ::
  "'k receipt_sdk \<Rightarrow> 'k option \<Rightarrow> (string \<Rightarrow> json option) \<Rightarrow> u64 \<Rightarrow> string \<Rightarrow> 'b db \<Rightarrow> receipt_reply" where
  "payment_receipt n signer parse now pid d =
     (case signer of
        None \<Rightarrow> NoSigner
      | Some keys \<Rightarrow>
          (case lookup_by pay_slate_id (Some pid) (payments d) of
             None \<Rightarrow> NoPayment
           | Some p \<Rightarrow>
               (case kernel p of
                  None \<Rightarrow> NoKernel
                | Some excess \<Rightarrow>
                    (case sign_receipt n keys
                        \<lparr>rcp_version = RECEIPT_VERSION, rcp_payment_id = pid, rcp_amount = as_u64 (pay_amount p),
                         rcp_kernel_excess = excess, rcp_confirmed_height = map_option as_u64 (confirmed_height p),
                         rcp_confirmations = None, rcp_proof = Option.bind (proof_blob p) parse,
                         rcp_issued_at = format_unix_utc now, rcp_server_pubkey = []\<rparr> of
                       Inr s \<Rightarrow> Served s
                     | Inl _ \<Rightarrow> SignFailed))))"

subsection \<open>What is encoded is read back\<close>

lemma hex_digit_code: "d < 16 \<Longrightarrow> (of_char (hex_digit d) :: nat) = (if d < 10 then 48 + d else 87 + d)"
  by (auto simp: hex_digit_def take_bit_eq_mod)

lemma radix16_digit: "d < 16 \<Longrightarrow> radix16 (hex_digit d) = Some d"
  by (simp add: radix16_def hex_digit_code Let_def)

lemma hex_digit_shape:
  assumes "d < 16"
  shows "\<not> continuation (hex_digit d)" "hex_digit d \<noteq> CHR ''+''" "\<not> ws1 (hex_digit d)" "(of_char (hex_digit d) :: nat) < 128"
proof -
  show "(of_char (hex_digit d) :: nat) < 128" using assms by (simp add: hex_digit_code)
  then show "\<not> continuation (hex_digit d)" by (simp add: continuation_def)
  have "48 \<le> (of_char (hex_digit d) :: nat)" using assms by (simp add: hex_digit_code)
  then show "hex_digit d \<noteq> CHR ''+''" "\<not> ws1 (hex_digit d)" by (auto simp: ws1_def)
qed

lemma nibbles: "unat (w :: u8) div 16 < 16" "unat (w :: u8) mod 16 < 16"
proof -
  have "unat w < 2 ^ LENGTH(8)" by (rule unsigned_less)
  then show "unat w div 16 < 16" by (simp add: div_less_iff_less_mult)
qed simp

lemma decode_pairs_hex: "decode_pairs (hex_encode bs) = Gives (Some bs)"
proof (induction bs)
  case (Cons w bs)
  have "unat w = 16 * (unat w div 16) + unat w mod 16" by simp
  then have "(word_of_nat (16 * (unat w div 16) + unat w mod 16) :: u8) = w" by simp
  then have "parse_byte (hex_digit (unat w div 16)) (hex_digit (unat w mod 16)) = Some w"
    using nibbles [of w] by (simp add: parse_byte_def radix16_digit hex_digit_shape)
  moreover have "hex_encode bs \<noteq> [] \<longrightarrow> \<not> continuation (hd (hex_encode bs))"
    by (cases bs) (simp_all add: hex_encode_def hex_byte_def hex_digit_shape nibbles)
  ultimately show ?case
    using Cons by (cases bs) (simp_all add: hex_encode_def hex_byte_def hex_digit_shape nibbles)
qed (simp add: hex_encode_def)

lemma trim_hex: "trim (hex_encode bs) = hex_encode bs"
proof (cases bs)
  case Nil
  then show ?thesis by (simp add: hex_encode_def trim_id)
next
  case (Cons w ws)
  then have "bs \<noteq> []" by simp
  then obtain vs v where v: "bs = vs @ [v]" by (metis rev_exhaust)
  have "ws_len (hex_encode bs) = 0"
    unfolding Cons hex_encode_def hex_byte_def
    by (simp, rule ws_len_ascii(1)) (simp_all add: hex_digit_shape nibbles)
  moreover have "ws_len_rev (rev (hex_encode bs)) = 0"
    unfolding v hex_encode_def hex_byte_def
    by (simp, rule ws_len_ascii(2)) (simp_all add: hex_digit_shape nibbles)
  ultimately show ?thesis by (rule trim_id)
qed

lemma decode_fixed_hex: "length bs = k \<Longrightarrow> decode_fixed k (hex_encode bs) = Gives (Some bs)"
  by (simp add: decode_fixed_def trim_hex length_hex_encode decode_pairs_hex)

text \<open>
  Two oddities of the reader. It takes a plus sign for a leading zero, so a signature has several
  texts; and text with a character of several bytes at an even position makes the slice panic,
  where the doc comment promises \<open>false\<close> on any malformed field.
\<close>

lemma plus_is_zero: "decode_fixed 1 ''+7'' = Gives (Some [7])" "decode_fixed 1 ''07'' = Gives (Some [7])"
  by code_simp+

lemma malformed_panics:
  "decode_fixed 2 [CHR ''0'', CHR 0xC3, CHR 0xA9, CHR ''0''] = Panics"
  by code_simp

lemma ascii_never_panics:
  assumes "\<forall>c \<in> set hex. (of_char c :: nat) < 128"
  shows "decode_fixed k hex \<noteq> Panics"
proof -
  have plain: "\<forall>c \<in> set s. (of_char c :: nat) < 128 \<Longrightarrow> decode_pairs s \<noteq> Panics" for s
    by (induction s rule: decode_pairs.induct)
       (auto simp: continuation_def not_le dest: list.set_sel(1) split: option.splits outcome.splits)
  have "\<forall>c \<in> set (trim hex). (of_char c :: nat) < 128" using assms trim_bytes by blast
  with plain show ?thesis by (simp add: decode_fixed_def Let_def)
qed

subsection \<open>What a receipt proves\<close>

text \<open>
  BIP-340: a valid key has a point with a 32-byte x coordinate, signatures have 64 bytes, and the
  signature made with a key verifies under its point.
\<close>

definition schnorr_laws :: "'k receipt_sdk \<Rightarrow> bool" where
  "schnorr_laws n \<longleftrightarrow>
     (\<forall>k sk. rs_secret n k = Inr sk \<longrightarrow> length (rs_xonly n sk) = 32 \<and> rs_point n (rs_xonly n sk) \<and>
        (\<forall>digest. length (rs_sign n digest sk) = 64 \<and> rs_verify n (rs_sign n digest sk) digest (rs_xonly n sk)))"

lemma sign_receipt_verifies:
  assumes "schnorr_laws n" "sign_receipt n k r = Inr s"
  obtains sk where "rs_secret n k = Inr sk" "sr_receipt s = r\<lparr>rcp_server_pubkey := hex_encode (rs_xonly n sk)\<rparr>"
    "verify_receipt n s = Gives True"
proof -
  obtain sk digest where s: "rs_secret n k = Inr sk"
      "receipt_digest n (r\<lparr>rcp_server_pubkey := hex_encode (rs_xonly n sk)\<rparr>) = Inr digest"
      "s = \<lparr>sr_receipt = r\<lparr>rcp_server_pubkey := hex_encode (rs_xonly n sk)\<rparr>, sr_sig = hex_encode (rs_sign n digest sk)\<rparr>"
    using assms(2) by (auto simp: sign_receipt_def Let_def split: sum.splits)
  have l: "length (rs_xonly n sk) = 32" "rs_point n (rs_xonly n sk)" "length (rs_sign n digest sk) = 64"
      "rs_verify n (rs_sign n digest sk) digest (rs_xonly n sk)"
    using assms(1) s(1) by (auto simp: schnorr_laws_def)
  then have "verify_receipt n s = Gives True"
    using s by (simp add: verify_receipt_def decode_fixed_hex)
  with s show ?thesis by (intro that) simp_all
qed

text \<open>C19: the receipt page serves only receipts that verify, about the payment that was asked for: its
  amount, kernel and confirmation height are those of the stored payment, its key is the server's
  own, and anyone who verifies it against that key, in either letter case, succeeds.\<close>

theorem served_receipt_verifies:
  assumes "schnorr_laws n" "payment_receipt n (Some k) parse now pid d = Served s" "rs_secret n k = Inr sk"
    and "map ascii_lower (trim expected) = map ascii_lower (hex_encode (rs_xonly n sk))"
  shows "verify_receipt_from n s expected = Gives True \<and>
    (\<exists>p \<in> set (payments d). pay_slate_id p = Some pid \<and> rcp_payment_id (sr_receipt s) = pid \<and>
       as_i64 (rcp_amount (sr_receipt s)) = as_i64 (as_u64 (pay_amount p)) \<and>
       kernel p = Some (rcp_kernel_excess (sr_receipt s)) \<and>
       rcp_confirmed_height (sr_receipt s) = map_option as_u64 (confirmed_height p)) \<and>
    rcp_server_pubkey (sr_receipt s) = hex_encode (rs_xonly n sk)"
proof -
  obtain p r where p: "lookup_by pay_slate_id (Some pid) (payments d) = Some p"
      "sign_receipt n k r = Inr s" "rcp_payment_id r = pid" "rcp_amount r = as_u64 (pay_amount p)"
      "kernel p = Some (rcp_kernel_excess r)" "rcp_confirmed_height r = map_option as_u64 (confirmed_height p)"
    using assms(2) by (auto simp: payment_receipt_def split: option.splits sum.splits)
  obtain sk' where s: "rs_secret n k = Inr sk'" "sr_receipt s = r\<lparr>rcp_server_pubkey := hex_encode (rs_xonly n sk')\<rparr>"
      "verify_receipt n s = Gives True" by (rule sign_receipt_verifies [OF assms(1) p(2)])
  then have "sk' = sk" using assms(3) by simp
  then have "verify_receipt_from n s expected = Gives True"
    using s assms(4) by (simp add: verify_receipt_from_def)
  moreover have "p \<in> set (payments d)" "pay_slate_id p = Some pid" using lookup_by_Some [OF p(1)] by auto
  ultimately show ?thesis using p s \<open>sk' = sk\<close> by auto
qed


subsection \<open>Samples\<close>

definition sample_schnorr :: "string receipt_sdk" where
  "sample_schnorr =
     \<lparr>rs_secret = (\<lambda>k. Inr (map (\<lambda>c. word_of_nat (of_char c)) k)), rs_xonly = (\<lambda>sk. take 32 (sk @ replicate 32 0)),
      rs_to_vec = (\<lambda>r. Inr (rcp_payment_id r)), rs_sha = map (\<lambda>c. word_of_nat (of_char c)),
      rs_sign = (\<lambda>digest sk. take 64 (take 32 (sk @ replicate 32 0) @ digest @ replicate 64 0)),
      rs_point = (\<lambda>_. True), rs_verify = (\<lambda>sg digest pk. sg = take 64 (pk @ digest @ replicate 64 0))\<rparr>"

lemma sample_schnorr_laws: "schnorr_laws sample_schnorr"
  by (auto simp: schnorr_laws_def sample_schnorr_def)

definition receipt_row :: payment where
  "receipt_row =
     \<lparr>pay_id = ''p'', pay_amount = 700, payer = None, pay_slate_id = Some ''p'', kernel = Some ''08ab'', proof_blob = None,
      pay_status = ''confirmed'', confirmed_height = Some 9, pay_created_at = 1, s2_armor = None, pay_confirmed_at = None,
      pay_invoice_id = None, pay_user_id = None, recipient = None, confirmations = 3\<rparr>"

theorem served_receipt_verifies_witness:
  "\<exists>s. payment_receipt sample_schnorr (Some ''K'') (\<lambda>_. None) 0 ''p'' ((empty_db :: string db)\<lparr>payments := [receipt_row]\<rparr>) = Served s \<and>
     verify_receipt_from sample_schnorr s (''4B'' @ replicate 62 (CHR ''0'')) = Gives True \<and>
     rcp_kernel_excess (sr_receipt s) = ''08ab''"
proof -
  let ?d = "(empty_db :: string db)\<lparr>payments := [receipt_row]\<rparr>"
  obtain s where s: "payment_receipt sample_schnorr (Some ''K'') (\<lambda>_. None) 0 ''p'' ?d = Served s"
    by (simp add: payment_receipt_def empty_db_def receipt_row_def sign_receipt_def sample_schnorr_def receipt_digest_def Let_def)
  have key: "rs_secret sample_schnorr ''K'' = Inr [75]" by (simp add: sample_schnorr_def)
  have "map ascii_lower (trim (''4B'' @ replicate 62 (CHR ''0''))) = map ascii_lower (hex_encode (rs_xonly sample_schnorr [75]))"
    by code_simp
  note v = served_receipt_verifies [OF sample_schnorr_laws s key this]
  have "payments ?d = [receipt_row]" "kernel receipt_row = Some ''08ab''" by (simp_all add: empty_db_def receipt_row_def)
  with v have "rcp_kernel_excess (sr_receipt s) = ''08ab''" by simp
  with v s show ?thesis by blast
qed

definition signed_sample :: signed_receipt where
  "signed_sample =
     \<lparr>sr_receipt = \<lparr>rcp_version = 1, rcp_payment_id = ''p'', rcp_amount = 7, rcp_kernel_excess = ''08'', rcp_confirmed_height = None,
        rcp_confirmations = None, rcp_proof = None, rcp_issued_at = ''now'', rcp_server_pubkey = replicate 64 (CHR ''0'')\<rparr>,
      sr_sig = replicate 128 (CHR ''0'')\<rparr>"

text \<open>Crates under which only that receipt was ever signed.\<close>

definition one_receipt :: "string receipt_sdk" where
  "one_receipt = sample_schnorr
     \<lparr>rs_to_vec := (\<lambda>r. if r = sr_receipt signed_sample then Inr ''R'' else Inl ''unknown''),
      rs_verify := (\<lambda>sg digest pk. digest = [82])\<rparr>"

lemma hex_zeros: "hex_encode (replicate k 0) = replicate (2 * k) (CHR ''0'')"
proof (induction k)
  case (Suc k)
  have "hex_byte 0 = ''00''" by code_simp
  with Suc show ?case by (simp add: hex_encode_def)
qed (simp add: hex_encode_def)


end
