(* ===== verification/Onion.thy ===== *)
theory Onion
  imports Wallet
begin

text \<open>
  \<open>crates/gp-server/src/tor.rs\<close> and the wallet's key reads it rests on: the onion identity as the
  wallet's slatepack key, and the launch of the service as the trace of its calls into arti and of
  the messages on its channel. Arti, dalek and tor-hscrypto are a parameter, which decides for every
  call how it ends.
\<close>

subsection \<open>Reads of the wallet\<close>

text \<open>\<open>kr_address\<close>, \<open>kr_secret\<close>: derivation index 0. \<open>kr_decode\<close>: the bech32 decoder. \<open>kr_summary\<close>: without a node refresh.\<close>

record 'w key_reads =
  kr_address :: "'w \<Rightarrow> string + string"
  kr_secret :: "'w \<Rightarrow> string + bytes"
  kr_summary :: "'w \<Rightarrow> string + u64 \<times> u64"
  kr_decode :: "string \<Rightarrow> string + bytes"

definition slatepack_address :: "'w key_reads \<Rightarrow> ('w, string) wop" where
  "slatepack_address k = reads WalletError (kr_address k)"

definition slatepack_secret_seed :: "'w key_reads \<Rightarrow> ('w, bytes) wop" where
  "slatepack_secret_seed k = reads WalletError (kr_secret k)"

definition slatepack_address_pubkey :: "'w key_reads \<Rightarrow> string \<Rightarrow> wallet_error + bytes" where
  "slatepack_address_pubkey k addr =
     (case kr_decode k (trim addr) of
        Inl e \<Rightarrow> Inl (SlatepackError (''bad slatepack address `'' @ addr @ ''`: '' @ e))
      | Inr pk \<Rightarrow> Inr pk)"

record balance =
  bal_total :: u64
  bal_spendable :: u64

definition wallet_balance :: "'w key_reads \<Rightarrow> ('w, balance) wop" where
  "wallet_balance k =
     seqw (reads WalletError (kr_summary k)) (\<lambda>(total, spendable).
       ret \<lparr>bal_total = total, bal_spendable = spendable\<rparr>)"

text \<open>\<open>probe_node\<close>: the client of a URL, then its tip.\<close>

definition probe_node :: "(string \<Rightarrow> 'c option) \<Rightarrow> ('c \<Rightarrow> string + 't) \<Rightarrow> string \<Rightarrow> bool" where
  "probe_node client tip url =
     (case client url of None \<Rightarrow> False | Some c \<Rightarrow> (case tip c of Inl _ \<Rightarrow> False | Inr _ \<Rightarrow> True))"

subsection \<open>The calls of a launch\<close>

definition NICKNAME :: string where "NICKNAME = ''goblinpay''"
definition BOOTSTRAP_TIMEOUT :: nat where "BOOTSTRAP_TIMEOUT = 300"

datatype 'kp arti_call =
  CreateDir string
| ChmodDir string nat
| TorConfig string string bool
| Nickname string
| OpenKeystore string
| BuildKeyManager
| InsertPublic string bytes
| InsertPair string 'kp
| CreateRuntime
| CreateClient
| Bootstrap nat
| ServiceConfig string
| LaunchService string
| ProxyConfig nat string nat
| HandleRequests string

text \<open>How a call ends: \<open>Elapsed\<close> is the bootstrap deadline, \<open>Disabled\<close> a service arti's configuration turns off.\<close>

datatype outcome = Succeeds | Fails string | Elapsed | Disabled

datatype 'kp onion_event = Called "'kp arti_call" | Sent "string + string"

datatype halt = Stopped string | Panicked

record 'kp arti =
  ar_sha512 :: "bytes \<Rightarrow> bytes"
  ar_expand :: "bytes \<Rightarrow> bytes \<times> bytes"
  ar_keypair :: "bytes \<Rightarrow> 'kp option"
  ar_public :: "'kp \<Rightarrow> bytes"
  ar_onion :: "bytes \<Rightarrow> string"
  ar_outcome :: "'kp onion_event list \<Rightarrow> 'kp arti_call \<Rightarrow> outcome"
  ar_dbg :: "string \<Rightarrow> string"

type_synonym ('kp, 'a) launch = "'kp onion_event list \<Rightarrow> (halt + 'a) \<times> 'kp onion_event list"

definition then_do :: "('kp, 'a) launch \<Rightarrow> ('a \<Rightarrow> ('kp, 'b) launch) \<Rightarrow> ('kp, 'b) launch" where
  "then_do m k tr = (case m tr of (Inl h, tr') \<Rightarrow> (Inl h, tr') | (Inr x, tr') \<Rightarrow> k x tr')"

definition call_arti :: "'kp arti \<Rightarrow> (outcome \<Rightarrow> string) \<Rightarrow> 'kp arti_call \<Rightarrow> ('kp, unit) launch" where
  "call_arti A report c tr =
     (let r = ar_outcome A tr c in
      if r = Succeeds then (Inr (), tr @ [Called c]) else (Inl (Stopped (report r)), tr))"

text \<open>\<open>.map_err(|e| format!("what: {e}"))\<close>.\<close>

definition failing :: "string \<Rightarrow> outcome \<Rightarrow> string" where
  "failing what r = what @ '': '' @ (case r of Fails e \<Rightarrow> e | _ \<Rightarrow> [])"

definition send_msg :: "string + string \<Rightarrow> ('kp, unit) launch" where
  "send_msg m tr = (Inr (), tr @ [Sent m])"

subsection \<open>Keys and addresses\<close>

text \<open>\<open>None\<close> is the panic of \<open>expect\<close>.\<close>

definition expanded_keypair :: "'kp arti \<Rightarrow> bytes \<Rightarrow> 'kp option" where
  "expanded_keypair A seed =
     (let (scalar, prefix) = ar_expand A (ar_sha512 A seed) in ar_keypair A (scalar @ prefix))"

definition onion_address_from_seed :: "'kp arti \<Rightarrow> bytes \<Rightarrow> string option" where
  "onion_address_from_seed A seed = map_option (\<lambda>kp. ar_onion A (ar_public A kp)) (expanded_keypair A seed)"

definition onion_address_from_pubkey :: "'kp arti \<Rightarrow> bytes \<Rightarrow> string" where
  "onion_address_from_pubkey A pubkey = ar_onion A pubkey"

definition or_panic :: "'a option \<Rightarrow> ('kp, 'a) launch" where
  "or_panic x tr = (case x of None \<Rightarrow> (Inl Panicked, tr) | Some y \<Rightarrow> (Inr y, tr))"

definition add_service_key :: "'kp arti \<Rightarrow> bytes \<Rightarrow> string \<Rightarrow> string \<Rightarrow> ('kp, unit) launch" where
  "add_service_key A seed keystore_dir nickname =
     then_do (call_arti A (failing (''open keystore '' @ ar_dbg A keystore_dir)) (OpenKeystore keystore_dir)) (\<lambda>_.
     then_do (call_arti A (failing ''build key manager'') BuildKeyManager) (\<lambda>_.
     then_do (or_panic (expanded_keypair A seed)) (\<lambda>kp.
     then_do (call_arti A (failing ''insert service public key'') (InsertPublic nickname (ar_public A kp))) (\<lambda>_.
     call_arti A (failing ''insert service keypair'') (InsertPair nickname kp)))))"

subsection \<open>The service\<close>

text \<open>\<open>run\<close> never returns \<open>Ok\<close>: the proxy it ends in reports its own end as an error.\<close>

definition run_onion :: "'kp arti \<Rightarrow> string \<Rightarrow> bytes \<Rightarrow> nat \<Rightarrow> ('kp, unit) launch" where
  "run_onion A dir seed local_port =
     (let tor_dir = join_path dir ''tor''; state_dir = join_path tor_dir ''state'';
          cache_dir = join_path tor_dir ''cache''; keystore_dir = join_path state_dir ''keystore'';
          mode = (\<lambda>d. call_arti A (failing (''chmod '' @ ar_dbg A d)) (ChmodDir d 0x1C0)) in
     then_do (call_arti A (failing (''create '' @ ar_dbg A state_dir)) (CreateDir state_dir)) (\<lambda>_.
     then_do (call_arti A (failing (''create '' @ ar_dbg A cache_dir)) (CreateDir cache_dir)) (\<lambda>_.
     then_do (mode tor_dir) (\<lambda>_. then_do (mode state_dir) (\<lambda>_. then_do (mode cache_dir) (\<lambda>_.
     then_do (call_arti A (failing ''tor config'') (TorConfig state_dir cache_dir True)) (\<lambda>_.
     then_do (call_arti A (failing ''service nickname'') (Nickname NICKNAME)) (\<lambda>_.
     then_do (add_service_key A seed keystore_dir NICKNAME) (\<lambda>_.
     then_do (or_panic (onion_address_from_seed A seed)) (\<lambda>onion_address.
     then_do (call_arti A (failing ''tor runtime'') CreateRuntime) (\<lambda>_.
     then_do (call_arti A (failing ''tor client'') CreateClient) (\<lambda>_.
     then_do (call_arti A (\<lambda>r. if r = Elapsed then ''tor bootstrap timed out after '' @ show_nat BOOTSTRAP_TIMEOUT @ ''s''
                               else failing ''tor bootstrap'' r) (Bootstrap BOOTSTRAP_TIMEOUT)) (\<lambda>_.
     then_do (call_arti A (failing ''onion service config'') (ServiceConfig NICKNAME)) (\<lambda>_.
     then_do (call_arti A (\<lambda>r. if r = Disabled then ''onion service disabled in arti config''
                               else failing ''launch onion service'' r) (LaunchService NICKNAME)) (\<lambda>_.
     then_do (call_arti A (failing ''proxy config'') (ProxyConfig 80 ''127.0.0.1'' local_port)) (\<lambda>_.
     then_do (send_msg (Inr onion_address)) (\<lambda>_.
     then_do (call_arti A (failing ''onion service proxy failed'') (HandleRequests NICKNAME)) (\<lambda>_.
     (\<lambda>tr. (Inl (Stopped ''onion service proxy terminated''), tr))))))))))))))))))))"

text \<open>The trace of a launch; \<open>started\<close>: the thread could be spawned.\<close>

definition spawn_onion :: "'kp arti \<Rightarrow> bool \<Rightarrow> string \<Rightarrow> bytes \<Rightarrow> nat \<Rightarrow> 'kp onion_event list" where
  "spawn_onion A started dir seed local_port =
     (if \<not> started then []
      else (case run_onion A dir seed local_port [] of
              (Inl (Stopped e), tr) \<Rightarrow> tr @ [Sent (Inl e)]
            | (_, tr) \<Rightarrow> tr))"

definition messages :: "'kp onion_event list \<Rightarrow> (string + string) list" where
  "messages tr = concat (List.map (\<lambda>e. case e of Sent m \<Rightarrow> [m] | Called _ \<Rightarrow> []) tr)"

text \<open>What \<open>main\<close> reports of a launch: it receives once.\<close>

definition onion_report :: "(string + string) list \<Rightarrow> string" where
  "onion_report msgs =
     (case msgs of
        Inr addr # _ \<Rightarrow> ''grin1 onion service running at http://'' @ addr
      | Inl e # _ \<Rightarrow> ''grin1 onion service failed: '' @ e
      | [] \<Rightarrow> ''grin1 onion service exited before reporting'')"

subsection \<open>Traces\<close>

lemma messages_append [simp]: "messages (a @ b) = messages a @ messages b"
  by (simp add: messages_def)

lemma messages_simps [simp]:
  "messages [] = []" "messages (Called c # tr) = messages tr" "messages (Sent m # tr) = m # messages tr"
  by (simp_all add: messages_def)

text \<open>A launch that sends a message has made every call before it.\<close>

lemma then_do_assoc: "then_do (then_do m k) l = then_do m (\<lambda>x. then_do (k x) l)"
  by (rule ext) (simp add: then_do_def split: prod.split sum.split)

lemma call_step:
  "messages tr = [] \<Longrightarrow> messages tr' \<noteq> [] \<Longrightarrow>
     then_do (call_arti A f c) k tr = (r, tr') \<longleftrightarrow> ar_outcome A tr c = Succeeds \<and> k () (tr @ [Called c]) = (r, tr')"
  by (auto simp: then_do_def call_arti_def Let_def)

lemma panic_step:
  "messages tr = [] \<Longrightarrow> messages tr' \<noteq> [] \<Longrightarrow>
     then_do (or_panic x) k tr = (r, tr') \<longleftrightarrow> (\<exists>y. x = Some y \<and> k y tr = (r, tr'))"
  by (auto simp: then_do_def or_panic_def split: option.split)

lemma send_step: "then_do (send_msg m) k tr = k () (tr @ [Sent m])"
  by (simp add: then_do_def send_msg_def)

lemma last_step: "then_do (call_arti A f c) k tr = (r, tr') \<Longrightarrow> (\<And>t. snd (k () t) = t) \<Longrightarrow> tr' = tr \<or> tr' = tr @ [Called c]"
  by (auto simp: then_do_def call_arti_def Let_def split: if_splits prod.splits) (metis snd_conv)

text \<open>The only message a launch sends is its address, and by then every call before it has succeeded.\<close>

lemma run_onion_trace:
  assumes "run_onion A d seed port [] = (r, tr)"
  shows "messages tr = [] \<or>
    (\<exists>kp post. expanded_keypair A seed = Some kp \<and> messages tr = [Inr (ar_onion A (ar_public A kp))] \<and>
       tr = [Called (CreateDir (join_path (join_path d ''tor'') ''state'')), Called (CreateDir (join_path (join_path d ''tor'') ''cache'')),
         Called (ChmodDir (join_path d ''tor'') 0x1C0), Called (ChmodDir (join_path (join_path d ''tor'') ''state'') 0x1C0),
         Called (ChmodDir (join_path (join_path d ''tor'') ''cache'') 0x1C0),
         Called (TorConfig (join_path (join_path d ''tor'') ''state'') (join_path (join_path d ''tor'') ''cache'') True),
         Called (Nickname NICKNAME), Called (OpenKeystore (join_path (join_path (join_path d ''tor'') ''state'') ''keystore'')),
         Called BuildKeyManager, Called (InsertPublic NICKNAME (ar_public A kp)), Called (InsertPair NICKNAME kp),
         Called CreateRuntime, Called CreateClient, Called (Bootstrap BOOTSTRAP_TIMEOUT), Called (ServiceConfig NICKNAME),
         Called (LaunchService NICKNAME), Called (ProxyConfig 80 ''127.0.0.1'' port),
         Sent (Inr (ar_onion A (ar_public A kp)))] @ post \<and> set post \<subseteq> {Called (HandleRequests NICKNAME)})"
proof (cases "messages tr = []")
  case False
  from assms obtain kp tr0 where kp: "expanded_keypair A seed = Some kp"
    and tr0: "tr0 = [Called (CreateDir (join_path (join_path d ''tor'') ''state'')), Called (CreateDir (join_path (join_path d ''tor'') ''cache'')),
         Called (ChmodDir (join_path d ''tor'') 0x1C0), Called (ChmodDir (join_path (join_path d ''tor'') ''state'') 0x1C0),
         Called (ChmodDir (join_path (join_path d ''tor'') ''cache'') 0x1C0),
         Called (TorConfig (join_path (join_path d ''tor'') ''state'') (join_path (join_path d ''tor'') ''cache'') True),
         Called (Nickname NICKNAME), Called (OpenKeystore (join_path (join_path (join_path d ''tor'') ''state'') ''keystore'')),
         Called BuildKeyManager, Called (InsertPublic NICKNAME (ar_public A kp)), Called (InsertPair NICKNAME kp),
         Called CreateRuntime, Called CreateClient, Called (Bootstrap BOOTSTRAP_TIMEOUT), Called (ServiceConfig NICKNAME),
         Called (LaunchService NICKNAME), Called (ProxyConfig 80 ''127.0.0.1'' port),
         Sent (Inr (ar_onion A (ar_public A kp)))]"
    and last: "then_do (call_arti A (failing ''onion service proxy failed'') (HandleRequests NICKNAME))
       (\<lambda>_ t. (Inl (Stopped ''onion service proxy terminated''), t)) tr0 = (r, tr)"
    unfolding run_onion_def add_service_key_def Let_def onion_address_from_seed_def then_do_assoc
    by (simp only: call_step [OF _ False] panic_step [OF _ False] send_step messages_append messages_simps append.simps
        option.map option.inject) auto
  from last_step [OF last] have "tr = tr0 \<or> tr = tr0 @ [Called (HandleRequests NICKNAME)]" by simp
  with kp tr0 show ?thesis by (intro disjI2 exI [of _ kp] exI [of _ "drop (length tr0) tr"]) auto
qed simp

lemma run_onion_stops: "\<exists>h. fst (run_onion A d seed port tr) = Inl h"
proof -
  have stops: "(\<And>x t. \<exists>h. fst (k x t) = Inl h) \<Longrightarrow> \<exists>h. fst (then_do m k t) = Inl h"
    for m :: "('a, 'c) launch" and k :: "'c \<Rightarrow> ('a, 'b) launch" and t
    by (auto simp: then_do_def split: prod.split sum.split)
  show ?thesis unfolding run_onion_def Let_def by (intro stops) simp
qed

text \<open>
  What the wallet and the crates promise: a seed expands to a keypair whose public half is \<open>pub seed\<close>,
  and the slatepack address of a wallet decodes to the public half of its secret.
\<close>

definition onion_laws :: "'kp arti \<Rightarrow> 'w key_reads \<Rightarrow> (bytes \<Rightarrow> bytes) \<Rightarrow> bool" where
  "onion_laws A k pub \<longleftrightarrow>
     (\<forall>seed. map_option (ar_public A) (expanded_keypair A seed) = Some (pub seed)) \<and>
     (\<forall>w a s. kr_address k w = Inr a \<longrightarrow> kr_secret k w = Inr s \<longrightarrow> kr_decode k (trim a) = Inr (pub s))"

text \<open>C38: the onion service is the wallet's. Whatever arti does, an address that a launch announces is the onion
  encoding of the key of the till's own grin1 address; the keys of that identity were filed under the
  service's nickname, in a private directory, before the service was launched, and all it forwards is
  port 80 to the Foreign API on the loopback interface.\<close>

theorem announced_onion_is_wallets:
  assumes "onion_laws A k pub" "slatepack_secret_seed k w = (Inr seed, w)" "slatepack_address k w = (Inr grin1, w)"
    and "messages (spawn_onion A started d seed port) = Inr addr # rest"
  shows "\<exists>pk kp before between after.
    slatepack_address_pubkey k grin1 = Inr pk \<and> addr = onion_address_from_pubkey A pk \<and> ar_public A kp = pk \<and>
    spawn_onion A started d seed port = before @ Called (LaunchService NICKNAME) # between @ Sent (Inr addr) # after \<and>
    {Called (InsertPublic NICKNAME pk), Called (InsertPair NICKNAME kp), Called (ChmodDir (join_path d ''tor'') 0x1C0)} \<subseteq> set before \<and>
    Called (ProxyConfig 80 ''127.0.0.1'' port) \<in> set between \<and>
    (\<forall>p host q. Called (ProxyConfig p host q) \<in> set (spawn_onion A started d seed port) \<longrightarrow> (p, host, q) = (80, ''127.0.0.1'', port))"
proof -
  let ?dirs = "[Called (CreateDir (join_path (join_path d ''tor'') ''state'')), Called (CreateDir (join_path (join_path d ''tor'') ''cache'')),
         Called (ChmodDir (join_path d ''tor'') 0x1C0), Called (ChmodDir (join_path (join_path d ''tor'') ''state'') 0x1C0),
         Called (ChmodDir (join_path (join_path d ''tor'') ''cache'') 0x1C0),
         Called (TorConfig (join_path (join_path d ''tor'') ''state'') (join_path (join_path d ''tor'') ''cache'') True),
         Called (Nickname NICKNAME), Called (OpenKeystore (join_path (join_path (join_path d ''tor'') ''state'') ''keystore'')),
         Called BuildKeyManager]"
  let ?keys = "\<lambda>kp. ?dirs @ [Called (InsertPublic NICKNAME (ar_public A kp)), Called (InsertPair NICKNAME kp)]"
  let ?start = "[Called CreateRuntime, Called CreateClient, Called (Bootstrap BOOTSTRAP_TIMEOUT), Called (ServiceConfig NICKNAME)]"
  obtain h tr where run: "run_onion A d seed port [] = (Inl h, tr)"
    using run_onion_stops [of A d seed port "[]"] by (metis prod.collapse)
  have started using assms(4) by (auto simp: spawn_onion_def split: if_splits)
  let ?last = "case h of Stopped e \<Rightarrow> [Sent (Inl e)] | Panicked \<Rightarrow> []"
  from \<open>started\<close> have spawned: "spawn_onion A started d seed port = tr @ ?last"
    by (simp add: spawn_onion_def run split: halt.split)
  from spawned have "messages tr \<noteq> []" using assms(4) by (auto split: halt.splits)
  with run_onion_trace [OF run] obtain kp post where kp: "expanded_keypair A seed = Some kp"
    and msg: "messages tr = [Inr (ar_onion A (ar_public A kp))]"
    and tr: "tr = ?keys kp @ ?start @ [Called (LaunchService NICKNAME), Called (ProxyConfig 80 ''127.0.0.1'' port),
         Sent (Inr (ar_onion A (ar_public A kp)))] @ post" and post: "set post \<subseteq> {Called (HandleRequests NICKNAME)}"
    by auto
  from assms(1,2,3) kp have pk: "slatepack_address_pubkey k grin1 = Inr (ar_public A kp)"
    by (auto simp: onion_laws_def slatepack_address_pubkey_def slatepack_secret_seed_def slatepack_address_def reads_Inr
        dest: spec [of _ seed])
  have addr: "addr = ar_onion A (ar_public A kp)" using assms(4) msg by (simp add: spawned)
  show ?thesis
  proof (intro exI conjI)
    show "slatepack_address_pubkey k grin1 = Inr (ar_public A kp)" by (rule pk)
    show "addr = onion_address_from_pubkey A (ar_public A kp)" by (simp add: addr onion_address_from_pubkey_def)
    show "spawn_onion A started d seed port = (?keys kp @ ?start) @ Called (LaunchService NICKNAME) #
        [Called (ProxyConfig 80 ''127.0.0.1'' port)] @ Sent (Inr addr) # (post @ ?last)"
      by (simp add: spawned tr addr)
    show "\<forall>p host q. Called (ProxyConfig p host q) \<in> set (spawn_onion A started d seed port) \<longrightarrow>
        (p, host, q) = (80, ''127.0.0.1'', port)"
      using post by (auto simp: spawned tr split: halt.split)
  qed auto
qed

subsection \<open>A launch\<close>

definition sample_arti :: "bytes arti" where
  "sample_arti =
     \<lparr>ar_sha512 = (\<lambda>s. s), ar_expand = (\<lambda>h. (h, [])), ar_keypair = Some, ar_public = (\<lambda>k. k),
      ar_onion = (\<lambda>pk. hex_encode pk @ ''.onion''),
      ar_outcome = (\<lambda>_ c. case c of HandleRequests _ \<Rightarrow> Fails ''circuit closed'' | _ \<Rightarrow> Succeeds), ar_dbg = (\<lambda>p. p)\<rparr>"

definition sample_reads :: "unit key_reads" where
  "sample_reads =
     \<lparr>kr_address = (\<lambda>_. Inr ''grin1x''), kr_secret = (\<lambda>_. Inr [7]), kr_summary = (\<lambda>_. Inr (0, 0)),
      kr_decode = (\<lambda>_. Inr [7])\<rparr>"

theorem announced_onion_is_wallets_witness:
  "\<exists>pk kp before between after.
    slatepack_address_pubkey sample_reads ''grin1x'' = Inr pk \<and> ''07.onion'' = onion_address_from_pubkey sample_arti pk \<and>
    ar_public sample_arti kp = pk \<and>
    spawn_onion sample_arti True ''/d'' [7] 3415 = before @ Called (LaunchService NICKNAME) # between @ Sent (Inr ''07.onion'') # after \<and>
    {Called (InsertPublic NICKNAME pk), Called (InsertPair NICKNAME kp), Called (ChmodDir (join_path ''/d'' ''tor'') 0x1C0)} \<subseteq> set before \<and>
    Called (ProxyConfig 80 ''127.0.0.1'' 3415) \<in> set between \<and>
    (\<forall>p host q. Called (ProxyConfig p host q) \<in> set (spawn_onion sample_arti True ''/d'' [7] 3415) \<longrightarrow>
       (p, host, q) = (80, ''127.0.0.1'', 3415))"
proof (rule announced_onion_is_wallets [where w = "()"])
  show "onion_laws sample_arti sample_reads (\<lambda>s. s)"
    by (simp add: onion_laws_def expanded_keypair_def sample_arti_def sample_reads_def)
  show "messages (spawn_onion sample_arti True ''/d'' [7] 3415) =
      Inr ''07.onion'' # [Inl ''onion service proxy failed: circuit closed'']" by code_simp
qed (simp_all add: slatepack_secret_seed_def slatepack_address_def reads_def sample_reads_def)

subsection \<open>Observations\<close>

text \<open>
  The channel is documented to yield exactly one message. When the proxy ends, a second one follows the
  address; when the thread does not start, or panics, there is none. \<open>main\<close> receives once, so the second is lost.
\<close>

lemma second_message:
  "messages (spawn_onion sample_arti True ''/d'' [7] 3415) =
     [Inr ''07.onion'', Inl ''onion service proxy failed: circuit closed'']"
  "messages (spawn_onion sample_arti False ''/d'' [7] 3415) = []"
  by code_simp+

lemma at_most_two_messages: "length (messages (spawn_onion A started d seed port)) \<le> 2"
proof -
  obtain h tr where run: "run_onion A d seed port [] = (Inl h, tr)"
    using run_onion_stops [of A d seed port "[]"] by (metis prod.collapse)
  have "length (messages tr) \<le> 1" using run_onion_trace [OF run] by (elim disjE exE conjE) simp_all
  then show ?thesis by (simp add: spawn_onion_def run split: halt.split)
qed

end
