(* ===== verification/Http.thy ===== *)
theory Http
  imports Admin Receipt Lifecycle Onion
begin

text \<open>
  The HTTP surface of the server: the route table (\<open>routes\<close> of \<open>main.rs\<close> and the \<open>configure\<close> functions of the
  handler modules), dispatch, and one request as a step of the server. What actix-web does before a
  handler runs is in the request: its body, form and query are already extracted, or missing when the
  extraction failed. Percent decoding of a path parameter is a parameter of the site.
\<close>

subsection \<open>Routing\<close>

datatype http_method = GET | POST | OtherMethod string

datatype path_seg = Lit string | Param

text \<open>A path is split at its slashes; \<open>{name}\<close> matches one segment that is not empty.\<close>

definition segments :: "string \<Rightarrow> string list" where
  "segments p = tl (split_on (CHR ''/'') p)"

definition pattern :: "string \<Rightarrow> path_seg list" where
  "pattern p = List.map (\<lambda>s. if starts_with ''{'' s then Param else Lit s) (segments p)"

fun match_path :: "path_seg list \<Rightarrow> string list \<Rightarrow> string list option" where
  "match_path [] [] = Some []"
| "match_path (Lit l # pat) (s # ss) = (if s = l then match_path pat ss else None)"
| "match_path (Param # pat) (s # ss) = (if s = [] then None else map_option ((#) s) (match_path pat ss))"
| "match_path _ _ = None"

datatype endpoint =
  AtIndex | AtHealth | AtStatic string
| AtPayment string | AtReceipt string
| AtPayPage string | AtPayStatus string | AtPaste string
| AtCreateInvoice | AtInvoice string
| AtDashboard | AtPayments | AtUsers | AtCreateUser | AtUser string | AtRotate string | AtInterval string | AtWebhooks

type_synonym route = "http_method \<times> string \<times> (string list \<Rightarrow> endpoint)"

text \<open>The first route of the table that fits; each carries its method as a guard.\<close>

fun dispatch :: "route list \<Rightarrow> http_method \<Rightarrow> string list \<Rightarrow> endpoint option" where
  "dispatch [] meth ss = None"
| "dispatch ((meth', pat, at') # rs) meth ss =
     (case (if meth = meth' then match_path (pattern pat) ss else None) of
        Some vs \<Rightarrow> Some (at' vs)
      | None \<Rightarrow> dispatch rs meth ss)"

definition payments_routes :: "route list" where
  "payments_routes =
     [(GET, ''/payment/{id}'', \<lambda>v. AtPayment (hd v)), (GET, ''/payment/{id}/receipt'', \<lambda>v. AtReceipt (hd v))]"

definition checkout_routes :: "route list" where
  "checkout_routes =
     [(GET, ''/pay/{token}'', \<lambda>v. AtPayPage (hd v)), (GET, ''/pay/{token}/status'', \<lambda>v. AtPayStatus (hd v)),
      (POST, ''/pay/{token}/slatepack'', \<lambda>v. AtPaste (hd v))]"

definition invoices_routes :: "route list" where
  "invoices_routes = [(POST, ''/invoice'', \<lambda>_. AtCreateInvoice), (GET, ''/invoice/{id}'', \<lambda>v. AtInvoice (hd v))]"

definition admin_routes :: "route list" where
  "admin_routes =
     [(GET, ''/admin'', \<lambda>_. AtDashboard), (GET, ''/admin/payments'', \<lambda>_. AtPayments), (GET, ''/admin/users'', \<lambda>_. AtUsers),
      (POST, ''/admin/users'', \<lambda>_. AtCreateUser), (GET, ''/admin/users/{id}'', \<lambda>v. AtUser (hd v)),
      (POST, ''/admin/users/{id}/rotate'', \<lambda>v. AtRotate (hd v)),
      (POST, ''/admin/users/{id}/rotate-interval'', \<lambda>v. AtInterval (hd v)), (GET, ''/admin/webhooks'', \<lambda>_. AtWebhooks)]"

definition routes :: "route list" where
  "routes =
     [(GET, ''/'', \<lambda>_. AtIndex), (GET, ''/health'', \<lambda>_. AtHealth),
      (GET, ''/static/style.css'', \<lambda>_. AtStatic ''style.css''), (GET, ''/static/goblin-mark.svg'', \<lambda>_. AtStatic ''goblin-mark.svg''),
      (GET, ''/static/goblinpay-mark.svg'', \<lambda>_. AtStatic ''goblinpay-mark.svg''),
      (GET, ''/static/goblinpay-wordmark.svg'', \<lambda>_. AtStatic ''goblinpay-wordmark.svg''),
      (GET, ''/static/goblinpay-badge-black.svg'', \<lambda>_. AtStatic ''goblinpay-badge-black.svg'')] @
     payments_routes @ checkout_routes @ invoices_routes @ admin_routes"

subsection \<open>Requests and replies\<close>

record http_request =
  rq_method :: http_method
  rq_path :: string
  rq_auth :: "string option"
  rq_tab :: "string option"
  rq_order :: "create_body option"
  rq_form :: "string option"
  rq_user :: "(string option \<times> int option) option"
  rq_interval :: "int option option"

text \<open>Clocks, random ids and the fate of the blocking task, one choice per request.\<close>

record chance =
  ch_now :: int
  ch_now1 :: int
  ch_now2 :: int
  ch_issued :: u64
  ch_id :: string
  ch_token :: string
  ch_panic :: "string option"

record ('w, 's, 'v, 'n, 'pk, 'k, 'b, 'r) site =
  si_world :: "('w, 's, 'v, 'n, 'pk, 'k, 'b) world"
  si_reads :: "'w key_reads"
  si_receipts :: "'r receipt_sdk"
  si_keys :: "'r option"
  si_proof :: "string \<Rightarrow> json option"
  si_decode :: "string \<Rightarrow> string"

datatype http_reply =
  NoRoute | BadBody
| IndexPage string | Healthy | Asset string
| PaymentJson "(int \<times> string option \<times> string \<times> int option \<times> int option \<times> int \<times> int) option"
| ReceiptJson receipt_reply
| PayPageHtml "pay_page_data option" | PayStatusJson "pay_status_json option" | PasteHtml "paste_result option"
| ApiJson api_reply | AdminHtml admin_reply

subsection \<open>One request\<close>

definition page_address :: "('w, 's, 'v, 'n, 'pk, 'k, 'b, 'r) site \<Rightarrow> 'w option \<Rightarrow> string option" where
  "page_address S w0 =
     Option.bind w0 (\<lambda>w. case fst (slatepack_address (si_reads S) w) of Inr a \<Rightarrow> Some a | Inl _ \<Rightarrow> None)"

definition admin_answer ::
  "('w, 's, 'v, 'n, 'pk, 'k, 'b, 'r) site \<Rightarrow> http_request \<Rightarrow> chance \<Rightarrow> admin_request \<Rightarrow> ('w, 'b) server
   \<Rightarrow> http_reply \<times> ('w, 'b) server" where
  "admin_answer S rq ch req s =
     (let E = si_world S;
          (r, d) = admin_request_handler (wo_api E) (wo_cfg E) (wo_signer E \<noteq> None) (wo_epub E) (rq_auth rq) req
                     (ch_id ch) (ch_now ch) (ch_now1 ch) (sv_db s)
      in (AdminHtml r, s\<lparr>sv_db := d\<rparr>))"

definition answer_at ::
  "('w, 's, 'v, 'n, 'pk, 'k, 'b, 'r) site \<Rightarrow> http_request \<Rightarrow> chance \<Rightarrow> endpoint \<Rightarrow> ('w, 'b) server
   \<Rightarrow> http_reply \<times> ('w, 'b) server" where
  "answer_at S rq ch e s =
     (let E = si_world S; cfg = wo_cfg E; dec = si_decode S in
      case e of
        AtIndex \<Rightarrow> (IndexPage (base_path (public_url cfg)), s)
      | AtHealth \<Rightarrow> (Healthy, s)
      | AtStatic f \<Rightarrow> (Asset f, s)
      | AtPayment pid \<Rightarrow> (PaymentJson (payment_status (dec pid) (sv_db s)), s)
      | AtReceipt pid \<Rightarrow>
          (ReceiptJson (payment_receipt (si_receipts S) (si_keys S) (si_proof S) (ch_issued ch) (dec pid) (sv_db s)), s)
      | AtPayPage tok \<Rightarrow>
          (case pay_page (env_nostr (wo_api E)) (env_svg (wo_api E)) cfg (page_address S (sv_wallet s)) (ch_now ch) (dec tok)
                  (rq_tab rq) (sv_db s) of
             (p, d) \<Rightarrow> (PayPageHtml p, s\<lparr>sv_db := d\<rparr>))
      | AtPayStatus tok \<Rightarrow>
          (case pay_status cfg (ch_now ch) (dec tok) (sv_db s) of (p, d) \<Rightarrow> (PayStatusJson p, s\<lparr>sv_db := d\<rparr>))
      | AtPaste tok \<Rightarrow>
          (case rq_form rq of
             None \<Rightarrow> (BadBody, s)
           | Some pasted \<Rightarrow>
               (case manual_slatepack (wo_body E) (wo_ed E) (wo_json E) (wo_backend E) (node_url cfg) (pool (ch_panic ch)) cfg
                       (ch_id ch) (ch_now ch) (dec tok) pasted (sv_wallet s) (sv_db s) of
                  (p, w, d) \<Rightarrow> (PasteHtml p, s\<lparr>sv_wallet := w, sv_db := d\<rparr>)))
      | AtCreateInvoice \<Rightarrow>
          (case rq_order rq of
             None \<Rightarrow> (BadBody, s)
           | Some body \<Rightarrow>
               (case create_invoice ((wo_api E)\<lparr>env_blocking := pool (ch_panic ch)\<rparr>) cfg (wo_signer E) (rq_auth rq) body
                       (ch_id ch) (ch_token ch) (ch_now ch) (ch_now1 ch) (ch_now2 ch) (sv_oracle s) (sv_wallet s) (sv_db s) of
                  (r, orc, w, d) \<Rightarrow> (ApiJson r, s\<lparr>sv_oracle := orc, sv_wallet := w, sv_db := d\<rparr>)))
      | AtInvoice iid \<Rightarrow>
          (case get_invoice (wo_api E) cfg (rq_auth rq) (dec iid) (ch_now ch) (sv_db s) of
             (r, d) \<Rightarrow> (ApiJson r, s\<lparr>sv_db := d\<rparr>))
      | AtDashboard \<Rightarrow> admin_answer S rq ch GetDashboard s
      | AtPayments \<Rightarrow> admin_answer S rq ch GetPayments s
      | AtUsers \<Rightarrow> admin_answer S rq ch GetUsers s
      | AtCreateUser \<Rightarrow>
          (case rq_user rq of None \<Rightarrow> (BadBody, s) | Some (ido, i) \<Rightarrow> admin_answer S rq ch (PostUser ido i) s)
      | AtUser uid \<Rightarrow> admin_answer S rq ch (GetUser (dec uid)) s
      | AtRotate uid \<Rightarrow> admin_answer S rq ch (PostRotate (dec uid)) s
      | AtInterval uid \<Rightarrow>
          (case rq_interval rq of None \<Rightarrow> (BadBody, s) | Some i \<Rightarrow> admin_answer S rq ch (PostInterval (dec uid) i) s)
      | AtWebhooks \<Rightarrow> admin_answer S rq ch GetWebhooks s)"

definition answer ::
  "('w, 's, 'v, 'n, 'pk, 'k, 'b, 'r) site \<Rightarrow> http_request \<Rightarrow> chance \<Rightarrow> ('w, 'b) server \<Rightarrow> http_reply \<times> ('w, 'b) server" where
  "answer S rq ch s =
     (case dispatch routes (rq_method rq) (segments (rq_path rq)) of
        None \<Rightarrow> (NoRoute, s)
      | Some e \<Rightarrow> answer_at S rq ch e s)"

subsection \<open>The table is unambiguous\<close>

fun overlap :: "path_seg list \<Rightarrow> path_seg list \<Rightarrow> bool" where
  "overlap [] [] = True"
| "overlap (Lit a # p) (Lit b # q) = (a = b \<and> overlap p q)"
| "overlap (Lit a # p) (Param # q) = (a \<noteq> [] \<and> overlap p q)"
| "overlap (Param # p) (Lit b # q) = (b \<noteq> [] \<and> overlap p q)"
| "overlap (Param # p) (Param # q) = overlap p q"
| "overlap _ _ = False"

lemma match_path_overlap: "match_path p ss = Some v \<Longrightarrow> match_path q ss = Some w \<Longrightarrow> overlap p q"
proof (induction p ss arbitrary: q v w rule: match_path.induct)
  case (2 l pat s ss)
  then show ?case by (cases q; cases "hd q") (auto split: if_splits)
next
  case (3 pat s ss)
  then show ?case by (cases q; cases "hd q") (auto split: if_splits)
qed (case_tac q; auto)+

lemma dispatch_Some:
  assumes "sorted_wrt (\<lambda>r1 r2. \<not> (fst r1 = fst r2 \<and> overlap (pattern (fst (snd r1))) (pattern (fst (snd r2))))) rs"
  shows "dispatch rs meth ss = Some e \<longleftrightarrow>
    (\<exists>pat at' vs. (meth, pat, at') \<in> set rs \<and> match_path (pattern pat) ss = Some vs \<and> e = at' vs)"
  using assms
proof (induction rs meth ss rule: dispatch.induct)
  case (2 meth' pat at' rs meth ss)
  show ?case
  proof (cases "if meth = meth' then match_path (pattern pat) ss else None")
    case None
    with 2 show ?thesis by (fastforce split: if_splits)
  next
    case (Some vs)
    then have m: "meth' = meth" "match_path (pattern pat) ss = Some vs" by (auto split: if_splits)
    have "match_path (pattern pat') ss = None" if "(meth, pat', at'') \<in> set rs" for pat' at''
      using that "2.prems" m match_path_overlap [OF m(2)] by (cases "match_path (pattern pat') ss") auto
    with Some m show ?thesis by fastforce
  qed
qed simp

lemma routes_disjoint:
  "sorted_wrt (\<lambda>r1 r2. \<not> (fst r1 = fst r2 \<and> overlap (pattern (fst (snd r1))) (pattern (fst (snd r2))))) routes"
  by code_simp

subsection \<open>Requests as steps\<close>


text \<open>What a lookup does to the invoices.\<close>

definition only_expires :: "int \<Rightarrow> 'b db \<Rightarrow> 'b db \<Rightarrow> bool" where
  "only_expires now d d' \<longleftrightarrow>
     (\<exists>p. (\<forall>i. p i \<longrightarrow> due_at now i) \<and> d' = d\<lparr>invoices := update_where p set_expired (invoices d)\<rparr>)"

lemma only_expires_refl: "only_expires now d d"
  unfolding only_expires_def by (rule exI [of _ "\<lambda>_. False"]) (simp add: update_where_def)

lemma only_expires_where: "(\<And>i. p i \<Longrightarrow> due_at now i) \<Longrightarrow> only_expires now d (d\<lparr>invoices := update_where p set_expired (invoices d)\<rparr>)"
  unfolding only_expires_def by blast

lemma reads_only_expire:
  "only_expires now d (snd (pay_page n g cfg addr now tok m d))"
  "only_expires now d (snd (pay_status cfg now tok d))"
  "only_expires now d (snd (get_invoice env cfg header iid now d))"
proof -
  have t: "only_expires now d (snd (get_by_token now tok d))" for tok
    unfolding get_by_token_def Let_def snd_conv by (rule only_expires_where) simp
  have i: "only_expires now d (snd (get now iid d))" for iid
    unfolding get_def expire_if_due_id_def Let_def snd_conv by (rule only_expires_where) simp
  show "only_expires now d (snd (pay_page n g cfg addr now tok m d))"
    using t [of tok] by (auto simp: pay_page_def Let_def split: prod.splits option.splits)
  show "only_expires now d (snd (pay_status cfg now tok d))"
    using t [of tok] by (auto simp: pay_status_def split: prod.splits option.splits)
  show "only_expires now d (snd (get_invoice env cfg header iid now d))"
    using i [of iid] only_expires_refl [of now d] by (auto simp: get_invoice_def split: prod.splits option.splits)
qed

lemma admin_answer_state:
  obtains d where "snd (admin_answer S rq ch req s) = s\<lparr>sv_db := d\<rparr>"
    "payments d = payments (sv_db s)" "deliveries d = deliveries (sv_db s)" "invoices d = invoices (sv_db s)"
    "\<not> authorized (env_slice_eq (wo_api (si_world S))) (rq_auth rq) (admin_token (wo_cfg (si_world S))) \<Longrightarrow> d = sv_db s"
proof -
  let ?E = "si_world S"
  obtain r d where h: "admin_request_handler (wo_api ?E) (wo_cfg ?E) (wo_signer ?E \<noteq> None) (wo_epub ?E) (rq_auth rq) req
      (ch_id ch) (ch_now ch) (ch_now1 ch) (sv_db s) = (r, d)" by fastforce
  have state: "snd (admin_answer S rq ch req s) = s\<lparr>sv_db := d\<rparr>"
    unfolding admin_answer_def Let_def h prod.case snd_conv ..
  have "invoices d = invoices (sv_db s) \<and> payments d = payments (sv_db s) \<and> deliveries d = deliveries (sv_db s)"
    using admin_requests_op [OF h] tenant_op_tables [of "wo_epub ?E" "sv_db s" d] by auto
  then show thesis using that [OF state] admin_requests_denied [OF h] by blast
qed

text \<open>Payments, webhooks, wallet and prices as they were, invoices at most expired.\<close>

definition shop_untouched :: "int \<Rightarrow> ('w, 'b) server \<Rightarrow> ('w, 'b) server \<Rightarrow> bool" where
  "shop_untouched now s t \<longleftrightarrow>
     sv_wallet t = sv_wallet s \<and> sv_oracle t = sv_oracle s \<and> payments (sv_db t) = payments (sv_db s) \<and>
     deliveries (sv_db t) = deliveries (sv_db s) \<and>
     (\<exists>p. (\<forall>i. p i \<longrightarrow> due_at now i) \<and> invoices (sv_db t) = update_where p set_expired (invoices (sv_db s)))"

lemma shop_untouched_same:
  assumes "payments d = payments (sv_db s)" "deliveries d = deliveries (sv_db s)" "invoices d = invoices (sv_db s)"
  shows "shop_untouched now s (s\<lparr>sv_db := d\<rparr>)"
proof -
  have "invoices d = update_where (\<lambda>_. False) set_expired (invoices (sv_db s))" using assms(3) by (simp add: update_where_def)
  then show ?thesis unfolding shop_untouched_def using assms(1,2) by (intro conjI exI [of _ "\<lambda>_. False"]) simp_all
qed

lemma shop_untouched_refl: "shop_untouched now s s"
  using shop_untouched_same [of "sv_db s" s now] by simp

lemma shop_untouched_read: "only_expires now (sv_db s) d \<Longrightarrow> shop_untouched now s (s\<lparr>sv_db := d\<rparr>)"
proof -
  assume "only_expires now (sv_db s) d"
  then obtain p where "\<forall>i. p i \<longrightarrow> due_at now i" "d = (sv_db s)\<lparr>invoices := update_where p set_expired (invoices (sv_db s))\<rparr>"
    unfolding only_expires_def by blast
  then show ?thesis unfolding shop_untouched_def by (intro conjI exI [of _ p]) simp_all
qed

lemma only_expires_tenants: "only_expires now d d' \<Longrightarrow> users d' = users d \<and> endpubs d' = endpubs d"
  by (auto simp: only_expires_def)

lemma tables_step_tenants: "tables_step d d' \<Longrightarrow> users d' = users d \<and> endpubs d' = endpubs d"
  by (simp add: tables_step_def)


subsection \<open>A shop with an unpaid order\<close>

definition sample_site ::
  "(string list \<times> string list, string \<times> slate_state \<times> u64, string \<times> slate_state \<times> u64, unit, string, string, string, string) site" where
  "sample_site =
     \<lparr>si_world = sample_world,
      si_reads = \<lparr>kr_address = (\<lambda>_. Inr ''grin1x''), kr_secret = (\<lambda>_. Inr [7]), kr_summary = (\<lambda>_. Inr (0, 0)),
        kr_decode = (\<lambda>_. Inr [7])\<rparr>,
      si_receipts = \<lparr>rs_secret = (\<lambda>_. Inr [7]), rs_xonly = (\<lambda>s. s), rs_to_vec = (\<lambda>_. Inr []), rs_sha = (\<lambda>_. []),
        rs_sign = (\<lambda>_ _. []), rs_point = (\<lambda>_. True), rs_verify = (\<lambda>_ _ _. True)\<rparr>,
      si_keys = None, si_proof = (\<lambda>_. None), si_decode = (\<lambda>s. s)\<rparr>"

definition sample_request :: http_request where
  "sample_request =
     \<lparr>rq_method = GET, rq_path = ''/pay/tt'', rq_auth = Some ''Bearer guess'', rq_tab = None, rq_order = None,
      rq_form = None, rq_user = None, rq_interval = None\<rparr>"

definition sample_chance :: chance where
  "sample_chance = \<lparr>ch_now = 20, ch_now1 = 20, ch_now2 = 20, ch_issued = 20, ch_id = ''x'', ch_token = ''y'', ch_panic = None\<rparr>"


end
