(* ===== verification/Qr.thy ===== *)
theory Qr
  imports F64 Config
begin

text \<open>
  \<open>crates/gp-core/src/qr.rs\<close>: the SVG of a QR code, with its logo. The \<open>qrcode\<close> crate, which gives the
  matrix at error-correction level H, is a parameter; the geometry of the logo is in binary64.
\<close>

subsection \<open>Numbers\<close>

fun fsub :: "f64 \<Rightarrow> f64 \<Rightarrow> f64" where
  "fsub (Fin a) (Fin b) = round_dbl (a - b)"
| "fsub (Fin a) (Inf s) = Inf (\<not> s)"
| "fsub (Inf s) (Fin b) = Inf s"
| "fsub (Inf s) (Inf t) = (if s = t then NaN else Inf s)"
| "fsub _ _ = NaN"

fun fneg :: "f64 \<Rightarrow> f64" where
  "fneg (Fin a) = Fin (- a)"
| "fneg (Inf s) = Inf (\<not> s)"
| "fneg NaN = NaN"

definition fadd :: "f64 \<Rightarrow> f64 \<Rightarrow> f64" where
  "fadd x y = fsub x (fneg y)"

definition lit :: "rat \<Rightarrow> f64" where "lit q = round_dbl q"

text \<open>\<open>{:.k}\<close>: \<open>k\<close> decimals, ties to even.\<close>

definition show_dec :: "nat \<Rightarrow> rat \<Rightarrow> string" where
  "show_dec k q =
     (let n = nat (round_half_even (q * 10 ^ k)); f = show_nat (n mod 10 ^ k)
      in show_nat (n div 10 ^ k) @ ''.'' @ replicate (k - length f) (CHR ''0'') @ f)"

definition format_dec :: "nat \<Rightarrow> f64 \<Rightarrow> string" where
  "format_dec k x =
     (case x of
        Fin q \<Rightarrow> (if q < 0 then ''-'' @ show_dec k (- q) else show_dec k q)
      | Inf neg \<Rightarrow> (if neg then ''-inf'' else ''inf'')
      | NaN \<Rightarrow> ''NaN'')"

subsection \<open>The emblem\<close>

definition LOGO_FRACTION :: f64 where "LOGO_FRACTION = lit (18 / 100)"
definition QUIET :: nat where "QUIET = 4"

definition GOBLIN_PATH_0 :: string where
  "GOBLIN_PATH_0 =
     ''M195 11784 c-515 -1551 98 -2966 1520 -3514 171 -66 171 -72 2 -72 -415 0 -893 215 -1273 572 -178 167 '' @
     ''-181 163 -77 -83 478 -1130 1770 -1734 2963 -1384 283 83 309 101 420 292 376 648 1038 1116 1763 1245 '' @
     ''l143 26 100 202 c887 1780 -911 3344 -3076 2675 l-170 -52 220 -14 c480 -32 818 -114 1118 -273 258 -13'' @
     ''7 548 -414 624 -597 l32 -76 -87 76 c-435 375 -938 524 -1557 461 -273 -28 -340 -39 -740 -120 -893 -18'' @
     ''2 -1449 24 -1756 650 l-98 200 -71 -214z''"

definition GOBLIN_PATH_1 :: string where
  "GOBLIN_PATH_1 =
     ''M9720 10053 c0 -146 -256 -556 -441 -705 -381 -308 -766 -380 -1559 -290 -1178 133 -2048 -270 -2488 -1'' @
     ''152 -57 -115 -92 -149 -92 -89 0 78 123 415 199 548 43 74 73 135 67 135 -25 0 -397 -184 -512 -253 -96'' @
     ''2 -578 -1594 -1675 -1594 -2767 0 -209 -2 -210 -154 -95 -393 297 -523 388 -751 525 -321 192 -571 311 '' @
     ''-843 400 -290 95 -302 94 -242 -15 52 -95 166 -372 191 -465 9 -33 34 -121 56 -195 48 -161 120 -508 19'' @
     ''4 -935 118 -684 437 -1371 795 -1715 185 -178 324 -239 594 -262 144 -13 150 -15 147 -63 -1 -27 -14 -1'' @
     ''74 -28 -326 -83 -902 258 -1568 1037 -2024 139 -81 161 -80 127 4 -37 96 -85 369 -96 546 l-10 170 46 -'' @
     ''60 c328 -431 869 -753 1497 -891 351 -77 1285 -67 1426 15 9 5 -104 50 -250 98 -653 218 -1499 778 -170'' @
     ''4 1129 -43 73 -54 78 188 -79 230 -149 543 -303 750 -369 783 -249 1542 -242 2332 20 l274 91 106 -83 c'' @
     ''298 -236 798 -328 1259 -231 197 42 196 38 32 169 -156 124 -344 356 -443 546 l-60 116 70 52 c544 408 '' @
     ''783 906 627 1300 l-41 102 170 138 c442 355 584 624 813 1537 186 742 257 952 452 1328 l118 227 -145 -'' @
     ''14 c-693 -68 -1425 -411 -1729 -810 -99 -130 -112 -127 -165 44 -54 175 -217 511 -308 636 -64 88 -70 9'' @
     ''1 -224 117 -419 70 -947 328 -1223 597 -98 96 -153 192 -70 122 41 -35 332 -177 487 -238 97 -38 146 -5'' @
     ''5 348 -118 335 -105 983 -129 1280 -47 1070 294 1688 1238 1761 2691 16 304 7 325 -82 190 -88 -134 -50'' @
     ''4 -535 -669 -645 -618 -412 -1228 -507 -1895 -296 -192 60 -199 77 -67 163 428 277 628 871 480 1428 -2'' @
     ''0 75 -38 98 -38 48z m-682 -4962 c306 -158 601 -1396 416 -1747 -118 -224 -283 -345 -526 -387 -455 -78'' @
     '' -577 227 -456 1143 96 725 320 1118 566 991z m-3115 -156 c371 -172 699 -815 799 -1565 34 -251 19 -30'' @
     ''7 -108 -422 -575 -519 -1624 -162 -1931 657 -265 709 593 1630 1240 1330z m5261 -120 c20 -377 -135 -91'' @
     ''2 -290 -995 -70 -38 -72 -35 -157 230 l-64 200 -24 -90 c-50 -192 -144 -340 -215 -340 -111 0 -316 804 '' @
     ''-228 893 53 53 200 -130 226 -283 l14 -80 36 105 c100 293 222 333 332 109 l54 -110 35 105 c89 260 271'' @
     '' 427 281 256z m-8491 -284 l75 -230 52 160 c89 272 210 336 295 154 126 -268 210 -757 142 -825 -44 -44'' @
     '' -163 120 -247 340 -12 33 -19 24 -39 -50 -89 -330 -286 -346 -374 -30 l-22 80 -35 -125 c-54 -196 -223'' @
     '' -428 -275 -377 -37 37 -29 448 11 608 70 276 219 524 314 524 17 0 56 -87 103 -229z m4164 -2698 c137 '' @
     ''-310 856 -372 1401 -121 175 81 194 76 89 -23 -356 -336 -878 -447 -1310 -278 -224 88 -517 339 -517 44'' @
     ''3 0 53 140 267 212 324 l58 46 14 -152 c8 -84 31 -191 53 -239z''"

definition goblin_mark :: "f64 \<Rightarrow> f64 \<Rightarrow> f64 \<Rightarrow> string" where
  "goblin_mark x y size' =
     (let scale = fdiv size' (lit 600) in
      ''<g transform=\"translate('' @ format_dec 2 x @ '' '' @ format_dec 2 y @ '') scale('' @ format_dec 5 scale @ '')\">'' @
      ''<g transform=\"translate(0 601) scale(0.05 -0.05)\" fill=\"#000000\">'' @
      ''<path d=\"'' @ GOBLIN_PATH_0 @ ''\"/><path d=\"'' @ GOBLIN_PATH_1 @ ''\"/></g></g>'')"

subsection \<open>The geometry of the logo\<close>

definition logo_size :: "nat \<Rightarrow> f64" where
  "logo_size dim' = fround (fmul (Fin (of_nat dim')) LOGO_FRACTION)"

definition logo_center :: "nat \<Rightarrow> f64" where
  "logo_center dim' = fdiv (Fin (of_nat dim')) (lit 2)"

text \<open>\<open>logo_x\<close> and \<open>logo_y\<close> are the same number.\<close>

definition logo_at :: "nat \<Rightarrow> f64" where
  "logo_at dim' = fsub (logo_center dim') (fdiv (logo_size dim') (lit 2))"

definition mark_radius :: "nat \<Rightarrow> f64" where
  "mark_radius dim' = fmul (logo_size dim') (lit (65 / 100))"

definition backing :: "nat \<Rightarrow> f64" where
  "backing dim' = fadd (logo_size dim') (fmul (lit 2) (lit 1))"

definition backing_at :: "nat \<Rightarrow> f64" where
  "backing_at dim' = fsub (logo_center dim') (fdiv (backing dim') (lit 2))"

definition overlay :: "nat \<Rightarrow> logo \<Rightarrow> string" where
  "overlay dim' logo' =
     (case logo' of
        NoLogo \<Rightarrow> []
      | Builtin \<Rightarrow>
          ''<circle cx=\"'' @ format_dec 2 (logo_center dim') @ ''\" cy=\"'' @ format_dec 2 (logo_center dim') @
          ''\" r=\"'' @ format_dec 2 (mark_radius dim') @ ''\" fill=\"#ffffff\"/>'' @
          goblin_mark (logo_at dim') (logo_at dim') (logo_size dim')
      | Href href \<Rightarrow>
          ''<rect x=\"'' @ format_dec 2 (backing_at dim') @ ''\" y=\"'' @ format_dec 2 (backing_at dim') @
          ''\" width=\"'' @ format_dec 2 (backing dim') @ ''\" height=\"'' @ format_dec 2 (backing dim') @
          ''\" rx=\"'' @ format_dec 2 (fmul (backing dim') (lit (18 / 100))) @
          ''\" ry=\"'' @ format_dec 2 (fmul (backing dim') (lit (18 / 100))) @ ''\" fill=\"#ffffff\"/>'' @
          ''<image href=\"'' @ href @ ''\" x=\"'' @ format_dec 2 (logo_at dim') @ ''\" y=\"'' @ format_dec 2 (logo_at dim') @
          ''\" width=\"'' @ format_dec 2 (logo_size dim') @ ''\" height=\"'' @ format_dec 2 (logo_size dim') @
          ''\" preserveAspectRatio=\"xMidYMid meet\"/>'')"

subsection \<open>The code\<close>

text \<open>The matrix of the crate: its width and its modules row by row, \<open>True\<close> for a dark one.\<close>

type_synonym encoder = "string \<Rightarrow> string + nat \<times> bool list"

definition module_path :: "nat \<Rightarrow> nat \<Rightarrow> string" where
  "module_path x y = ''M'' @ show_nat (x + QUIET) @ '' '' @ show_nat (y + QUIET) @ ''h1v1h-1z''"

definition modules_path :: "nat \<Rightarrow> bool list \<Rightarrow> string" where
  "modules_path width colors =
     concat (List.map (\<lambda>y. concat (List.map (\<lambda>x. if colors ! (y * width + x) then module_path x y else [])
       [0..<width])) [0..<width])"

definition svg_head :: "nat \<Rightarrow> string" where
  "svg_head dim' =
     ''<svg xmlns=\"http://www.w3.org/2000/svg\" viewBox=\"0 0 '' @ show_nat dim' @ '' '' @ show_nat dim' @
     ''\" shape-rendering=\"crispEdges\" role=\"img\" aria-label=\"Payment QR code\" class=\"qr\">'' @
     ''<rect width=\"'' @ show_nat dim' @ ''\" height=\"'' @ show_nat dim' @ ''\" fill=\"#ffffff\"/>''"

definition svg :: "encoder \<Rightarrow> string \<Rightarrow> logo \<Rightarrow> string + string" where
  "svg enc payload logo' =
     (case enc payload of
        Inl e \<Rightarrow> Inl e
      | Inr (width, colors) \<Rightarrow>
          let dim' = width + 2 * QUIET in
          Inr (svg_head dim' @ ''<path d=\"'' @ modules_path width colors @ ''\" fill=\"#000000\"/>'' @
               overlay dim' logo' @ ''</svg>''))"

definition show_qr_error :: "string \<Rightarrow> string" where
  "show_qr_error e = ''qr error: '' @ e"

subsection \<open>Reading the drawing back\<close>

text \<open>A square \<open>M<x> <y>h1v1h-1z\<close> of a path, the squares of a path, and the first path of a drawing.\<close>

definition read_square :: "string \<Rightarrow> (nat \<times> nat) option" where
  "read_square s =
     (case split_once '' '' s of
        None \<Rightarrow> None
      | Some (a, r) \<Rightarrow>
          (case split_once ''h'' r of
             None \<Rightarrow> None
           | Some (b, rest) \<Rightarrow>
               (case (digits_val 0 a, digits_val 0 b) of
                  (Some x, Some y) \<Rightarrow> if rest = ''1v1h-1z'' then Some (x, y) else None
                | _ \<Rightarrow> None)))"

definition read_path :: "string \<Rightarrow> (nat \<times> nat) list option" where
  "read_path p = (case split_on (CHR ''M'') p of [] # squares \<Rightarrow> those (List.map read_square squares) | _ \<Rightarrow> None)"

definition first_path :: "string \<Rightarrow> string option" where
  "first_path s =
     Option.bind (split_once ''<path d=\"'' s) (\<lambda>(_, r). map_option fst (split_once ''\"'' r))"

lemma split_once_char: "c \<notin> set k \<Longrightarrow> split_once [c] (k @ c # s) = Some (k, s)"
  by (simp add: split_once_def find_sub_char)

lemma split_once_here: "split_once (c # p) ((c # p) @ s) = Some ([], s)"
  by (simp add: split_once_def starts_with_def)

lemma split_once_step:
  "\<not> starts_with pat (d # s) \<Longrightarrow> split_once pat (d # s) = map_option (\<lambda>(a, b). (d # a, b)) (split_once pat s)"
  by (simp add: split_once_def split: option.split)

lemma split_once_free:
  "c \<notin> set u \<Longrightarrow> split_once (c # p) (u @ s) = map_option (\<lambda>(a, b). (u @ a, b)) (split_once (c # p) s)"
proof (induction u)
  case Nil
  then show ?case by (cases "split_once (c # p) s") auto
next
  case (Cons d u)
  then have "\<not> starts_with (c # p) (d # u @ s)" by (auto simp: starts_with_def)
  with Cons show ?case by (cases "split_once (c # p) s") (auto simp: split_once_step)
qed

lemma not_in_show: "\<not> is_digit c \<Longrightarrow> c \<notin> set (show_nat n)"
  using show_nat_digits [of c n] by (auto simp: is_digit_def)

lemma not_digits [simp]:
  "CHR ''M'' \<notin> set (show_nat n)" "CHR '' '' \<notin> set (show_nat n)" "CHR ''h'' \<notin> set (show_nat n)"
  "CHR ''\"'' \<notin> set (show_nat n)" "CHR ''<'' \<notin> set (show_nat n)"
  by (intro not_in_show, code_simp)+

lemma read_square_shown: "read_square (show_nat x @ '' '' @ show_nat y @ ''h1v1h-1z'') = Some (x, y)"
  using split_once_char [of "CHR '' ''" "show_nat x" "show_nat y @ ''h1v1h-1z''"]
    split_once_char [of "CHR ''h''" "show_nat y" "''1v1h-1z''"]
  by (simp add: read_square_def digits_val_show_nat)

lemma split_on_before: "d \<notin> set w \<Longrightarrow> split_on d s = [] # ws \<Longrightarrow> split_on d (w @ s) = w # ws"
  by (induction w) auto

text \<open>The dark modules, in the order they are drawn.\<close>

definition dark_modules :: "nat \<Rightarrow> bool list \<Rightarrow> (nat \<times> nat) list" where
  "dark_modules width colors =
     concat (List.map (\<lambda>y. List.map (\<lambda>x. (x, y)) (filter (\<lambda>x. colors ! (y * width + x)) [0..<width])) [0..<width])"

lemma dark_modules_iff:
  "(x, y) \<in> set (dark_modules width colors) \<longleftrightarrow> x < width \<and> y < width \<and> colors ! (y * width + x)"
  by (force simp: dark_modules_def)

lemma modules_path_squares:
  "modules_path width colors = concat (List.map (\<lambda>(x, y). module_path x y) (dark_modules width colors))"
proof -
  have row: "concat (List.map (\<lambda>x. if P x then module_path x y else []) xs) =
      concat (List.map (\<lambda>(x, y). module_path x y) (List.map (\<lambda>x. (x, y)) (filter P xs)))" for P y xs
    by (induction xs) auto
  have rows: "concat (List.map (\<lambda>y. concat (List.map (f y) xs)) ys) = concat (List.map g (concat (List.map h ys)))"
    if "\<And>y. concat (List.map (f y) xs) = concat (List.map g (h y))" for f g h xs ys
    using that by (induction ys) auto
  show ?thesis unfolding modules_path_def dark_modules_def by (rule rows, rule row)
qed

lemma split_squares:
  "split_on (CHR ''M'') (concat (List.map (\<lambda>(x, y). module_path x y) qs)) =
     [] # List.map (\<lambda>(x, y). show_nat (x + QUIET) @ '' '' @ show_nat (y + QUIET) @ ''h1v1h-1z'') qs"
proof (induction qs)
  case (Cons q qs)
  obtain x y where q: "q = (x, y)" by (cases q)
  have "split_on (CHR ''M'') ((show_nat (x + QUIET) @ '' '' @ show_nat (y + QUIET) @ ''h1v1h-1z'') @
      concat (List.map (\<lambda>(x, y). module_path x y) qs)) =
      (show_nat (x + QUIET) @ '' '' @ show_nat (y + QUIET) @ ''h1v1h-1z'') #
      List.map (\<lambda>(x, y). show_nat (x + QUIET) @ '' '' @ show_nat (y + QUIET) @ ''h1v1h-1z'') qs"
    by (rule split_on_before [OF _ Cons.IH]) simp
  then show ?case by (simp add: q module_path_def)
qed simp

lemma those_map_Some: "(\<And>x. x \<in> set xs \<Longrightarrow> f x = Some (g x)) \<Longrightarrow> those (List.map f xs) = Some (List.map g xs)"
  by (induction xs) auto

lemma read_modules_path:
  "read_path (modules_path width colors) =
     Some (List.map (\<lambda>(x, y). (x + QUIET, y + QUIET)) (dark_modules width colors))"
  unfolding read_path_def modules_path_squares split_squares
  using read_square_shown by (simp add: comp_def case_prod_unfold) (rule those_map_Some, simp)

lemma path_has_no_quote: "CHR ''\"'' \<notin> set (modules_path width colors)"
  by (auto simp: modules_path_squares module_path_def)

lemma first_path_svg:
  assumes "svg enc payload logo' = Inr out" "enc payload = Inr (width, colors)"
  shows "first_path out = Some (modules_path width colors)"
proof -
  let ?pat = "''<path d=\"''"
  let ?n = "show_nat (width + 2 * QUIET)"
  let ?rest = "''\" fill=\"#000000\"/>'' @ overlay (width + 2 * QUIET) logo' @ ''</svg>''"
  have out: "out = svg_head (width + 2 * QUIET) @ ?pat @ modules_path width colors @ ?rest"
    using assms by (simp add: svg_def Let_def)
  have "split_once ?pat (svg_head (width + 2 * QUIET) @ ?pat @ s) = Some (svg_head (width + 2 * QUIET), s)" for s
  proof -
    have tail: "split_once ?pat (''<rect width=\"'' @ ?n @ ''\" height=\"'' @ ?n @ ''\" fill=\"#ffffff\"/>'' @ ?pat @ s) =
        Some (''<rect width=\"'' @ ?n @ ''\" height=\"'' @ ?n @ ''\" fill=\"#ffffff\"/>'', s)"
    proof -
      have "split_once ?pat ((''rect width=\"'' @ ?n @ ''\" height=\"'' @ ?n @ ''\" fill=\"#ffffff\"/>'') @ ?pat @ s) =
          Some (''rect width=\"'' @ ?n @ ''\" height=\"'' @ ?n @ ''\" fill=\"#ffffff\"/>'', s)"
        by (subst split_once_free) (simp_all only: split_once_here, simp_all)
      then show ?thesis by (simp add: split_once_step starts_with_def)
    qed
    have "split_once ?pat ((''svg xmlns=\"http://www.w3.org/2000/svg\" viewBox=\"0 0 '' @ ?n @ '' '' @ ?n @
        ''\" shape-rendering=\"crispEdges\" role=\"img\" aria-label=\"Payment QR code\" class=\"qr\">'') @
        ''<rect width=\"'' @ ?n @ ''\" height=\"'' @ ?n @ ''\" fill=\"#ffffff\"/>'' @ ?pat @ s) =
        Some ((''svg xmlns=\"http://www.w3.org/2000/svg\" viewBox=\"0 0 '' @ ?n @ '' '' @ ?n @
        ''\" shape-rendering=\"crispEdges\" role=\"img\" aria-label=\"Payment QR code\" class=\"qr\">'') @
        ''<rect width=\"'' @ ?n @ ''\" height=\"'' @ ?n @ ''\" fill=\"#ffffff\"/>'', s)"
      by (subst split_once_free) (simp_all only: tail, simp_all)
    then show ?thesis by (simp add: svg_head_def split_once_step starts_with_def)
  qed
  moreover have "split_once ''\"'' (modules_path width colors @ ?rest) =
      Some (modules_path width colors, '' fill=\"#000000\"/>'' @ overlay (width + 2 * QUIET) logo' @ ''</svg>'')"
    using split_once_char [OF path_has_no_quote] by simp
  ultimately show ?thesis by (simp add: first_path_def out)
qed

text \<open>C39: the picture is the code. Whatever the logo, the first path of the SVG, read back, consists of
  exactly one unit square for every dark module, four modules in from the edges of the picture.\<close>

theorem qr_shows_modules:
  assumes "enc payload = Inr (width, colors)"
  shows "\<exists>out squares. svg enc payload logo' = Inr out \<and> Option.bind (first_path out) read_path = Some squares \<and>
    distinct squares \<and>
    (\<forall>x y. (x, y) \<in> set squares \<longleftrightarrow>
       QUIET \<le> x \<and> x < width + QUIET \<and> QUIET \<le> y \<and> y < width + QUIET \<and> colors ! ((y - QUIET) * width + (x - QUIET)))"
proof -
  obtain out where out: "svg enc payload logo' = Inr out" using assms by (simp add: svg_def Let_def)
  let ?squares = "List.map (\<lambda>(x, y). (x + QUIET, y + QUIET)) (dark_modules width colors)"
  have inj: "inj_on (\<lambda>(x, y). (x + QUIET, y + QUIET)) A" for A by (auto simp: inj_on_def)
  have dist: "distinct (concat (List.map (\<lambda>y. List.map (\<lambda>x. (x, y)) (xs y)) ys))"
    if "distinct ys" "\<And>y. distinct (xs y)" for xs :: "nat \<Rightarrow> nat list" and ys
    using that by (induction ys) (auto simp: distinct_map inj_on_def)
  have "distinct (dark_modules width colors)" unfolding dark_modules_def by (rule dist) simp_all
  then have "distinct ?squares" by (simp add: distinct_map inj)
  moreover have "(x, y) \<in> set ?squares \<longleftrightarrow>
      QUIET \<le> x \<and> x < width + QUIET \<and> QUIET \<le> y \<and> y < width + QUIET \<and> colors ! ((y - QUIET) * width + (x - QUIET))" for x y
  proof -
    have "(x, y) \<in> set ?squares \<longleftrightarrow> (\<exists>u v. x = u + QUIET \<and> y = v + QUIET \<and> (u, v) \<in> set (dark_modules width colors))"
      by auto
    also have "\<dots> \<longleftrightarrow> (\<exists>u v. x = u + QUIET \<and> y = v + QUIET \<and> u < width \<and> v < width \<and> colors ! (v * width + u))"
      by (simp add: dark_modules_iff)
    also have "\<dots> \<longleftrightarrow> QUIET \<le> x \<and> QUIET \<le> y \<and> x - QUIET < width \<and> y - QUIET < width \<and>
        colors ! ((y - QUIET) * width + (x - QUIET))"
      by (metis add_diff_cancel_right' le_add2 le_add_diff_inverse2)
    finally show ?thesis by auto
  qed
  ultimately show ?thesis using out first_path_svg [OF out assms] read_modules_path by fastforce
qed

theorem qr_shows_modules_witness:
  "\<exists>out squares. svg (\<lambda>_. Inr (2, [True, False, True, True])) ''x'' Builtin = Inr out \<and>
     Option.bind (first_path out) read_path = Some squares \<and> set squares = {(4, 4), (4, 5), (5, 5)}"
proof -
  let ?enc = "\<lambda>_ :: string. Inr (2, [True, False, True, True]) :: string + nat \<times> bool list"
  have enc: "?enc ''x'' = Inr (2, [True, False, True, True])" by (rule refl)
  obtain out squares where o: "svg ?enc ''x'' Builtin = Inr out" "Option.bind (first_path out) read_path = Some squares"
    and s: "\<And>x y. (x, y) \<in> set squares \<longleftrightarrow> QUIET \<le> x \<and> x < 2 + QUIET \<and> QUIET \<le> y \<and> y < 2 + QUIET \<and>
       [True, False, True, True] ! ((y - QUIET) * 2 + (x - QUIET))"
    using qr_shows_modules [OF enc, where logo' = Builtin] by blast
  have "set squares = {(4, 4), (4, 5), (5, 5)}"
  proof (rule set_eqI)
    fix q :: "nat \<times> nat"
    obtain x y where q: "q = (x, y)" by (cases q)
    have "x \<in> {4, 5}" "y \<in> {4, 5}" if "4 \<le> x \<and> x < 6 \<and> 4 \<le> y \<and> y < 6" using that by auto
    then show "q \<in> set squares \<longleftrightarrow> q \<in> {(4, 4), (4, 5), (5, 5)}" unfolding q s QUIET_def by auto
  qed
  with o show ?thesis by blast
qed

subsection \<open>Where the logo sits\<close>

lemma scaled_up: "f \<le> c + e \<Longrightarrow> 0 \<le> x \<Longrightarrow> x \<le> 200 \<Longrightarrow> 0 \<le> e \<Longrightarrow> x * f \<le> c * x + 200 * e" for x :: rat
  using mult_left_mono [of f "c + e" x] mult_right_mono [of x 200 e] by (simp add: algebra_simps)

lemma tiny: "y \<le> 40 \<Longrightarrow> y / 2 ^ 53 \<le> 1 / 1000000" for y :: rat
  by simp

lemma close_up: "\<bar>v - y\<bar> \<le> e \<Longrightarrow> e \<le> 1 / 1000000 \<Longrightarrow> y \<le> a + 1 / 1000000 \<Longrightarrow> v \<le> a + 1 / 100000" for y :: rat
  by (simp only: abs_le_iff) linarith

lemma close_down: "\<bar>v - y\<bar> \<le> e \<Longrightarrow> e \<le> 1 / 1000000 \<Longrightarrow> b - 1 / 1000000 \<le> y \<Longrightarrow> b - 1 / 100000 \<le> v" for y :: rat
  by (simp only: abs_le_iff) linarith

lemma scaled_down: "c - e \<le> f \<Longrightarrow> 0 \<le> x \<Longrightarrow> x \<le> 200 \<Longrightarrow> 0 \<le> e \<Longrightarrow> c * x - 200 * e \<le> x * f" for x :: rat
  using mult_left_mono [of "c - e" f x] mult_right_mono [of x 200 e] by (simp add: algebra_simps)

text \<open>The logo's side is a whole number of modules, within half a module of 18\% of the picture.\<close>

lemma logo_size_near:
  assumes "29 \<le> d" "d \<le> 185"
  shows "\<exists>n. logo_size d = Fin (of_int n) \<and> \<bar>of_int n - 18 / 100 * of_nat d\<bar> \<le> (51 / 100 :: rat) \<and> 0 < n \<and> n \<le> 34"
proof -
  define x :: rat where "x = of_nat d"
  have d: "29 \<le> x" "x \<le> 185" using assms by (simp_all add: x_def)
  obtain f where f: "LOGO_FRACTION = Fin f" "\<bar>f - 18 / 100\<bar> \<le> (18 / 100) / 2 ^ 53"
    using round_dbl_near [of "18 / 100"] unfolding LOGO_FRACTION_def lit_def by auto
  have "\<bar>f - 18 / 100\<bar> \<le> 1 / 1000000000" using f(2) by (rule order_trans) simp
  then have f': "f \<le> 18 / 100 + 1 / 1000000000" "18 / 100 - 1 / 1000000000 \<le> f" by (simp_all only: abs_le_iff) linarith+
  have df: "x * f \<le> 18 / 100 * x + 1 / 1000000" "18 / 100 * x - 1 / 1000000 \<le> x * f"
    using scaled_up [OF f'(1), of x] scaled_down [OF f'(2), of x] d by simp_all
  obtain v where v: "round_dbl (x * f) = Fin v" "\<bar>v - x * f\<bar> \<le> x * f / 2 ^ 53"
    using round_dbl_near [of "x * f"] df d by auto
  have "x * f \<le> 40" using df(1) by (rule order_trans) (use d in \<open>simp add: field_simps\<close>)
  then have small: "x * f / 2 ^ 53 \<le> 1 / 1000000" by (rule tiny)
  note v' = close_up [OF v(2) small df(1)] close_down [OF v(2) small df(2)]
  have "0 \<le> v" using v'(2) d by linarith
  then obtain w k where w: "fround (Fin v) = Fin w" "\<bar>w - v\<bar> \<le> 1 / 2" "w = of_int k"
    using fround_error by (metis fround.simps(1))
  have near: "\<bar>of_int k - 18 / 100 * x\<bar> \<le> (51 / 100 :: rat)"
    using w(2) v' unfolding w(3) abs_le_iff by linarith
  have "(0 :: rat) < of_int k" "(of_int k :: rat) < of_int 35" using near d unfolding abs_le_iff by simp_all
  then have "0 < k" "k < 35" by (simp_all only: of_int_0_less_iff of_int_less_iff)
  then have "0 < k" "k \<le> 34" by simp_all
  moreover have "logo_size d = Fin (of_int k)" by (simp only: logo_size_def f(1) fmul.simps v(1) [unfolded x_def] w(1) w(3))
  ultimately show ?thesis using near unfolding x_def by blast
qed

text \<open>C40: the logo leaves the code readable. For every size of QR code, what a logo whitens (the circle of
  the emblem, the square backing of an image) stays clear of the three finder patterns and the timing
  patterns, and covers at most 15\% of the code, half of what level H corrects; its side is 18\% of the
  picture up to half a module.\<close>

theorem logo_leaves_code_readable:
  assumes "21 \<le> width" "width \<le> 177"
  shows "\<exists>n c a b r. logo_size (width + 2 * QUIET) = Fin (of_int n) \<and>
    \<bar>of_int n - 18 / 100 * of_nat (width + 2 * QUIET)\<bar> \<le> (51 / 100 :: rat) \<and>
    logo_center (width + 2 * QUIET) = Fin c \<and> backing_at (width + 2 * QUIET) = Fin a \<and>
    backing (width + 2 * QUIET) = Fin b \<and> mark_radius (width + 2 * QUIET) = Fin r \<and>
    of_nat (QUIET + 7) \<le> a \<and> a + b \<le> of_nat (width + QUIET - 7) \<and> b ^ 2 \<le> 15 / 100 * of_nat width ^ 2 \<and>
    of_nat (QUIET + 7) \<le> c - r \<and> c + r \<le> of_nat (width + QUIET - 7) \<and> (2 * r) ^ 2 \<le> 15 / 100 * of_nat width ^ 2"
proof -
  let ?d = "width + 2 * QUIET"
  define w where "w = (of_nat width :: rat)"
  have d: "(of_nat ?d :: rat) = w + 8" "29 \<le> ?d" "?d \<le> 185" using assms by (simp_all add: QUIET_def w_def)
  have w: "21 \<le> w" "w \<le> 177" using assms by (simp_all add: w_def)
  obtain n where n: "logo_size ?d = Fin (of_int n)" "\<bar>of_int n - 18 / 100 * of_nat ?d\<bar> \<le> (51 / 100 :: rat)" "0 < n" "n \<le> 34"
    using logo_size_near [OF d(2,3)] by blast
  let ?n = "of_int n :: rat"
  have up: "?n \<le> 18 / 100 * (w + 8) + 51 / 100" using n(2) unfolding d(1) abs_le_iff by linarith
  have "x < y - 15" if "x \<le> 18 / 100 * (y + 8) + 51 / 100" "21 \<le> y" for x y :: rat
    using that by (simp add: field_simps)
  from this [OF up w(1)] have "?n < w - 15" .
  then have "(of_int n :: rat) < of_int (int width - 15)" by (simp add: w_def)
  then have below: "n \<le> int width - 16" by (simp only: of_int_less_iff)
  then have whole: "?n \<le> w - 16" unfolding w_def by (metis of_int_le_iff of_int_diff of_int_of_nat_eq of_int_numeral)
  have two: "lit 2 = Fin 2" "lit 1 = Fin 1" and dbl: "round_dbl 2 = Fin 2"
    using round_dbl_half [of 4] round_dbl_half [of 2] by (simp_all add: lit_def)
  have center: "logo_center ?d = Fin ((w + 8) / 2)"
    using round_dbl_half [of "int ?d"] d assms by (simp add: logo_center_def two w_def)
  have backed: "backing ?d = Fin (?n + 2)"
    using round_dbl_half [of "2 * n + 4"] n by (simp add: backing_def n(1) two dbl fadd_def add_divide_distrib)
  have half: "fdiv (Fin (?n + 2)) (Fin 2) = Fin ((?n + 2) / 2)" using round_dbl_half [of "n + 2"] n by simp
  have eq: "(w + 8) / 2 - (?n + 2) / 2 = of_int (int width + 6 - n) / 2" by (simp add: field_simps w_def)
  have "round_dbl (of_int (int width + 6 - n) / 2) = Fin (of_int (int width + 6 - n) / 2)"
    using n(3) below assms by (intro round_dbl_half) simp_all
  then have seat: "backing_at ?d = Fin ((w + 8) / 2 - (?n + 2) / 2)"
    unfolding backing_at_def center backed two half fsub.simps eq .
  obtain f where f: "lit (65 / 100) = Fin f" "\<bar>f - 65 / 100\<bar> \<le> (65 / 100) / 2 ^ 53"
    using round_dbl_near [of "65 / 100"] unfolding lit_def by auto
  have "\<bar>f - 65 / 100\<bar> \<le> 1 / 1000000000" using f(2) by (rule order_trans) simp
  then have f': "f \<le> 65 / 100 + 1 / 1000000000" "65 / 100 - 1 / 1000000000 \<le> f" by (simp_all only: abs_le_iff) linarith+
  have n1: "1 \<le> ?n" "?n \<le> 34" using n(3,4) by simp_all
  have nf: "?n * f \<le> 65 / 100 * ?n + 1 / 1000000" "1 / 2 \<le> ?n * f"
    using scaled_up [OF f'(1), of ?n] scaled_down [OF f'(2), of ?n] n1 by simp_all
  obtain r where r: "round_dbl (?n * f) = Fin r" "\<bar>r - ?n * f\<bar> \<le> ?n * f / 2 ^ 53"
    using round_dbl_near [of "?n * f"] nf n1 by auto
  have "?n * f \<le> 40" using nf(1) by (rule order_trans) (use n1 in \<open>simp add: field_simps\<close>)
  then have small: "?n * f / 2 ^ 53 \<le> 1 / 1000000" by (rule tiny)
  have "1 / 2 - 1 / 100000 \<le> r" by (rule close_down [OF r(2) small]) (use nf(2) in linarith)
  then have r': "r \<le> 65 / 100 * ?n + 1 / 100000" "0 \<le> r" using close_up [OF r(2) small nf(1)] by simp_all
  have radius: "mark_radius ?d = Fin r" using n(1) f(1) r(1) by (simp add: mark_radius_def)
  have clear: "r \<le> (w + 8) / 2 - 11"
  proof (cases "w \<le> 22")
    case True
    then show ?thesis using r'(1) whole by (simp add: field_simps)
  next
    case False
    then show ?thesis using r'(1) up by (simp add: field_simps)
  qed
  have square: "x ^ 2 \<le> 15 / 100 * w ^ 2" if "0 \<le> x" "x \<le> 387 / 1000 * w" for x :: rat
  proof -
    have "x ^ 2 \<le> (387 / 1000 * w) ^ 2" using that by (intro power_mono)
    also have "\<dots> = 149769 / 1000000 * w ^ 2" by (simp add: power_mult_distrib power_divide)
    also have "\<dots> \<le> 15 / 100 * w ^ 2" by (intro mult_right_mono) simp_all
    finally show ?thesis .
  qed
  have area: "(?n + 2) ^ 2 \<le> 15 / 100 * w ^ 2" using n1 up w by (intro square) (simp_all add: field_simps)
  have disc: "(2 * r) ^ 2 \<le> 15 / 100 * w ^ 2" using r' up w by (intro square) (simp_all add: field_simps)
  have edge: "(of_nat (width + QUIET - 7) :: rat) = w - 3" using assms by (simp add: QUIET_def of_nat_diff w_def)
  show ?thesis
    unfolding edge w_def [symmetric] using n(1,2) center seat backed radius whole clear area disc
    by (intro exI conjI) (assumption | simp add: QUIET_def field_simps)+
qed

theorem logo_leaves_code_readable_witness:
  "\<exists>n. logo_size 29 = Fin (of_int n) \<and> \<bar>of_int n - 18 / 100 * 29\<bar> \<le> (51 / 100 :: rat)"
  using logo_leaves_code_readable [of 21] by (auto simp: QUIET_def)

end
