(* ===== verification/Sender.thy ===== *)
theory Sender
  imports Wallet Files Json
begin

text \<open>
  \<open>crates/gp-goblin-sender/src/main.rs\<close>: the sending half of the slatepack round trip, used to test the till
  against the wallet stack of another program. That stack, serde_json and the printed form of its errors are
  parameters; the sender's own wallet is the state \<open>'w\<close>, its working directory the disk.
\<close>

subsection \<open>The offline node\<close>

definition TIP_HEIGHT :: u64 where "TIP_HEIGHT = 10"
definition PASSWORD :: string where "PASSWORD = ''gate-sender-pw''"

definition offline :: "string \<Rightarrow> string + 'a" where
  "offline what = Inl (''offline gate stub: '' @ what)"

definition node_url_stub :: string where "node_url_stub = ''http://127.0.0.1:13413''"

definition get_chain_tip :: "string + u64 \<times> string" where
  "get_chain_tip = Inr (TIP_HEIGHT, replicate 64 (CHR ''0''))"

text \<open>Every output asked for is reported unspent; the answer is a map from commitments.\<close>

definition get_outputs_from_node :: "bytes list \<Rightarrow> string + (bytes \<rightharpoonup> string \<times> u64 \<times> u64)" where
  "get_outputs_from_node cs = Inr (map_of (List.map (\<lambda>c. (c, (hex_encode c, 1, 1))) (rev cs)))"

definition get_kernel_stub :: "bytes \<Rightarrow> string + 'a" where "get_kernel_stub c = offline ''get_kernel''"
definition post_tx_stub :: "'t \<Rightarrow> string + unit" where "post_tx_stub tx = offline ''post_tx''"

subsection \<open>The wallet stack\<close>

record output_data =
  od_root_key :: string
  od_key :: string
  od_n_child :: "32 word"
  od_value :: u64
  od_unspent :: bool
  od_height :: u64
  od_lock_height :: u64

record 'a init_args =
  ia_amount :: u64
  ia_min_confirmations :: u64
  ia_max_outputs :: "32 word"
  ia_change_outputs :: "32 word"
  ia_use_all :: bool
  ia_proof_to :: "'a option"

record final_tx =
  tx_kernels :: "(bytes \<times> (string + unit)) list"
  tx_inputs :: nat
  tx_outputs :: nat

text \<open>\<open>fk_commit\<close> is a batch: one output, the confirmed height of its parent, the commit.\<close>

record ('w, 's, 'a) fork =
  fk_mnemonic :: "bytes \<Rightarrow> string + string"
  fk_new :: "string + unit"
  fk_ready :: "'w \<Rightarrow> string + unit"
  fk_set_dir :: "string \<Rightarrow> 'w \<Rightarrow> (string + unit) \<times> 'w"
  fk_create :: "string \<Rightarrow> nat \<Rightarrow> string \<Rightarrow> 'w \<Rightarrow> (string + unit) \<times> 'w"
  fk_open :: "string \<Rightarrow> 'w \<Rightarrow> (string + unit) \<times> 'w"
  fk_parent :: "'w \<Rightarrow> string"
  fk_next_child :: "'w \<Rightarrow> (string + string \<times> 32 word) \<times> 'w"
  fk_commit :: "output_data \<Rightarrow> string \<Rightarrow> u64 \<Rightarrow> 'w \<Rightarrow> (string + unit) \<times> 'w"
  fk_init_send :: "'a init_args \<Rightarrow> 'w \<Rightarrow> (string + 's) \<times> 'w"
  fk_lock :: "'s \<Rightarrow> 'w \<Rightarrow> (string + unit) \<times> 'w"
  fk_armor :: "'s \<Rightarrow> 'a list \<Rightarrow> 'w \<Rightarrow> string + string"
  fk_parse :: "string \<Rightarrow> 'w \<Rightarrow> string + 's"
  fk_finalize :: "'s \<Rightarrow> 'w \<Rightarrow> (string + 's) \<times> 'w"
  fk_receive :: "'s \<Rightarrow> 'w \<Rightarrow> (string + 's) \<times> 'w"
  fk_excess :: "'s \<Rightarrow> 'w \<Rightarrow> string + bytes"
  fk_address :: "string \<Rightarrow> string + 'a"
  sl_id :: "'s \<Rightarrow> string"
  sl_state :: "'s \<Rightarrow> string"
  sl_has_proof :: "'s \<Rightarrow> bool"
  sl_participants :: "'s \<Rightarrow> nat"
  sl_tx :: "'s \<Rightarrow> final_tx option"
  fk_to_text :: "json \<Rightarrow> string"
  fk_from_text :: "string \<Rightarrow> string + json"

subsection \<open>Jobs\<close>

record 'w bench =
  bn_disk :: disk
  bn_wallet :: 'w
  bn_out :: "string list"

type_synonym ('w, 'a) job = "'w bench \<Rightarrow> (string + 'a) \<times> 'w bench"

definition after :: "('w, 'a) job \<Rightarrow> ('a \<Rightarrow> ('w, 'b) job) \<Rightarrow> ('w, 'b) job" where
  "after m k st = (case m st of (Inl e, st') \<Rightarrow> (Inl e, st') | (Inr x, st') \<Rightarrow> k x st')"

definition done_with :: "'a \<Rightarrow> ('w, 'a) job" where "done_with x st = (Inr x, st)"
definition stop :: "string \<Rightarrow> ('w, 'a) job" where "stop e st = (Inl e, st)"
definition check_that :: "bool \<Rightarrow> string \<Rightarrow> ('w, unit) job" where
  "check_that c e = (if c then done_with () else stop e)"
definition from_sum :: "string + 'a \<Rightarrow> ('w, 'a) job" where "from_sum r st = (r, st)"
definition on_wallet :: "('w \<Rightarrow> (string + 'a) \<times> 'w) \<Rightarrow> ('w, 'a) job" where
  "on_wallet f st = (case f (bn_wallet st) of (r, w) \<Rightarrow> (r, st\<lparr>bn_wallet := w\<rparr>))"
definition of_wallet :: "('w \<Rightarrow> string + 'a) \<Rightarrow> ('w, 'a) job" where "of_wallet g st = (g (bn_wallet st), st)"
definition on_disk :: "fs_faults \<Rightarrow> fs_call \<Rightarrow> (disk \<Rightarrow> disk) \<Rightarrow> ('w, unit) job" where
  "on_disk io call upd st = (case fs_call_as io (\<lambda>e. e) call upd (bn_disk st) of (r, d) \<Rightarrow> (r, st\<lparr>bn_disk := d\<rparr>))"
definition read_in :: "fs_faults \<Rightarrow> string \<Rightarrow> ('w, string) job" where
  "read_in io p st = (read_to_string io p (bn_disk st), st)"
definition print_line :: "string \<Rightarrow> ('w, unit) job" where
  "print_line l st = (Inr (), st\<lparr>bn_out := bn_out st @ [l]\<rparr>)"

definition write_out :: "fs_faults \<Rightarrow> nat \<Rightarrow> string \<Rightarrow> string \<Rightarrow> ('w, unit) job" where
  "write_out io umask p body = on_disk io (WriteFile p) (put_file umask p body)"

subsection \<open>The sender\<close>

definition open_sender :: "('w, 's, 'a) fork \<Rightarrow> string \<Rightarrow> string option \<Rightarrow> ('w, unit) job" where
  "open_sender F dir create_mnemonic =
     after (from_sum (fk_new F)) (\<lambda>_.
     after (of_wallet (fk_ready F)) (\<lambda>_.
     after (on_wallet (fk_set_dir F dir)) (\<lambda>_.
     after (case create_mnemonic of None \<Rightarrow> done_with () | Some words \<Rightarrow> on_wallet (fk_create F words 32 PASSWORD)) (\<lambda>_.
     on_wallet (fk_open F PASSWORD)))))"

definition create_sender :: "('w, 's, 'a) fork \<Rightarrow> bytes \<Rightarrow> string \<Rightarrow> ('w, unit) job" where
  "create_sender F entropy dir =
     after (from_sum (case fk_mnemonic F entropy of Inl e \<Rightarrow> Inl (''mnemonic generation failed: '' @ e) | Inr words \<Rightarrow> Inr words)) (\<lambda>words.
     open_sender F dir (Some words))"

definition inject_funds :: "('w, 's, 'a) fork \<Rightarrow> u64 \<Rightarrow> ('w, unit) job" where
  "inject_funds F value =
     after (of_wallet (fk_ready F)) (\<lambda>_.
     after (of_wallet (\<lambda>w. Inr (fk_parent F w))) (\<lambda>parent.
     after (on_wallet (fk_next_child F)) (\<lambda>(key, n_child).
     on_wallet (fk_commit F
       \<lparr>od_root_key = parent, od_key = key, od_n_child = n_child, od_value = value, od_unspent = True, od_height = 1,
        od_lock_height = 0\<rparr> parent TIP_HEIGHT))))"

definition init_send :: "('w, 's, 'a) fork \<Rightarrow> u64 \<Rightarrow> 'a option \<Rightarrow> ('w, 's) job" where
  "init_send F amount proof_recipient =
     after (of_wallet (fk_ready F)) (\<lambda>_.
     after (on_wallet (fk_init_send F
       \<lparr>ia_amount = amount, ia_min_confirmations = 1, ia_max_outputs = 500, ia_change_outputs = 1, ia_use_all = False,
        ia_proof_to = proof_recipient\<rparr>)) (\<lambda>slate.
     after (on_wallet (fk_lock F slate)) (\<lambda>_. done_with slate)))"

definition parse_s2 :: "('w, 's, 'a) fork \<Rightarrow> string \<Rightarrow> ('w, 's) job" where
  "parse_s2 F armor = of_wallet (fk_parse F (trim armor))"

definition finalize_send :: "('w, 's, 'a) fork \<Rightarrow> 's \<Rightarrow> ('w, 's) job" where
  "finalize_send F slate = after (of_wallet (fk_ready F)) (\<lambda>_. on_wallet (fk_finalize F slate))"

definition calc_excess :: "('w, 's, 'a) fork \<Rightarrow> 's \<Rightarrow> ('w, bytes) job" where
  "calc_excess F slate = after (of_wallet (fk_ready F)) (\<lambda>_. of_wallet (fk_excess F slate))"

definition wallet_dir :: "string \<Rightarrow> string" where
  "wallet_dir workdir = join_path workdir ''sender-wallet''"

subsection \<open>The commands\<close>

text \<open>The fee margin is added in \<open>u64\<close>: a build with overflow checks panics where one without them wraps around.\<close>

definition with_margin :: "bool \<Rightarrow> u64 \<Rightarrow> ('w, u64) job" where
  "with_margin checked amount =
     (if checked \<and> 2 ^ 64 \<le> unat amount + 1000000000 then stop ''attempt to add with overflow''
      else done_with (amount + 1000000000))"

definition address_of :: "('w, 's, 'a) fork \<Rightarrow> string \<Rightarrow> string \<Rightarrow> ('w, 'a) job" where
  "address_of F what addr =
     from_sum (case fk_address F addr of Inl e \<Rightarrow> Inl (what @ '' `'' @ addr @ ''` rejected: '' @ e) | Inr a \<Rightarrow> Inr a)"

definition cmd_gen ::
  "('w, 's, 'a) fork \<Rightarrow> bool \<Rightarrow> fs_faults \<Rightarrow> nat \<Rightarrow> bytes \<Rightarrow> string \<Rightarrow> u64 \<Rightarrow> string option \<Rightarrow> ('w, unit) job" where
  "cmd_gen F checked io umask entropy workdir amount rcpt =
     (let dir = wallet_dir workdir in
     after (on_disk io (MakeDir dir) (\<lambda>d. d)) (\<lambda>_.
     after (create_sender F entropy dir) (\<lambda>_.
     after (with_margin checked amount) (\<lambda>funds.
     after (inject_funds F funds) (\<lambda>_.
     after (init_send F amount None) (\<lambda>slate.
     after (check_that (sl_state F slate = ''Standard1'') (''expected S1 out of init_send_tx, got '' @ sl_state F slate)) (\<lambda>_.
     after (case rcpt of None \<Rightarrow> done_with []
              | Some addr \<Rightarrow> after (address_of F ''recipient address'' addr) (\<lambda>a. done_with [a])) (\<lambda>recipients.
     after (of_wallet (fk_armor F slate recipients)) (\<lambda>armor.
     after (write_out io umask (join_path workdir ''s1.armor'') armor) (\<lambda>_.
     let meta = fk_to_text F (JObj [(''slate_id'', JStr (sl_id F slate)), (''amount'', JInt (uint amount))]) in
     after (write_out io umask (join_path workdir ''meta.json'') meta) (\<lambda>_.
     print_line meta)))))))))))"

definition cmd_genproof ::
  "('w, 's, 'a) fork \<Rightarrow> bool \<Rightarrow> fs_faults \<Rightarrow> nat \<Rightarrow> bytes \<Rightarrow> string \<Rightarrow> u64 \<Rightarrow> string \<Rightarrow> ('w, unit) job" where
  "cmd_genproof F checked io umask entropy workdir amount rcpt =
     (let dir = wallet_dir workdir in
     after (on_disk io (MakeDir dir) (\<lambda>d. d)) (\<lambda>_.
     after (address_of F ''proof recipient address'' rcpt) (\<lambda>proof_addr.
     after (create_sender F entropy dir) (\<lambda>_.
     after (with_margin checked amount) (\<lambda>funds.
     after (inject_funds F funds) (\<lambda>_.
     after (init_send F amount (Some proof_addr)) (\<lambda>slate.
     after (check_that (sl_state F slate = ''Standard1'') (''expected S1 out of init_send_tx, got '' @ sl_state F slate)) (\<lambda>_.
     after (check_that (sl_has_proof F slate) ''init_send_tx did not attach a payment-proof request'') (\<lambda>_.
     after (of_wallet (fk_armor F slate [])) (\<lambda>armor.
     after (write_out io umask (join_path workdir ''s1.armor'') armor) (\<lambda>_.
     let meta = fk_to_text F (JObj [(''slate_id'', JStr (sl_id F slate)), (''amount'', JInt (uint amount)),
                                    (''proof_recipient'', JStr rcpt)]) in
     after (write_out io umask (join_path workdir ''meta.json'') meta) (\<lambda>_.
     print_line meta))))))))))))"

definition cmd_check :: "('w, 's, 'a) fork \<Rightarrow> fs_faults \<Rightarrow> nat \<Rightarrow> string \<Rightarrow> string \<Rightarrow> ('w, unit) job" where
  "cmd_check F io umask workdir s2_file =
     after (read_in io (join_path workdir ''meta.json'')) (\<lambda>raw.
     after (from_sum (fk_from_text F raw)) (\<lambda>meta.
     after (case get_key ''slate_id'' meta of Some (JStr sid) \<Rightarrow> done_with sid | _ \<Rightarrow> stop ''meta.json missing slate_id'') (\<lambda>slate_id.
     after (open_sender F (wallet_dir workdir) None) (\<lambda>_.
     after (read_in io s2_file) (\<lambda>armor.
     after (parse_s2 F armor) (\<lambda>s2.
     after (check_that (sl_id F s2 = slate_id) (''S2 slate id '' @ sl_id F s2 @ '' != sent '' @ slate_id)) (\<lambda>_.
     after (check_that (sl_state F s2 = ''Standard2'') (''expected S2, got '' @ sl_state F s2)) (\<lambda>_.
     after (check_that (sl_participants F s2 = 1) (''S2 has '' @ show_nat (sl_participants F s2) @ '' participants, want 1'')) (\<lambda>_.
     after (finalize_send F s2) (\<lambda>final.
     after (check_that (sl_state F final = ''Standard3'') (''expected S3 after finalize, got '' @ sl_state F final)) (\<lambda>_.
     after (case sl_tx F final of None \<Rightarrow> stop ''final slate carries no transaction'' | Some tx \<Rightarrow> done_with tx) (\<lambda>tx.
     after (check_that (length (tx_kernels tx) = 1 \<and> tx_inputs tx = 1 \<and> tx_outputs tx = 2)
       (''unexpected tx shape: '' @ show_nat (length (tx_kernels tx)) @ '' kernels, '' @ show_nat (tx_inputs tx) @
        '' inputs, '' @ show_nat (tx_outputs tx) @ '' outputs'')) (\<lambda>_.
     after (from_sum (case snd (hd (tx_kernels tx)) of Inl e \<Rightarrow> Inl (''kernel signature invalid: '' @ e) | Inr u \<Rightarrow> Inr u)) (\<lambda>_.
     after (calc_excess F final) (\<lambda>excess.
     after (check_that (fst (hd (tx_kernels tx)) = excess) ''kernel excess inconsistent with slate'') (\<lambda>_.
     let result = fk_to_text F (JObj [(''slate_id'', JStr (sl_id F final)), (''state'', JStr ''Standard3''),
           (''kernel_verified'', JBool True), (''kernel_excess'', JStr (hex_encode excess)), (''kernels'', JInt 1),
           (''inputs'', JInt 1), (''outputs'', JInt 2)]) in
     after (write_out io umask (join_path workdir ''result.json'') result) (\<lambda>_.
     print_line result)))))))))))))))))"

definition cmd_selfcheck :: "('w, 's, 'a) fork \<Rightarrow> fs_faults \<Rightarrow> bytes \<Rightarrow> string \<Rightarrow> ('w, unit) job" where
  "cmd_selfcheck F io entropy workdir =
     (let dir = wallet_dir workdir in
     after (on_disk io (MakeDir dir) (\<lambda>d. d)) (\<lambda>_.
     after (create_sender F entropy dir) (\<lambda>_.
     after (inject_funds F (2000000000 + 1000000000)) (\<lambda>_.
     after (init_send F 2000000000 None) (\<lambda>s1.
     after (of_wallet (fk_armor F s1 [])) (\<lambda>s1_armor.
     after (parse_s2 F s1_armor) (\<lambda>parsed.
     after (of_wallet (fk_ready F)) (\<lambda>_.
     after (on_wallet (fk_receive F parsed)) (\<lambda>s2.
     after (of_wallet (fk_armor F s2 [])) (\<lambda>s2_armor.
     after (parse_s2 F s2_armor) (\<lambda>s2_back.
     after (finalize_send F s2_back) (\<lambda>final.
     after (check_that (sl_state F final = ''Standard3'') (''selfcheck: expected S3, got '' @ sl_state F final)) (\<lambda>_.
     print_line (''selfcheck ok: '' @ sl_id F final @ '' '' @ sl_state F final))))))))))))))"

definition parse_u64_str :: "string \<Rightarrow> string + u64" where
  "parse_u64_str s =
     (case parse_unsigned (case s of c # rest \<Rightarrow> (if c = CHR ''+'' then rest else s) | [] \<Rightarrow> []) of
        None \<Rightarrow> Inl (if s = [] then ''cannot parse integer from empty string'' else ''invalid digit found in string'')
      | Some n \<Rightarrow> if n < 2 ^ 64 then Inr (of_nat n) else Inl ''number too large to fit in target type'')"

text \<open>The arguments after the program name.\<close>

definition run_sender :: "('w, 's, 'a) fork \<Rightarrow> bool \<Rightarrow> fs_faults \<Rightarrow> nat \<Rightarrow> bytes \<Rightarrow> string list \<Rightarrow> ('w, unit) job" where
  "run_sender F checked io umask entropy args =
     (let usage = stop (''usage: gp-goblin-sender gen <workdir> <amount_nanogrin> [recipient] '' @
                ''| genproof <workdir> <amount_nanogrin> <recipient> '' @
                ''| check <workdir> <s2_file> | selfcheck <workdir>'') in
      case args of
        [c, w] \<Rightarrow> if c = ''selfcheck'' then cmd_selfcheck F io entropy w else usage
      | [c, w, x] \<Rightarrow>
          if c = ''gen'' then after (from_sum (parse_u64_str x)) (\<lambda>amount. cmd_gen F checked io umask entropy w amount None)
          else if c = ''check'' then cmd_check F io umask w x else usage
      | [c, w, x, r] \<Rightarrow>
          if c = ''gen'' then after (from_sum (parse_u64_str x)) (\<lambda>amount. cmd_gen F checked io umask entropy w amount (Some r))
          else if c = ''genproof'' then after (from_sum (parse_u64_str x)) (\<lambda>amount. cmd_genproof F checked io umask entropy w amount r)
          else usage
      | _ \<Rightarrow> usage)"

subsection \<open>What a job did\<close>

lemma after_Inr: "after m k st = (Inr y, st2) \<longleftrightarrow> (\<exists>x st1. m st = (Inr x, st1) \<and> k x st1 = (Inr y, st2))"
  by (auto simp: after_def split: prod.splits sum.splits)

lemma done_with_Inr: "done_with x st = (Inr y, st2) \<longleftrightarrow> y = x \<and> st2 = st"
  by (auto simp: done_with_def)

lemma check_that_Inr: "check_that c e st = (Inr u, st2) \<longleftrightarrow> c \<and> st2 = st"
  by (auto simp: check_that_def done_with_def stop_def)

lemma from_sum_Inr: "from_sum r st = (Inr x, st2) \<longleftrightarrow> r = Inr x \<and> st2 = st"
  by (auto simp: from_sum_def)

lemma of_wallet_Inr: "of_wallet g st = (Inr x, st2) \<longleftrightarrow> g (bn_wallet st) = Inr x \<and> st2 = st"
  by (auto simp: of_wallet_def)

lemma job_on_wallet_Inr:
  "on_wallet f st = (Inr x, st2) \<longleftrightarrow> (\<exists>w. f (bn_wallet st) = (Inr x, w) \<and> st2 = st\<lparr>bn_wallet := w\<rparr>)"
  by (auto simp: on_wallet_def split: prod.splits)

lemma on_disk_Inr:
  "on_disk io call upd st = (Inr u, st2) \<longleftrightarrow> io call (bn_disk st) = None \<and> st2 = st\<lparr>bn_disk := upd (bn_disk st)\<rparr>"
  by (auto simp: on_disk_def fs_call_as_def split: option.splits)

lemma print_line_Inr: "print_line l st = (Inr u, st2) \<longleftrightarrow> st2 = st\<lparr>bn_out := bn_out st @ [l]\<rparr>"
  by (auto simp: print_line_def)

lemma read_in_Inr: "read_in io p st = (Inr x, st2) \<longleftrightarrow> read_to_string io p (bn_disk st) = Inr x \<and> st2 = st"
  by (auto simp: read_in_def)

lemmas job_Inr = after_Inr done_with_Inr check_that_Inr from_sum_Inr of_wallet_Inr job_on_wallet_Inr on_disk_Inr print_line_Inr
  read_in_Inr

text \<open>Jobs that keep the disk.\<close>

definition keeps_disk :: "('w, 'a) job \<Rightarrow> bool" where
  "keeps_disk m \<longleftrightarrow> (\<forall>st. bn_disk (snd (m st)) = bn_disk st)"

lemma keeps_disk_after: "keeps_disk m \<Longrightarrow> (\<And>x. keeps_disk (k x)) \<Longrightarrow> keeps_disk (after m k)"
proof -
  assume m: "keeps_disk m" and k: "\<And>x. keeps_disk (k x)"
  have "bn_disk (snd (after m k st)) = bn_disk st" for st
  proof -
    obtain r st1 where r: "m st = (r, st1)" by fastforce
    have d: "bn_disk st1 = bn_disk st" using m r unfolding keeps_disk_def by (metis snd_conv)
    show ?thesis using k d unfolding keeps_disk_def by (cases r) (simp_all add: after_def r)
  qed
  then show ?thesis by (simp add: keeps_disk_def)
qed

lemma keeps_disk_basic:
  "keeps_disk (done_with x)" "keeps_disk (stop e)" "keeps_disk (check_that c e)" "keeps_disk (from_sum r)"
  "keeps_disk (of_wallet g)" "keeps_disk (on_wallet f)" "keeps_disk (read_in io p)" "keeps_disk (print_line l)"
  by (auto simp: keeps_disk_def done_with_def stop_def check_that_def from_sum_def of_wallet_def on_wallet_def read_in_def
      print_line_def split: prod.split)

lemma keeps_disk_open: "keeps_disk (open_sender F dir words)"
  unfolding open_sender_def by (intro keeps_disk_after keeps_disk_basic) (simp add: keeps_disk_basic split: option.split)

subsection \<open>What is sent is what is received\<close>

text \<open>
  The two wallet stacks speak of the same slate: what the sender armors from a send of an amount, the till's
  wallet reads with the same id and that amount, and receiving keeps the id.
\<close>

definition cross_stack :: "('w, 's, 'a) fork \<Rightarrow> ('u, 'r, 'v, 'n) backend \<Rightarrow> bool" where
  "cross_stack F b \<longleftrightarrow>
     (\<forall>args v s v' u rcps a w x. fk_init_send F args v = (Inr s, v') \<longrightarrow> fk_armor F s rcps u = Inr a \<longrightarrow>
        be_read b (trim a) w = Inr x \<longrightarrow> be_id b x = sl_id F s \<and> be_amount b x = ia_amount args) \<and>
     (\<forall>x w y w'. be_receive b x w = (Inr y, w') \<longrightarrow> be_id b y = be_id b x)"

text \<open>A payment the sender generates is one the till records as stated: when \<open>gen\<close> succeeds, its two files are there,
  and whatever the till's wallet makes of the armor, a receive that succeeds has the amount asked for and the slate id
  of \<open>meta.json\<close>.\<close>

lemma sent_is_received:
  assumes "cmd_gen F checked io umask entropy workdir amount rcpt st = (Inr (), st')" "cross_stack F b"
  shows "\<exists>armor sid. map_option fl_body (bn_disk st' (join_path workdir ''s1.armor'')) = Some armor \<and>
    map_option fl_body (bn_disk st' (join_path workdir ''meta.json'')) =
      Some (fk_to_text F (JObj [(''slate_id'', JStr sid), (''amount'', JInt (uint amount))])) \<and>
    (\<forall>ed to_json w rcv w'. receive_slatepack ed to_json b armor w = (Inr rcv, w') \<longrightarrow>
       rcv_amount rcv = amount \<and> rcv_slate_id rcv = sid)"
proof -
  have neq: "join_path workdir ''meta.json'' \<noteq> join_path workdir ''s1.armor''" by (simp add: join_path_def)
  obtain v s v' u d0 rcps armor where s: "fk_init_send F \<lparr>ia_amount = amount, ia_min_confirmations = 1, ia_max_outputs = 500,
        ia_change_outputs = 1, ia_use_all = False, ia_proof_to = None\<rparr> v = (Inr s, v')"
    and a: "fk_armor F s rcps u = Inr armor"
    and d: "bn_disk st' = put_file umask (join_path workdir ''meta.json'')
        (fk_to_text F (JObj [(''slate_id'', JStr (sl_id F s)), (''amount'', JInt (uint amount))]))
        (put_file umask (join_path workdir ''s1.armor'') armor d0)"
    using assms(1) by (auto simp: cmd_gen_def Let_def job_Inr init_send_def write_out_def)
  have "rcv_amount rcv = amount \<and> rcv_slate_id rcv = sl_id F s"
    if "receive_slatepack ed to_json b armor w = (Inr rcv, w')" for ed to_json w rcv w'
  proof -
    from that obtain x y w1 w2 where "be_read b (trim armor) w = Inr x" "be_receive b x w1 = (Inr y, w2)"
      "rcv_slate_id rcv = be_id b y" "rcv_amount rcv = be_amount b x"
      by (auto simp: receive_slatepack_def receive_s1_def wop_Inr fail_def split: if_splits)
    with assms(2) s a show ?thesis unfolding cross_stack_def by fastforce
  qed
  with neq show ?thesis by (auto simp: d put_file_def)
qed

subsection \<open>Checking a reply\<close>

definition fails_clean :: "('w, 'a) job \<Rightarrow> bool" where
  "fails_clean m \<longleftrightarrow> (\<forall>st e st'. m st = (Inl e, st') \<longrightarrow> bn_disk st' = bn_disk st)"

lemma fails_clean_after: "keeps_disk m \<Longrightarrow> (\<And>x. fails_clean (k x)) \<Longrightarrow> fails_clean (after m k)"
  by (auto simp: keeps_disk_def fails_clean_def after_def split: prod.splits sum.splits) (metis snd_conv)+

lemma fails_clean_write: "fails_clean (after (write_out io umask p body) (\<lambda>_. print_line l))"
  by (auto simp: fails_clean_def after_def write_out_def on_disk_def fs_call_as_def print_line_def
      split: prod.splits sum.splits option.splits)

text \<open>When \<open>check\<close> fails, nothing was written.\<close>

lemma failed_check_keeps_disk:
  assumes "cmd_check F io umask workdir s2_file st = (Inl e, st')"
  shows "bn_disk st' = bn_disk st"
proof -
  have job: "keeps_disk (case x of None \<Rightarrow> stop m | Some y \<Rightarrow> done_with y)" for x :: "'z option" and m
    by (simp add: keeps_disk_basic split: option.split)
  have sid: "keeps_disk (case v of Some (JStr i) \<Rightarrow> done_with i | _ \<Rightarrow> stop m)" for v m
    by (simp add: keeps_disk_basic split: option.split json.split)
  have "fails_clean (cmd_check F io umask workdir s2_file)"
    unfolding cmd_check_def Let_def parse_s2_def finalize_send_def calc_excess_def
    by (intro fails_clean_after fails_clean_write keeps_disk_open keeps_disk_after keeps_disk_basic sid job)
  with assms show ?thesis unfolding fails_clean_def by blast
qed

text \<open>When it succeeds, the reply belongs to the slate of \<open>meta.json\<close> and finalizes to a transaction with one kernel,
  verified, of the slate's excess; the result says so.\<close>

lemma check_accepts:
  assumes "cmd_check F io umask workdir s2_file st = (Inr (), st')"
  shows "\<exists>raw meta s2 final tx excess. read_to_string io (join_path workdir ''meta.json'') (bn_disk st) = Inr raw \<and>
    fk_from_text F raw = Inr meta \<and> get_key ''slate_id'' meta = Some (JStr (sl_id F s2)) \<and>
    sl_state F s2 = ''Standard2'' \<and> sl_participants F s2 = 1 \<and> sl_state F final = ''Standard3'' \<and> sl_tx F final = Some tx \<and>
    tx_kernels tx = [(excess, Inr ())] \<and> tx_inputs tx = 1 \<and> tx_outputs tx = 2 \<and>
    map_option fl_body (bn_disk st' (join_path workdir ''result.json'')) = Some (fk_to_text F (JObj [(''slate_id'', JStr (sl_id F final)),
      (''state'', JStr ''Standard3''), (''kernel_verified'', JBool True), (''kernel_excess'', JStr (hex_encode excess)),
      (''kernels'', JInt 1), (''inputs'', JInt 1), (''outputs'', JInt 2)]))"
proof -
  have sid: "(case v of Some (JStr i) \<Rightarrow> done_with i | _ \<Rightarrow> stop m) st1 = (Inr i, st2) \<longleftrightarrow> v = Some (JStr i) \<and> st2 = st1"
    for v m i and st1 st2 :: "'a bench"
    by (auto simp: done_with_def stop_def split: option.split json.split)
  have tx: "(case x of None \<Rightarrow> stop m | Some y \<Rightarrow> done_with y) st1 = (Inr y, st2) \<longleftrightarrow> x = Some y \<and> st2 = st1"
    for x :: "final_tx option" and m y and st1 st2 :: "'a bench"
    by (auto simp: done_with_def stop_def split: option.split)
  have kernel: "(case k of Inl e \<Rightarrow> Inl (''kernel signature invalid: '' @ e) | Inr u \<Rightarrow> Inr u) = Inr u \<longleftrightarrow> k = Inr u"
    for k :: "string + unit" and u by (cases k) auto
  have one: "length ks = 1 \<Longrightarrow> \<exists>a b. ks = [(a, b)]" for ks :: "(bytes \<times> (string + unit)) list"
    by (cases ks) (auto simp: prod_eq_iff)
  show ?thesis
    using assms unfolding cmd_check_def Let_def after_Inr sid tx check_that_Inr from_sum_Inr read_in_Inr kernel write_out_def
      on_disk_Inr print_line_Inr
    by (elim exE conjE) (fastforce dest!: one simp: put_file_def)
qed

end
