(* ===== verification/Spec2Isabelle.thy ===== *)
theory Spec2Isabelle
  imports Derive Ledger Delivery Boot Http Qr Sender
begin

text \<open>
  GoblinPay: a self-hosted Grin payment server (the Rust workspace under \<open>src/crates\<close>). A
  customer pays an invoice in one of three ways, and all three end in the same database:

  \<^item> over Nostr: an encrypted gift wrap carries a slatepack (a Grin transaction under
    construction). \<open>gp-nostr/src/ingest.rs\<close> guards it, \<open>gp-server/src/ingest.rs\<close> hands it to the
    wallet, \<open>gp-server/src/record.rs\<close> records it, matches it to an invoice and queues a webhook;
  \<^item> pasted on the hosted page: \<open>gp-server/src/checkout.rs\<close>, onto the same recording path;
  \<^item> over the grin1 rail: the payer's wallet answers an invoice slate on the Foreign API of
    \<open>gp-server/src/foreign.rs\<close>, which finalizes and settles it.

  A shop creates invoices over the REST API (\<open>gp-server/src/invoices.rs\<close>), priced by the rate
  oracle (\<open>gp-core/src/rates.rs\<close>); a poll (\<open>gp-server/src/payments.rs\<close>) asks a Grin node for the
  depth of the payments' kernels and confirms invoices; a worker (\<open>gp-server/src/webhookd.rs\<close>)
  delivers the queued webhooks with retries; tenants rotate their receiving keys
  (\<open>gp-core/src/endpub.rs\<close>). The operator makes the installation with the guided setup
  (\<open>gp-server/src/setup.rs\<close>) and manages it over the admin pages (\<open>gp-server/src/admin.rs\<close>).
\<close>

section \<open>Theories\<close>

text \<open>
  Groundwork. \<open>Prelude\<close>: integer conversions, SQL statements over lists of rows, the lemma
  collections. \<open>Text\<close>: Rust's \<open>str\<close> methods on UTF-8 bytes, decimal and hexadecimal text. \<open>Db\<close>:
  the SQLite tables as lists of records in rowid order. \<open>Civil\<close>: the calendar. \<open>F64\<close>, \<open>Json\<close>: the
  double arithmetic and the JSON values the code uses from its standard and serde libraries. \<open>Files\<close>:
  \<open>std::fs\<close> and \<open>std::path\<close>.

  Core. \<open>Invoice\<close> and \<open>InvoiceBook\<close>: \<open>gp-core/src/invoice.rs\<close>, its operations, the row
  invariant, the evolution order of rows and the abstract book of phases they refine.
  \<open>Matching\<close>: \<open>matching.rs\<close>. \<open>Webhook\<close>: \<open>webhook.rs\<close> and \<open>webhookd.rs\<close>. \<open>Derive\<close>, \<open>Endpub\<close>:
  \<open>derive.rs\<close>, \<open>endpub.rs\<close>. \<open>Rates\<close>: \<open>rates.rs\<close>. \<open>Config\<close>, \<open>Setup\<close>: \<open>config.rs\<close>, \<open>setup.rs\<close>. \<open>Ids\<close>:
  \<open>ids.rs\<close>. \<open>Qr\<close>: \<open>qr.rs\<close>, the picture as its modules and the part the logo covers.

  Wallet. \<open>Wallet\<close>: \<open>gp-wallet/src/lib.rs\<close> and \<open>proof.rs\<close> over an abstract grin-wallet.
  \<open>Confirm\<close>: \<open>gp-wallet/src/confirm.rs\<close> and the poll of \<open>payments.rs\<close>. \<open>Onion\<close>: the wallet's key reads
  and the onion service of \<open>gp-server/src/tor.rs\<close> they name. \<open>Sender\<close>: the test tool
  \<open>gp-goblin-sender\<close>, the other end of a payment.

  Installation. \<open>Wizard\<close>: \<open>gp-server/src/setup.rs\<close>, what it asks, creates and writes, and that no run
  of it loses a wallet. \<open>Identity\<close>: \<open>gp-nostr/src/identity.rs\<close>. \<open>Boot\<close>: \<open>gp-server/src/main.rs\<close>, from the
  arguments to the tasks it starts, and that a boot resumes the server the last one left.

  Server. \<open>Recording\<close>: \<open>record.rs\<close>. \<open>Foreign\<close>: \<open>foreign.rs\<close>. \<open>Checkout\<close>: \<open>checkout.rs\<close>.
  \<open>InvoiceApi\<close>: \<open>invoices.rs\<close>, \<open>auth.rs\<close>, \<open>store.rs\<close>. \<open>Protocol\<close>, \<open>Ingest\<close>, \<open>Receiver\<close>: the Nostr
  side, \<open>gp-nostr/src/protocol.rs\<close>, \<open>relays.rs\<close>, \<open>ingest.rs\<close> and \<open>gp-server/src/ingest.rs\<close>.
  \<open>Receipt\<close>: \<open>gp-nostr/src/receipt.rs\<close> and the receipt endpoint of \<open>payments.rs\<close>. \<open>Admin\<close>:
  \<open>admin.rs\<close>, every endpoint behind its guard. \<open>Http\<close>: the route table, and that a request is a
  sequence of steps of the server.

  Nostr. \<open>Directory\<close>: \<open>gp-server/src/directory.rs\<close>, the keys the server holds and the invariant
  that they are the identities it handed out. \<open>Wrap\<close>: \<open>gp-nostr/src/wrap.rs\<close> over nostr-sdk and
  the \<open>nip44\<close> crate, and who can be reported as the payer. \<open>Service\<close>: \<open>gp-nostr/src/service.rs\<close>,
  its start-up and loop, as runs of the server of \<open>Lifecycle\<close>. \<open>Delivery\<close>: what the service
  promises: replies re-sent, the watch set followed, a payment answered from end to end.

  The whole. \<open>Writes\<close>: every handler and background pass as a sequence of single writes, so that
  any relation closed under those holds over all of them. \<open>Lifecycle\<close>: the running server as a step
  relation, the invariant of its reachable states, the evolution of invoices and the refinement of
  the abstract invoice book. \<open>Ledger\<close>: no invoice is paid without its own exact payment, over a
  wallet that keeps grin-wallet's documented rules.
\<close>

section \<open>Conventions\<close>

text \<open>
  A Rust string is the list of its UTF-8 bytes, a u64 a 64-bit word, an i64 column an \<open>int\<close>
  reached through \<open>as_i64\<close>/\<open>as_u64\<close>, a timestamp the second it denotes. An SQL statement is a
  function on the list of rows; a failing statement (a key constraint, an integer overflow)
  returns an \<open>sql_error\<close> and leaves the state the statement left. The database connection itself
  does not fail (the key directory's two scans may). Where Rust code may panic the model says so:
  \<open>None\<close> in \<open>Derive\<close>, \<open>Panics\<close> in \<open>Receipt\<close>. Every fresh id, token and clock reading is an argument of the operation that
  makes it, one per reading; a list of external answers (node reads, HTTP answers, wallet
  cancellations) is a function of the position in the pass.

  Code outside the repository is a parameter: the hash and the curve of key derivation, HMAC,
  constant-time equality, ed25519, the grin-wallet backend, the node, nostr-sdk's keys and
  encodings, the relay pool, the HTTP client, the shortest decimal printing of a double, Unicode lower-casing.

  No definition uses fuel: loops over work lists are structural, the retry loop of
  \<open>child_secret\<close> is over a counter byte of 256 values as in the code, and the string and number
  parsers recurse on a shrinking argument.
\<close>

text \<open>
  A disk is a map from paths to bodies with permission bits; which of its calls fail is a function
  of the call. The terminal is the lines typed and the screens shown, a screen being named by its
  purpose. A restart keeps the database and the wallet and drops what a process holds in memory. A
  launch of the onion service is the trace of its calls into arti. The geometry of the QR logo and
  the prices are in binary64, whose operations are the exact ones rounded. An HTTP request comes with
  its body, form and query extracted, or missing where actix-web refused them.
\<close>

section \<open>Not modelled\<close>

text \<open>
  The HTML of the pages, of which the data are modelled; opening the database file and its
  migrations (\<open>db.rs\<close>), whose schema the records of \<open>Db\<close> state; sockets, threads, timeouts and
  signals; the echo of the terminal; the code of third-party crates.
\<close>

end
